(* ===== verification/Wisp_Prelude.thy ===== *)
theory Wisp_Prelude
  imports Main "HOL-Library.Word"
begin

unbundle bit_operations_syntax

text \<open>
  Shared vocabulary of the development: the names of the Go types the server uses
  (bytes, strings, times, the 64-bit \<^verbatim>\<open>int\<close>), the collections that the component
  theories extend, and the generic lemmas on lists, maps and words that their proofs rest on.
  Go strings are byte strings: a HOL \<open>char\<close> is one byte, so \<open>string\<close> is used for
  them, while data on the wire is a list of 8-bit words.
\<close>

section \<open>Names of types\<close>

type_synonym byte = "8 word"
type_synonym bytes = "8 word list"
type_synonym u16 = "16 word"
type_synonym u32 = "32 word"
type_synonym u64 = "64 word"

text \<open>Instants and durations are nanoseconds, as in Go's \<^verbatim>\<open>time\<close> package.\<close>

type_synonym gotime = int
type_synonym duration = int

named_theorems frame_simps "how an operation leaves the fields it does not write"
named_theorems inv_intros "invariants that the operations establish or keep"
named_theorems codec_simps "decoders applied to encoders"

section \<open>Go's signed 64-bit and 32-bit arithmetic over the integers\<close>

definition wrap64 :: "int \<Rightarrow> int" where
  "wrap64 x = (x + 2 ^ 63) mod 2 ^ 64 - 2 ^ 63"

definition wrap32 :: "int \<Rightarrow> int" where
  "wrap32 x = (x + 2 ^ 31) mod 2 ^ 32 - 2 ^ 31"

lemma wrap64_id [simp]: "- (2 ^ 63) \<le> x \<Longrightarrow> x < 2 ^ 63 \<Longrightarrow> wrap64 x = x"
  by (simp add: wrap64_def)

lemma wrap32_id [simp]: "- (2 ^ 31) \<le> x \<Longrightarrow> x < 2 ^ 31 \<Longrightarrow> wrap32 x = x"
  by (simp add: wrap32_def)

lemma wrap64_add_wrap64 [simp]:
  "wrap64 (wrap64 x + y) = wrap64 (x + y)" "wrap64 (y + wrap64 x) = wrap64 (y + x)"
  by (simp_all add: wrap64_def mod_simps algebra_simps)

lemma wrap64_range: "- (2 ^ 63) \<le> wrap64 x" "wrap64 x < 2 ^ 63"
  by (simp_all add: wrap64_def)

text \<open>\<^verbatim>\<open>time.Time.Sub\<close> saturates at the bounds of \<^verbatim>\<open>time.Duration\<close>.\<close>

definition time_sub :: "gotime \<Rightarrow> gotime \<Rightarrow> duration" where
  "time_sub a b = max (- (2 ^ 63)) (min (2 ^ 63 - 1) (a - b))"

text \<open>The zero \<^verbatim>\<open>time.Time\<close> (January 1 of the year 1) against the Unix epoch.\<close>

definition zero_time :: gotime where
  "zero_time = - 62135596800000000000"

abbreviation millisecond :: duration where "millisecond \<equiv> 1000000"
abbreviation second :: duration where "second \<equiv> 1000000000"
abbreviation minute :: duration where "minute \<equiv> 60000000000"
abbreviation hour :: duration where "hour \<equiv> 3600000000000"

lemma time_sub_less_iff: "\<lbrakk>0 < d; d \<le> 2 ^ 63 - 1\<rbrakk> \<Longrightarrow> time_sub a b < d \<longleftrightarrow> a - b < d"
  by (auto simp: time_sub_def min_def max_def)

section \<open>Maps\<close>

text \<open>Go's \<^verbatim>\<open>for k, e := range m { if p(k, e) { delete(m, k) } }\<close>.\<close>

definition delete_where :: "('k \<Rightarrow> 'v \<Rightarrow> bool) \<Rightarrow> ('k \<rightharpoonup> 'v) \<Rightarrow> ('k \<rightharpoonup> 'v)" where
  "delete_where p m = (\<lambda>k. case m k of None \<Rightarrow> None | Some v \<Rightarrow> if p k v then None else Some v)"

lemma delete_where_Some [simp]:
  "delete_where p m k = Some v \<longleftrightarrow> m k = Some v \<and> \<not> p k v"
  by (auto simp: delete_where_def split: option.splits)

lemma delete_where_None:
  "delete_where p m k = None \<longleftrightarrow> (\<forall>v. m k = Some v \<longrightarrow> p k v)"
  by (auto simp: delete_where_def split: option.splits)

lemma dom_delete_where: "dom (delete_where p m) \<subseteq> dom m"
  by (auto simp: dom_def)

lemma delete_where_idem [simp]: "delete_where p (delete_where p m) = delete_where p m"
  by (rule ext) (auto simp: delete_where_def split: option.splits)

lemma card_dom_upd_fresh: "finite (dom m) \<Longrightarrow> m k = None \<Longrightarrow> card (dom (m(k \<mapsto> v))) = Suc (card (dom m))"
  by (simp add: card_insert_disjoint domIff)

lemma card_dom_delete: "finite (dom m) \<Longrightarrow> m k = Some v \<Longrightarrow> card (dom (m(k := None))) = card (dom m) - 1"
  by (simp add: card_Diff_singleton domI)

section \<open>Lists\<close>

definition total_length :: "'a list list \<Rightarrow> nat" where
  "total_length xss = sum_list (map length xss)"

lemma total_length_simps [simp]:
  "total_length [] = 0"
  "total_length (xs # xss) = length xs + total_length xss"
  "total_length (xss @ yss) = total_length xss + total_length yss"
  by (simp_all add: total_length_def)

lemma length_concat_total [simp]: "length (concat xss) = total_length xss"
  by (induction xss) simp_all

lemma list_update_Cons_numeral [simp]:
  "(x # xs)[numeral n := y] = x # xs[pred_numeral n := y]"
  by (simp add: numeral_eq_Suc)

lemma take_add_Cons_numeral [simp]:
  "take (numeral n + m) (x # xs) = x # take (pred_numeral n + m) xs"
  by (simp add: numeral_eq_Suc)

lemma take_append_le: "n \<le> length xs \<Longrightarrow> take n (xs @ ys) = take n xs"
  by simp

lemma slice_append: "i \<le> j \<Longrightarrow> j \<le> k \<Longrightarrow>
  take (j - i) (drop i xs) @ take (k - j) (drop j xs) = take (k - i) (drop i xs)"
proof -
  assume "i \<le> j" "j \<le> k"
  then have "take (k - i) (drop i xs) = take (j - i + (k - j)) (drop i xs)" by simp
  also have "\<dots> = take (j - i) (drop i xs) @ take (k - j) (drop (j - i) (drop i xs))"
    by (rule take_add)
  finally show ?thesis using \<open>i \<le> j\<close> by simp
qed

lemma list_cases_length_ge5:
  assumes "5 \<le> length xs"
  obtains a b c d e ys where "xs = a # b # c # d # e # ys"
proof -
  from assms obtain a xs1 where 1: "xs = a # xs1" "4 \<le> length xs1" by (cases xs) auto
  then obtain b xs2 where 2: "xs1 = b # xs2" "3 \<le> length xs2" by (cases xs1) auto
  then obtain c xs3 where 3: "xs2 = c # xs3" "2 \<le> length xs3" by (cases xs2) auto
  then obtain d xs4 where 4: "xs3 = d # xs4" "1 \<le> length xs4" by (cases xs3) auto
  then obtain e ys where "xs4 = e # ys" by (cases xs4) auto
  with 1 2 3 4 that show thesis by simp
qed

section \<open>Byte strings and strings\<close>

text \<open>Go's conversions \<^verbatim>\<open>string(b)\<close> and \<^verbatim>\<open>[]byte(s)\<close>.\<close>

definition char_of_byte :: "byte \<Rightarrow> char" where
  "char_of_byte b = char_of (unat b)"

definition byte_of_char :: "char \<Rightarrow> byte" where
  "byte_of_char c = of_nat (of_char c)"

definition string_of_bytes :: "bytes \<Rightarrow> string" where
  "string_of_bytes = map char_of_byte"

definition bytes_of_string :: "string \<Rightarrow> bytes" where
  "bytes_of_string = map byte_of_char"

lemma unat_byte_of_char [simp]: "unat (byte_of_char c) = of_char c"
proof -
  have "of_char c < (256 :: nat)" by (rule nat_of_char_less_256)
  then show ?thesis by (simp add: byte_of_char_def unat_of_nat)
qed

lemma char_of_byte_of_char [simp]: "char_of_byte (byte_of_char c) = c"
  by (simp add: char_of_byte_def)

lemma byte_of_char_of_byte [simp]: "byte_of_char (char_of_byte b) = b"
proof -
  have "unat b < 256" using unsigned_less[of b, where 'a = nat] by simp
  then show ?thesis by (simp add: char_of_byte_def byte_of_char_def)
qed

lemma string_of_bytes_of_string [simp, codec_simps]: "string_of_bytes (bytes_of_string s) = s"
  by (simp add: string_of_bytes_def bytes_of_string_def comp_def)

lemma bytes_of_string_of_bytes [simp, codec_simps]: "bytes_of_string (string_of_bytes b) = b"
  by (simp add: string_of_bytes_def bytes_of_string_def comp_def)

lemma length_bytes_of_string [simp]: "length (bytes_of_string s) = length s"
  by (simp add: bytes_of_string_def)

lemma length_string_of_bytes [simp]: "length (string_of_bytes b) = length b"
  by (simp add: string_of_bytes_def)

lemma string_of_bytes_eq_iff [simp]: "string_of_bytes a = string_of_bytes b \<longleftrightarrow> a = b"
  by (metis bytes_of_string_of_bytes)

section \<open>An interface: encoders with a decoder\<close>

text \<open>
  A fixed-width encoding: \<open>put\<close> writes \<open>width\<close> bytes and \<open>get\<close> reads them back from
  the front of any longer input. Clients may then decode concatenations field by field.
\<close>

locale fixed_codec =
  fixes put :: "'v \<Rightarrow> bytes" and get :: "bytes \<Rightarrow> 'v" and width :: nat
  assumes length_put: "length (put v) = width"
    and get_put_append: "get (put v @ rest) = v"
begin

lemma get_put: "get (put v) = v"
  using get_put_append[of v "[]"] by simp

lemma get_drop_prefix: "length pre = n \<Longrightarrow> get (drop n (pre @ put v @ rest)) = v"
  by (simp add: get_put_append)

lemma drop_put: "drop width (put v @ rest) = rest"
  using length_put[of v] by simp

lemma take_put: "take width (put v @ rest) = put v"
  using length_put[of v] by simp

lemma put_inject: "put v = put w \<longleftrightarrow> v = w"
  using get_put by metis

lemma put_append_inject: "put v @ r = put w @ q \<longleftrightarrow> v = w \<and> r = q"
  using get_put_append length_put by (metis append_eq_append_conv)

end

section \<open>An interface: operations on a store with independent keys\<close>

text \<open>
  Running a list of calls \<open>(argument, key)\<close>, and running the calls of one key on that key's
  entry alone.
\<close>

fun run_ops :: "('a \<Rightarrow> 'k \<Rightarrow> 's \<Rightarrow> 'r \<times> 's) \<Rightarrow> ('a \<times> 'k) list \<Rightarrow> 's \<Rightarrow> 'r list" where
  "run_ops f [] s = []"
| "run_ops f ((a, k) # cs) s = fst (f a k s) # run_ops f cs (snd (f a k s))"

fun run_entry :: "('a \<Rightarrow> 'e option \<Rightarrow> 'r \<times> 'e option) \<Rightarrow> 'a list \<Rightarrow> 'e option \<Rightarrow> 'r list" where
  "run_entry g [] e = []"
| "run_entry g (a # as) e = fst (g a e) # run_entry g as (snd (g a e))"

definition results_for :: "'k \<Rightarrow> ('a \<times> 'k) list \<Rightarrow> 'r list \<Rightarrow> 'r list" where
  "results_for k cs rs = map snd (filter (\<lambda>(c, r). snd c = k) (zip cs rs))"

lemma results_for_simps [simp]:
  "results_for k [] rs = []"
  "results_for k (c # cs) (r # rs) = (if snd c = k then r # results_for k cs rs else results_for k cs rs)"
  by (simp_all add: results_for_def)

text \<open>The state after a list of calls, and the entry of one key after the calls for it.\<close>

fun run_state :: "('a \<Rightarrow> 'k \<Rightarrow> 's \<Rightarrow> 'r \<times> 's) \<Rightarrow> ('a \<times> 'k) list \<Rightarrow> 's \<Rightarrow> 's" where
  "run_state f [] s = s"
| "run_state f ((a, k) # cs) s = run_state f cs (snd (f a k s))"

fun entry_after :: "('a \<Rightarrow> 'e option \<Rightarrow> 'r \<times> 'e option) \<Rightarrow> 'a list \<Rightarrow> 'e option \<Rightarrow> 'e option" where
  "entry_after g [] e = e"
| "entry_after g (a # as) e = entry_after g as (snd (g a e))"

text \<open>
  A store whose operation on a key reads and writes the entry of that key only: \<open>view\<close> is the
  entry of a key, \<open>cfg\<close> the fields no operation writes, \<open>step\<close> the effect on the entry.
\<close>

locale keyed_store =
  fixes view :: "'s \<Rightarrow> 'k \<Rightarrow> 'e option"
    and cfg :: "'s \<Rightarrow> 'c"
    and op :: "'a \<Rightarrow> 'k \<Rightarrow> 's \<Rightarrow> 'r \<times> 's"
    and step :: "'c \<Rightarrow> 'a \<Rightarrow> 'e option \<Rightarrow> 'r \<times> 'e option"
  assumes op_result: "fst (op a k s) = fst (step (cfg s) a (view s k))"
    and op_view: "view (snd (op a k s)) k' = (if k' = k then snd (step (cfg s) a (view s k)) else view s k')"
    and op_cfg: "cfg (snd (op a k s)) = cfg s"
begin

lemma key_independent:
  "results_for k cs (run_ops op cs s) =
     run_entry (step (cfg s)) (map fst (filter (\<lambda>c. snd c = k) cs)) (view s k)"
proof (induction cs arbitrary: s)
  case Nil
  then show ?case by simp
next
  case (Cons c cs)
  then show ?case by (cases c) (simp add: op_result op_view op_cfg)
qed

lemma view_after:
  "view (run_state op cs s) k =
     entry_after (step (cfg s)) (map fst (filter (\<lambda>c. snd c = k) cs)) (view s k)"
proof (induction cs arbitrary: s)
  case Nil
  then show ?case by simp
next
  case (Cons c cs)
  then show ?case by (cases c) (simp add: op_result op_view op_cfg)
qed

end

section \<open>An interface: queues with a byte count\<close>

text \<open>
  A queue that counts what it holds and refuses what would pass its room. \<open>put\<close> adds an
  item or leaves the queue alone, \<open>take_all\<close> hands everything over.
\<close>

locale byte_queue =
  fixes items :: "'s \<Rightarrow> 'i list"
    and count :: "'s \<Rightarrow> int"
    and room :: "'s \<Rightarrow> int"
    and weight :: "'i \<Rightarrow> int"
    and put :: "'i \<Rightarrow> 's \<Rightarrow> 's"
    and take_all :: "'s \<Rightarrow> 's"
  assumes weight_nonneg: "0 \<le> weight i"
    and put_fits: "count s + weight i \<le> room s \<Longrightarrow>
      items (put i s) = items s @ [i] \<and> count (put i s) = count s + weight i"
    and put_full: "room s < count s + weight i \<Longrightarrow> items (put i s) = items s \<and> count (put i s) = count s"
    and put_room: "room (put i s) = room s"
    and take_items: "items (take_all s) = []"
    and take_count: "count (take_all s) = count s - sum_list (map weight (items s))"
    and take_room: "room (take_all s) = room s"
begin

definition counted :: "'s \<Rightarrow> bool" where
  "counted s \<longleftrightarrow> count s = sum_list (map weight (items s)) \<and> 0 \<le> room s \<and> count s \<le> room s"

lemma counted_empty: "items s = [] \<Longrightarrow> count s = 0 \<Longrightarrow> 0 \<le> room s \<Longrightarrow> counted s"
  by (simp add: counted_def)

lemma counted_put: "counted s \<Longrightarrow> counted (put i s)"
proof (cases "count s + weight i \<le> room s")
  case True
  then show "counted s \<Longrightarrow> counted (put i s)" using put_fits put_room by (simp add: counted_def)
next
  case False
  then show "counted s \<Longrightarrow> counted (put i s)" using put_full put_room by (simp add: counted_def)
qed

lemma counted_take: "counted s \<Longrightarrow> counted (take_all s) \<and> count (take_all s) = 0"
  by (simp add: counted_def take_items take_count take_room)

lemma counted_bounds: "counted s \<Longrightarrow> 0 \<le> count s \<and> count s \<le> room s"
  unfolding counted_def by (auto intro!: sum_list_nonneg simp: weight_nonneg)

lemma put_all_or_nothing: "items (put i s) = items s @ [i] \<or> items (put i s) = items s"
  by (cases "count s + weight i \<le> room s") (use put_fits put_full in auto)

end

end
