(* ===== verification/Go_Bytes.thy ===== *)
theory Go_Bytes
  imports Wisp_Prelude
begin

unbundle bit_operations_syntax

text \<open>
  The byte-order helpers of \<^verbatim>\<open>encoding/binary\<close> that the server uses, and the same
  shifts written out by hand in \<^verbatim>\<open>sendPacket\<close>, \<^verbatim>\<open>buildClosePacket\<close> and
  \<^verbatim>\<open>sendRawFrame\<close>. Go panics when a slice is too short; every call in the source
  stands behind a length check, so the readers return 0 there.
\<close>

section \<open>Little endian\<close>

definition put_uint16_le :: "u16 \<Rightarrow> bytes" where
  "put_uint16_le v = [ucast v, ucast (drop_bit 8 v)]"

definition put_uint32_le :: "u32 \<Rightarrow> bytes" where
  "put_uint32_le v =
     [ucast v, ucast (drop_bit 8 v), ucast (drop_bit 16 v), ucast (drop_bit 24 v)]"

definition put_uint64_le :: "u64 \<Rightarrow> bytes" where
  "put_uint64_le v =
     [ucast v, ucast (drop_bit 8 v), ucast (drop_bit 16 v), ucast (drop_bit 24 v),
      ucast (drop_bit 32 v), ucast (drop_bit 40 v), ucast (drop_bit 48 v), ucast (drop_bit 56 v)]"

fun uint16_le :: "bytes \<Rightarrow> u16" where
  "uint16_le (a # b # _) = ucast a OR push_bit 8 (ucast b)"
| "uint16_le _ = 0"

fun uint32_le :: "bytes \<Rightarrow> u32" where
  "uint32_le (a # b # c # d # _) =
     ucast a OR push_bit 8 (ucast b) OR push_bit 16 (ucast c) OR push_bit 24 (ucast d)"
| "uint32_le _ = 0"

fun uint64_le :: "bytes \<Rightarrow> u64" where
  "uint64_le (a # b # c # d # e # f # g # h # _) =
     ucast a OR push_bit 8 (ucast b) OR push_bit 16 (ucast c) OR push_bit 24 (ucast d) OR
     push_bit 32 (ucast e) OR push_bit 40 (ucast f) OR push_bit 48 (ucast g) OR push_bit 56 (ucast h)"
| "uint64_le _ = 0"

section \<open>Big endian\<close>

definition put_uint16_be :: "u16 \<Rightarrow> bytes" where
  "put_uint16_be v = [ucast (drop_bit 8 v), ucast v]"

definition put_uint64_be :: "u64 \<Rightarrow> bytes" where
  "put_uint64_be v = rev (put_uint64_le v)"

fun uint16_be :: "bytes \<Rightarrow> u16" where
  "uint16_be (a # b # _) = ucast b OR push_bit 8 (ucast a)"
| "uint16_be _ = 0"

definition uint64_be :: "bytes \<Rightarrow> u64" where
  "uint64_be bs = uint64_le (rev (take 8 bs))"

section \<open>Each reader inverts its writer\<close>

text \<open>
  Bit positions of a word, by byte: position \<open>8 * i + k\<close> is bit \<open>k\<close> of byte \<open>i\<close>.
\<close>

lemma bit_eq_by_bytes:
  fixes v w :: "'a::len word"
  assumes "\<And>k. k < 8 \<Longrightarrow>
      list_all (\<lambda>i. bit v (8 * i + k) = bit w (8 * i + k)) [0, 1, 2, 3, 4, 5, 6, 7]"
    and "LENGTH('a) \<le> 64"
  shows "v = w"
proof (rule bit_word_eqI)
  fix m assume "m < LENGTH('a)"
  then have "m div 8 < 8" using assms(2) by linarith
  then have "m div 8 \<in> set [0, 1, 2, 3, 4, 5, 6, 7]" by simp linarith
  moreover have "m mod 8 < 8" by simp
  ultimately have "bit v (8 * (m div 8) + m mod 8) = bit w (8 * (m div 8) + m mod 8)"
    using assms(1) unfolding list_all_iff by blast
  then show "bit v m = bit w m" by simp
qed

lemma high_bits_false [simp]: "LENGTH('a::len) \<le> n \<Longrightarrow> \<not> bit (w :: 'a word) n"
  using bit_imp_le_length[of w n] by auto

interpretation le16: fixed_codec put_uint16_le uint16_le 2
proof
  fix v rest
  show "length (put_uint16_le v) = 2" by (simp add: put_uint16_le_def)
  show "uint16_le (put_uint16_le v @ rest) = v"
    by (rule bit_eq_by_bytes) (simp_all add: put_uint16_le_def bit_simps)
qed

interpretation le32: fixed_codec put_uint32_le uint32_le 4
proof
  fix v rest
  show "length (put_uint32_le v) = 4" by (simp add: put_uint32_le_def)
  show "uint32_le (put_uint32_le v @ rest) = v"
    by (rule bit_eq_by_bytes) (simp_all add: put_uint32_le_def bit_simps)
qed

lemma uint64_le_put [codec_simps]: "uint64_le (put_uint64_le v @ rest) = v"
  by (rule bit_eq_by_bytes) (simp_all add: put_uint64_le_def bit_simps)

interpretation le64: fixed_codec put_uint64_le uint64_le 8
  by unfold_locales (simp_all add: uint64_le_put, simp add: put_uint64_le_def)

interpretation be16: fixed_codec put_uint16_be uint16_be 2
proof
  fix v rest
  show "length (put_uint16_be v) = 2" by (simp add: put_uint16_be_def)
  show "uint16_be (put_uint16_be v @ rest) = v"
    by (rule bit_eq_by_bytes) (simp_all add: put_uint16_be_def bit_simps)
qed

interpretation be64: fixed_codec put_uint64_be uint64_be 8
  using le64.length_put le64.get_put
  by unfold_locales (simp_all add: put_uint64_be_def uint64_be_def)

lemmas length_put_simps [simp] =
  le16.length_put le32.length_put le64.length_put be16.length_put be64.length_put

lemmas get_put_simps [codec_simps] =
  le16.get_put_append le32.get_put_append le64.get_put_append be16.get_put_append
  be64.get_put_append le16.get_put le32.get_put le64.get_put be16.get_put be64.get_put

text \<open>The readers also determine the bytes they read: nothing of the input is lost.\<close>

lemma put_uint32_le_uint32_le: "put_uint32_le (uint32_le [a, b, c, d]) = [a, b, c, d]"
  by (simp add: put_uint32_le_def) (intro conjI; rule bit_word_eqI; simp add: bit_simps)

lemma put_uint64_le_uint64_le:
  "put_uint64_le (uint64_le [a, b, c, d, e, f, g, h]) = [a, b, c, d, e, f, g, h]"
  by (simp add: put_uint64_le_def) (intro conjI; rule bit_word_eqI; simp add: bit_simps)

end
