(* ===== verification/Constants.thy ===== *)
theory Constants
  imports Go_Bytes
begin

text \<open>
  The protocol constants of \<^verbatim>\<open>wisp/constants.go\<close>, under their names in the source.
\<close>

definition defaultPendingQueueBytes :: int where "defaultPendingQueueBytes = 64 * 1024 * 1024"

section \<open>Packet and stream types\<close>

definition packetTypeConnect :: byte where "packetTypeConnect = 0x01"
definition packetTypeData :: byte where "packetTypeData = 0x02"
definition packetTypeContinue :: byte where "packetTypeContinue = 0x03"
definition packetTypeClose :: byte where "packetTypeClose = 0x04"
definition packetTypeInfo :: byte where "packetTypeInfo = 0x05"

definition streamTypeTCP :: byte where "streamTypeTCP = 0x01"
definition streamTypeUDP :: byte where "streamTypeUDP = 0x02"
definition streamTypeTerm :: byte where "streamTypeTerm = 0x03"

definition twispExtensionID :: byte where "twispExtensionID = 0xF0"

section \<open>Wisp v2\<close>

definition wispMajorVersion :: byte where "wispMajorVersion = 2"
definition wispMinorVersion :: byte where "wispMinorVersion = 1"
definition extensionUDP :: byte where "extensionUDP = 0x01"
definition extensionPasswordAuth :: byte where "extensionPasswordAuth = 0x02"
definition extensionCertificateAuth :: byte where "extensionCertificateAuth = 0x03"
definition extensionMotd :: byte where "extensionMotd = 0x04"
definition extensionStreamConfirm :: byte where "extensionStreamConfirm = 0x05"

section \<open>Close reasons\<close>

definition closeReasonUnspecified :: byte where "closeReasonUnspecified = 0x01"
definition closeReasonVoluntary :: byte where "closeReasonVoluntary = 0x02"
definition closeReasonNetworkError :: byte where "closeReasonNetworkError = 0x03"
definition closeReasonIncompatible :: byte where "closeReasonIncompatible = 0x04"
definition closeReasonInvalidInfo :: byte where "closeReasonInvalidInfo = 0x41"
definition closeReasonUnreachable :: byte where "closeReasonUnreachable = 0x42"
definition closeReasonTimeout :: byte where "closeReasonTimeout = 0x43"
definition closeReasonConnectionRefused :: byte where "closeReasonConnectionRefused = 0x44"
definition closeReasonTCPTimeout :: byte where "closeReasonTCPTimeout = 0x47"
definition closeReasonBlocked :: byte where "closeReasonBlocked = 0x48"
definition closeReasonThrottled :: byte where "closeReasonThrottled = 0x49"
definition closeReasonClientError :: byte where "closeReasonClientError = 0x81"
definition closeReasonAuthBadPassword :: byte where "closeReasonAuthBadPassword = 0xc0"
definition closeReasonAuthBadSignature :: byte where "closeReasonAuthBadSignature = 0xc1"
definition closeReasonAuthRequired :: byte where "closeReasonAuthRequired = 0xc2"

lemmas packetType_defs =
  packetTypeConnect_def packetTypeData_def packetTypeContinue_def packetTypeClose_def
  packetTypeInfo_def twispExtensionID_def

lemmas streamType_defs = streamTypeTCP_def streamTypeUDP_def streamTypeTerm_def

lemmas extension_defs =
  extensionUDP_def extensionPasswordAuth_def extensionCertificateAuth_def extensionMotd_def
  extensionStreamConfirm_def wispMajorVersion_def wispMinorVersion_def

lemmas closeReason_defs =
  closeReasonUnspecified_def closeReasonVoluntary_def closeReasonNetworkError_def
  closeReasonIncompatible_def closeReasonInvalidInfo_def closeReasonUnreachable_def
  closeReasonTimeout_def closeReasonConnectionRefused_def closeReasonTCPTimeout_def
  closeReasonBlocked_def closeReasonThrottled_def closeReasonClientError_def
  closeReasonAuthBadPassword_def closeReasonAuthBadSignature_def closeReasonAuthRequired_def

end
