(* ===== verification/Frames.thy ===== *)
theory Frames
  imports Constants
begin

unbundle bit_operations_syntax

text \<open>
  The WebSocket frames the server writes: \<^verbatim>\<open>sendRawFrame\<close> (\<^verbatim>\<open>wisp/v2.go\<close>), the
  fixed-size packets of \<^verbatim>\<open>wisp/wisp-connection.go\<close>, and the framing that
  \<^verbatim>\<open>readFromConnection\<close> (\<^verbatim>\<open>wisp/wisp-stream.go\<close>) and \<^verbatim>\<open>readPty\<close>
  (\<^verbatim>\<open>wisp/twisp.go\<close>) write in place in front of data already in a pooled buffer.
\<close>

section \<open>Frames built from a packet\<close>

text \<open>\<^verbatim>\<open>byte(n >> k)\<close> for a Go \<^verbatim>\<open>int\<close> that is not negative.\<close>

definition byte_shr :: "nat \<Rightarrow> nat \<Rightarrow> byte" where
  "byte_shr n k = of_nat (n div 2 ^ k)"

text \<open>The frame \<^verbatim>\<open>sendRawFrame\<close> hands to \<^verbatim>\<open>queueWrite\<close>.\<close>

definition sendRawFrame_frame :: "bytes \<Rightarrow> bytes" where
  "sendRawFrame_frame packet =
     (let totalLen = length packet in
      if totalLen \<le> 125 then [0x82, byte_shr totalLen 0] @ packet
      else if totalLen \<le> 65535 then
        [0x82, 126, byte_shr totalLen 8, byte_shr totalLen 0] @ packet
      else [0x82, 127] @ put_uint64_be (of_nat totalLen) @ packet)"

text \<open>\<^verbatim>\<open>byte(id), byte(id >> 8), byte(id >> 16), byte(id >> 24)\<close>\<close>

definition streamId_bytes :: "u32 \<Rightarrow> bytes" where
  "streamId_bytes streamId =
     [ucast streamId, ucast (drop_bit 8 streamId), ucast (drop_bit 16 streamId),
      ucast (drop_bit 24 streamId)]"

lemma streamId_bytes_put: "streamId_bytes = put_uint32_le"
  by (rule ext) (simp add: streamId_bytes_def put_uint32_le_def)

definition buildClosePacket :: "u32 \<Rightarrow> byte \<Rightarrow> bytes" where
  "buildClosePacket streamId reason = [0x82, 6, packetTypeClose] @ streamId_bytes streamId @ [reason]"

text \<open>The CONTINUE packet of \<^verbatim>\<open>sendPacket\<close>.\<close>

definition sendPacket_frame :: "u32 \<Rightarrow> u32 \<Rightarrow> bytes" where
  "sendPacket_frame streamId bufferRemaining =
     [0x82, 9, packetTypeContinue] @ streamId_bytes streamId @ put_uint32_le bufferRemaining"

definition writeRawPong_frame :: "bytes \<Rightarrow> bytes" where
  "writeRawPong_frame payload = [0x8A, byte_shr (length payload) 0] @ payload"

text \<open>The CLOSE control frame of \<^verbatim>\<open>sendWSClose\<close> (\<^verbatim>\<open>wisp/wsreader.go\<close>).\<close>

definition sendWSClose_frame :: "u16 \<Rightarrow> bytes" where
  "sendWSClose_frame code = [0x88, 2] @ put_uint16_be code"

section \<open>Frames written in place\<close>

text \<open>
  \<^verbatim>\<open>readFromConnection\<close> reads \<open>n\<close> bytes behind \<open>maxHeaderLen\<close> bytes of room, then
  stores the headers so that they end where the data begins, and sends the slice
  \<^verbatim>\<open>buf[frameStart : maxHeaderLen+n]\<close>.
\<close>

definition maxHeaderLen :: nat where "maxHeaderLen = 15"

definition frame_in_place :: "bytes \<Rightarrow> u32 \<Rightarrow> nat \<Rightarrow> bytes" where
  "frame_in_place buf0 streamId n =
     (let totalPayload = 5 + n;
          (frameStart, buf1) =
            (if totalPayload \<le> 125 then
               (let frameStart = maxHeaderLen - 7 in
                (frameStart, buf0[frameStart := 0x82, frameStart + 1 := byte_shr totalPayload 0]))
             else if totalPayload \<le> 65535 then
               (let frameStart = maxHeaderLen - 9 in
                (frameStart, buf0[frameStart := 0x82, frameStart + 1 := 126,
                   frameStart + 2 := byte_shr totalPayload 8,
                   frameStart + 3 := byte_shr totalPayload 0]))
             else
               (0, buf0[0 := 0x82, 1 := 127,
                   2 := byte_shr totalPayload 56, 3 := byte_shr totalPayload 48,
                   4 := byte_shr totalPayload 40, 5 := byte_shr totalPayload 32,
                   6 := byte_shr totalPayload 24, 7 := byte_shr totalPayload 16,
                   8 := byte_shr totalPayload 8, 9 := byte_shr totalPayload 0]));
          wispStart = maxHeaderLen - 5;
          buf2 = buf1[wispStart := packetTypeData,
                   wispStart + 1 := ucast streamId, wispStart + 2 := ucast (drop_bit 8 streamId),
                   wispStart + 3 := ucast (drop_bit 16 streamId),
                   wispStart + 4 := ucast (drop_bit 24 streamId)]
      in drop frameStart (take (maxHeaderLen + n) buf2))"

text \<open>The buffer after \<^verbatim>\<open>conn.Read(buf[maxHeaderLen:])\<close> returned the bytes \<open>d\<close>.\<close>

definition read_behind_header :: "bytes \<Rightarrow> bytes \<Rightarrow> bytes" where
  "read_behind_header buf d =
     take maxHeaderLen buf @ d @ drop (maxHeaderLen + length d) buf"

section \<open>What a client finds in a frame\<close>

text \<open>
  The length field of an unmasked binary frame as RFC 6455 defines it, used to state that the
  frames above carry their packets: \<open>Some (header length, payload length)\<close>.
\<close>

definition frame_layout :: "bytes \<Rightarrow> (nat \<times> nat) option" where
  "frame_layout f =
     (case f of
        b0 # b1 # rest \<Rightarrow>
          if b0 \<noteq> 0x82 then None
          else if b1 \<le> 125 then Some (2, unat b1)
          else if b1 = 126 then Some (4, unat (uint16_be rest))
          else if b1 = 127 then Some (10, unat (uint64_be rest))
          else None
      | _ \<Rightarrow> None)"

section \<open>Lemmas\<close>

lemma byte_shr_0: "byte_shr n 0 = of_nat n"
  by (simp add: byte_shr_def)

lemma ucast_drop_bit_of_nat:
  "n < 2 ^ 64 \<Longrightarrow> (ucast (drop_bit k (of_nat n :: u64)) :: byte) = byte_shr n k"
proof (rule unsigned_word_eqI [where ?'a = nat])
  assume "n < 2 ^ 64"
  then have n: "unat (of_nat n :: u64) = n" by (simp add: unat_of_nat)
  have "unat (drop_bit k (of_nat n :: u64)) = n div 2 ^ k"
    unfolding unat_drop_bit_eq n by (rule drop_bit_eq_div)
  then show "unat (ucast (drop_bit k (of_nat n :: u64)) :: byte) = unat (byte_shr n k)"
    by (simp add: byte_shr_def unat_of_nat unsigned_ucast_eq take_bit_eq_mod)
qed

lemma put_uint64_be_of_nat:
  "n < 2 ^ 64 \<Longrightarrow> put_uint64_be (of_nat n) =
     [byte_shr n 56, byte_shr n 48, byte_shr n 40, byte_shr n 32,
      byte_shr n 24, byte_shr n 16, byte_shr n 8, byte_shr n 0]"
  using ucast_drop_bit_of_nat[of n 0]
  by (simp add: put_uint64_be_def put_uint64_le_def ucast_drop_bit_of_nat)

lemma put_uint16_be_of_nat:
  assumes "n < 65536" shows "put_uint16_be (of_nat n) = [byte_shr n 8, byte_shr n 0]"
proof -
  have n: "unat (of_nat n :: u16) = n" using assms by (simp add: unat_of_nat)
  have "ucast (drop_bit k (of_nat n :: u16)) = byte_shr n k" for k
  proof (rule unsigned_word_eqI [where ?'a = nat])
    have "unat (drop_bit k (of_nat n :: u16)) = n div 2 ^ k"
      unfolding unat_drop_bit_eq n by (rule drop_bit_eq_div)
    then show "unat (ucast (drop_bit k (of_nat n :: u16)) :: byte) = unat (byte_shr n k)"
      by (simp add: byte_shr_def unat_of_nat unsigned_ucast_eq take_bit_eq_mod)
  qed
  from this[of 8] this[of 0] show ?thesis by (simp add: put_uint16_be_def)
qed

text \<open>
  Replacing the last bytes of a 15-byte prefix, then cutting the buffer from there: the header
  bytes followed by the data.
\<close>

lemma prefix15_cases:
  assumes "length (p :: bytes) = 15"
  obtains a0 a1 a2 a3 a4 a5 a6 a7 a8 a9 a10 a11 a12 a13 a14
  where "p = [a0, a1, a2, a3, a4, a5, a6, a7, a8, a9, a10, a11, a12, a13, a14]"
  using assms by (auto simp: length_Suc_conv eval_nat_numeral)

lemma frame_in_place_eq:
  assumes "length p = maxHeaderLen" and "length d < 2 ^ 64 - 5"
  shows "frame_in_place (p @ d @ q) streamId (length d) =
         sendRawFrame_frame (packetTypeData # streamId_bytes streamId @ d)"
proof -
  from assms(1) have "length p = 15" by (simp add: maxHeaderLen_def)
  then obtain a0 a1 a2 a3 a4 a5 a6 a7 a8 a9 a10 a11 a12 a13 a14
    where p: "p = [a0, a1, a2, a3, a4, a5, a6, a7, a8, a9, a10, a11, a12, a13, a14]"
    by (rule prefix15_cases)
  have "length d + 5 < 2 ^ 64" using assms(2) by simp
  then have be: "put_uint64_be (of_nat (5 + length d)) =
     [byte_shr (5 + length d) 56, byte_shr (5 + length d) 48, byte_shr (5 + length d) 40,
      byte_shr (5 + length d) 32, byte_shr (5 + length d) 24, byte_shr (5 + length d) 16,
      byte_shr (5 + length d) 8, byte_shr (5 + length d) 0]"
    by (intro put_uint64_be_of_nat) simp
  have len: "Suc (Suc (Suc (Suc (Suc (length d))))) = 5 + length d" by simp
  show ?thesis
    unfolding frame_in_place_def sendRawFrame_frame_def Let_def p streamId_bytes_def maxHeaderLen_def
    using be by (auto simp: len)
qed

text \<open>The packets assembled by hand are the generic frame around their packet.\<close>

lemma buildClosePacket_eq:
  "buildClosePacket streamId reason =
     sendRawFrame_frame (packetTypeClose # put_uint32_le streamId @ [reason])"
  by (simp add: buildClosePacket_def sendRawFrame_frame_def Let_def byte_shr_def streamId_bytes_put)

lemma sendPacket_frame_eq:
  "sendPacket_frame streamId n =
     sendRawFrame_frame (packetTypeContinue # put_uint32_le streamId @ put_uint32_le n)"
  by (simp add: sendPacket_frame_def sendRawFrame_frame_def Let_def byte_shr_def streamId_bytes_put)

lemma frame_layout_sendRawFrame:
  assumes "length packet < 2 ^ 64"
  obtains h where "frame_layout (sendRawFrame_frame packet) = Some (h, length packet)"
    "drop h (sendRawFrame_frame packet) = packet"
    "length (sendRawFrame_frame packet) = h + length packet"
proof (cases "length packet \<le> 125")
  case True
  then have "unat (of_nat (length packet) :: byte) = length packet"
    by (simp add: unat_of_nat)
  then show thesis using True
    by (intro that[of 2]) (simp_all add: frame_layout_def sendRawFrame_frame_def Let_def
        byte_shr_0 word_le_nat_alt)
next
  case big: False
  show thesis
  proof (cases "length packet \<le> 65535")
    case True
    then have "unat (of_nat (length packet) :: u16) = length packet"
      by (simp add: unat_of_nat)
    moreover have "uint16_be ([byte_shr (length packet) 8, byte_shr (length packet) 0] @ packet)
        = of_nat (length packet)"
      using be16.get_put_append[of "of_nat (length packet)" packet]
        put_uint16_be_of_nat[of "length packet"] True by (simp only: less_Suc_eq_le)
    ultimately show thesis using True big
      by (intro that[of 4]) (simp_all add: frame_layout_def sendRawFrame_frame_def Let_def)
  next
    case False
    have "unat (of_nat (length packet) :: u64) = length packet"
      using assms by (simp add: unat_of_nat)
    then show thesis using False be64.drop_put
      by (intro that[of 10])
        (simp_all add: frame_layout_def sendRawFrame_frame_def Let_def codec_simps)
  qed
qed

end
