(* ===== verification/Go_Strings.thy ===== *)
theory Go_Strings
  imports Wisp_Prelude
begin

text \<open>
  The parts of Go's \<^verbatim>\<open>strings\<close>, \<^verbatim>\<open>strconv\<close> and \<^verbatim>\<open>unicode/utf8\<close> that the
  server uses. A string is its bytes; the functions that look at code points decode UTF-8 as
  \<^verbatim>\<open>utf8.DecodeRune\<close> does. The Unicode case table is data of the Go distribution: it is the
  parameter \<open>ulower\<close> of \<open>to_lower\<close>, and is consulted beyond ASCII only.
\<close>

section \<open>Code points\<close>

abbreviation byte_at :: "char \<Rightarrow> nat" where "byte_at c \<equiv> of_char c"

definition runeError :: nat where "runeError = 0xFFFD"

definition cont_byte :: "nat \<Rightarrow> bool" where "cont_byte b \<longleftrightarrow> 0x80 \<le> b \<and> b \<le> 0xBF"

text \<open>The second byte a leading byte admits (\<^verbatim>\<open>acceptRanges\<close>).\<close>

definition second_ok :: "nat \<Rightarrow> nat \<Rightarrow> bool" where
  "second_ok p0 b \<longleftrightarrow>
     (if p0 = 0xE0 then 0xA0 \<le> b \<and> b \<le> 0xBF
      else if p0 = 0xED then 0x80 \<le> b \<and> b \<le> 0x9F
      else if p0 = 0xF0 then 0x90 \<le> b \<and> b \<le> 0xBF
      else if p0 = 0xF4 then 0x80 \<le> b \<and> b \<le> 0x8F
      else cont_byte b)"

text \<open>\<^verbatim>\<open>utf8.DecodeRuneInString\<close>: the code point and its width.\<close>

fun decode_rune :: "string \<Rightarrow> nat \<times> nat" where
  "decode_rune [] = (runeError, 0)"
| "decode_rune (c0 # cs) =
     (let p0 = byte_at c0 in
      if p0 < 0x80 then (p0, 1)
      else if p0 < 0xC2 \<or> 0xF4 < p0 then (runeError, 1)
      else (case cs of
              [] \<Rightarrow> (runeError, 1)
            | c1 # cs1 \<Rightarrow>
                if \<not> second_ok p0 (byte_at c1) then (runeError, 1)
                else if p0 < 0xE0 then ((p0 - 0xC0) * 64 + (byte_at c1 - 0x80), 2)
                else (case cs1 of
                        [] \<Rightarrow> (runeError, 1)
                      | c2 # cs2 \<Rightarrow>
                          if \<not> cont_byte (byte_at c2) then (runeError, 1)
                          else if p0 < 0xF0 then
                            ((p0 - 0xE0) * 4096 + (byte_at c1 - 0x80) * 64 + (byte_at c2 - 0x80), 3)
                          else (case cs2 of
                                  [] \<Rightarrow> (runeError, 1)
                                | c3 # cs3 \<Rightarrow>
                                    if \<not> cont_byte (byte_at c3) then (runeError, 1)
                                    else ((p0 - 0xF0) * 262144 + (byte_at c1 - 0x80) * 4096 +
                                          (byte_at c2 - 0x80) * 64 + (byte_at c3 - 0x80), 4)))))"

lemma decode_rune_width: "s \<noteq> [] \<Longrightarrow> 0 < snd (decode_rune s)"
  by (cases s) (auto simp: Let_def split: list.splits)

text \<open>The code points of a string, each with its bytes.\<close>

function runes :: "string \<Rightarrow> (nat \<times> string) list" where
  "runes s =
     (if s = [] then []
      else (fst (decode_rune s), take (snd (decode_rune s)) s) # runes (drop (snd (decode_rune s)) s))"
  by pat_completeness auto
termination
  by (relation "measure length") (simp_all add: decode_rune_width diff_less)

declare runes.simps [simp del]

lemma concat_runes: "concat (map snd (runes s)) = s"
proof (induction s rule: runes.induct)
  case (1 s)
  then show ?case by (subst runes.simps) auto
qed

definition encode_rune :: "nat \<Rightarrow> string" where
  "encode_rune r =
     (if r < 0x80 then [char_of r]
      else if r < 0x800 then [char_of (0xC0 + r div 64), char_of (0x80 + r mod 64)]
      else if r < 0x10000 then
        [char_of (0xE0 + r div 4096), char_of (0x80 + r div 64 mod 64), char_of (0x80 + r mod 64)]
      else
        [char_of (0xF0 + r div 262144), char_of (0x80 + r div 4096 mod 64),
         char_of (0x80 + r div 64 mod 64), char_of (0x80 + r mod 64)])"

text \<open>\<^verbatim>\<open>utf8.ValidString\<close>\<close>

definition valid_string :: "string \<Rightarrow> bool" where
  "valid_string s = list_all (\<lambda>(r, bs). \<not> (r = runeError \<and> length bs = 1)) (runes s)"

section \<open>Case and white space\<close>

definition is_ascii :: "string \<Rightarrow> bool" where
  "is_ascii s = list_all (\<lambda>c. byte_at c < 0x80) s"

definition ascii_lower :: "char \<Rightarrow> char" where
  "ascii_lower c = (if 65 \<le> byte_at c \<and> byte_at c \<le> 90 then char_of (byte_at c + 32) else c)"

text \<open>\<^verbatim>\<open>strings.ToLower\<close>\<close>

definition to_lower :: "(nat \<Rightarrow> nat) \<Rightarrow> string \<Rightarrow> string" where
  "to_lower ulower s =
     (if is_ascii s then map ascii_lower s
      else concat (map (\<lambda>(r, _). encode_rune
             (if r < 0x80 then of_char (ascii_lower (char_of r)) else ulower r)) (runes s)))"

text \<open>\<^verbatim>\<open>unicode.IsSpace\<close>\<close>

definition is_space :: "nat \<Rightarrow> bool" where
  "is_space r \<longleftrightarrow> r \<in> {9, 10, 11, 12, 13, 32, 0x85, 0xA0, 0x1680, 0x2028, 0x2029, 0x202F, 0x205F, 0x3000}
     \<or> (0x2000 \<le> r \<and> r \<le> 0x200A)"

text \<open>\<^verbatim>\<open>strings.TrimSpace\<close>\<close>

definition trim_space :: "string \<Rightarrow> string" where
  "trim_space s =
     concat (map snd (rev (dropWhile (\<lambda>(r, _). is_space r)
       (rev (dropWhile (\<lambda>(r, _). is_space r) (runes s))))))"

section \<open>Prefixes, suffixes, substrings\<close>

text \<open>
  \<^verbatim>\<open>strings.EqualFold\<close> against a lower-case ASCII text: two code points beyond ASCII fold
  into it, the long s and the Kelvin sign.
\<close>

definition fold_rune :: "nat \<Rightarrow> nat" where
  "fold_rune r = (if 65 \<le> r \<and> r \<le> 90 then r + 32 else if r = 0x17F then 115 else if r = 0x212A then 107 else r)"

definition equal_fold_ascii :: "string \<Rightarrow> string \<Rightarrow> bool" where
  "equal_fold_ascii s t = (map (\<lambda>(r, _). fold_rune r) (runes s) = map byte_at t)"

fun has_prefix :: "string \<Rightarrow> string \<Rightarrow> bool" where
  "has_prefix s [] = True"
| "has_prefix [] (p # ps) = False"
| "has_prefix (c # cs) (p # ps) = (c = p \<and> has_prefix cs ps)"

definition has_suffix :: "string \<Rightarrow> string \<Rightarrow> bool" where
  "has_suffix s suffix = has_prefix (rev s) (rev suffix)"

definition trim_suffix :: "string \<Rightarrow> string \<Rightarrow> string" where
  "trim_suffix s suffix = (if has_suffix s suffix then take (length s - length suffix) s else s)"

fun contains_sub :: "string \<Rightarrow> string \<Rightarrow> bool" where
  "contains_sub [] p = (p = [])"
| "contains_sub (c # cs) p = (has_prefix (c # cs) p \<or> contains_sub cs p)"

text \<open>\<^verbatim>\<open>strings.Split(s, sep)\<close> for a one-byte separator.\<close>

fun split_char :: "char \<Rightarrow> string \<Rightarrow> string list" where
  "split_char sep [] = [[]]"
| "split_char sep (c # cs) =
     (if c = sep then [] # split_char sep cs
      else (case split_char sep cs of [] \<Rightarrow> [[c]] | p # ps \<Rightarrow> (c # p) # ps))"

lemma has_prefix_iff: "has_prefix s p \<longleftrightarrow> (\<exists>t. s = p @ t)"
  by (induction s p rule: has_prefix.induct) auto

lemma has_suffix_iff: "has_suffix s p \<longleftrightarrow> (\<exists>t. s = t @ p)"
  unfolding has_suffix_def has_prefix_iff by (metis rev_append rev_rev_ident)

lemma split_char_nonempty: "split_char sep s \<noteq> []"
  by (cases s) (auto split: list.split)

section \<open>Decimal numbers\<close>

fun dec_digits :: "nat \<Rightarrow> string" where
  "dec_digits n = (if n < 10 then [char_of (48 + n)] else dec_digits (n div 10) @ [char_of (48 + n mod 10)])"

declare dec_digits.simps [simp del]

text \<open>\<^verbatim>\<open>strconv.FormatUint(n, 10)\<close>, and \<^verbatim>\<open>%d\<close> of a Go int.\<close>

definition format_int :: "int \<Rightarrow> string" where
  "format_int i = (if i < 0 then CHR ''-'' # dec_digits (nat (- i)) else dec_digits (nat i))"

fun parse_dec :: "nat \<Rightarrow> string \<Rightarrow> nat" where
  "parse_dec acc [] = acc"
| "parse_dec acc (c # cs) = parse_dec (acc * 10 + (byte_at c - 48)) cs"

lemma parse_dec_append: "parse_dec acc (s @ t) = parse_dec (parse_dec acc s) t"
  by (induction acc s rule: parse_dec.induct) simp_all

lemma dec_digit [simp]: "n < 10 \<Longrightarrow> of_char (char_of (48 + n) :: char) = (48 + n :: nat)"
  by simp

lemma parse_dec_digits: "parse_dec 0 (dec_digits n) = n"
proof (induction n rule: dec_digits.induct)
  case (1 n)
  then show ?case
    by (subst dec_digits.simps) (auto simp: parse_dec_append)
qed

lemma dec_digits_inject: "dec_digits m = dec_digits n \<longleftrightarrow> m = n"
  by (metis parse_dec_digits)

lemma dec_digits_set: "c \<in> set (dec_digits n) \<Longrightarrow> 48 \<le> byte_at c \<and> byte_at c \<le> 57"
proof (induction n rule: dec_digits.induct)
  case (1 n)
  show ?case
  proof (cases "n < 10")
    case True
    then show ?thesis using "1.prems" by (subst (asm) dec_digits.simps) auto
  next
    case False
    have "n mod 10 < 10" by simp
    then show ?thesis using 1 False by (subst (asm) (2) dec_digits.simps) auto
  qed
qed

lemma dec_digits_nonempty: "dec_digits n \<noteq> []"
  by (subst dec_digits.simps) simp

section \<open>ASCII strings\<close>

text \<open>On ASCII strings the code points are the bytes, so everything computes by the byte.\<close>

lemma runes_ascii: "is_ascii s \<Longrightarrow> runes s = map (\<lambda>c. (byte_at c, [c])) s"
proof (induction s)
  case Nil
  then show ?case by (subst runes.simps) simp
next
  case (Cons c s)
  then show ?case by (subst runes.simps) (simp add: is_ascii_def Let_def)
qed

definition ascii_space :: "char \<Rightarrow> bool" where
  "ascii_space c \<longleftrightarrow> byte_at c \<in> {9, 10, 11, 12, 13, 32 :: nat}"

lemma trim_space_ascii:
  assumes "is_ascii s"
  shows "trim_space s = rev (dropWhile ascii_space (rev (dropWhile ascii_space s)))"
proof -
  let ?f = "\<lambda>c::char. (byte_at c :: nat, [c])"
  have sp: "is_space (byte_at c) = ascii_space c" if "byte_at c < (0x80::nat)" for c
    using that by (auto simp: is_space_def ascii_space_def)
  have dw: "dropWhile (\<lambda>(r, _). is_space r) (map ?f t) = map ?f (dropWhile ascii_space t)"
    if "is_ascii t" for t
    using that by (induction t) (auto simp: is_ascii_def sp)
  have sub: "is_ascii (rev (dropWhile ascii_space s))"
    using assms by (auto simp: is_ascii_def list_all_iff dest: set_dropWhileD)
  show ?thesis
    by (simp only: trim_space_def runes_ascii[OF assms] dw[OF assms] rev_map dw[OF sub])
       (simp add: comp_def)
qed

lemma to_lower_ascii: "is_ascii s \<Longrightarrow> to_lower ulower s = map ascii_lower s"
  by (simp add: to_lower_def)

lemma valid_string_ascii: "is_ascii s \<Longrightarrow> valid_string s"
  by (auto simp: valid_string_def runes_ascii list_all_iff is_ascii_def runeError_def)

end
