(* ===== verification/Go_Net.thy ===== *)
theory Go_Net
  imports Go_Strings
begin

unbundle bit_operations_syntax

text \<open>
  The parts of Go's \<^verbatim>\<open>net\<close> and \<^verbatim>\<open>net/netip\<close> that the server uses: addresses and
  their classes, networks, parsing and printing. A \<^verbatim>\<open>net.IP\<close> is a byte slice; the nil
  slice is the empty list.
\<close>

type_synonym ip = bytes

record ip_net =
  net_IP :: ip
  net_Mask :: bytes

section \<open>Classes of addresses\<close>

definition To4 :: "ip \<Rightarrow> ip" where
  "To4 ip =
     (if length ip = 4 then ip
      else if length ip = 16 \<and> list_all (\<lambda>b. b = 0) (take 10 ip) \<and> ip ! 10 = 0xff \<and> ip ! 11 = 0xff
      then drop 12 ip
      else [])"

definition v4InV6Prefix :: bytes where
  "v4InV6Prefix = [0, 0, 0, 0, 0, 0, 0, 0, 0, 0, 0xff, 0xff]"

definition IP_Equal :: "ip \<Rightarrow> ip \<Rightarrow> bool" where
  "IP_Equal ip x =
     (if length ip = length x then ip = x
      else if length ip = 4 \<and> length x = 16 then take 12 x = v4InV6Prefix \<and> ip = drop 12 x
      else if length ip = 16 \<and> length x = 4 then take 12 ip = v4InV6Prefix \<and> drop 12 ip = x
      else False)"

definition IPv4zero :: ip where "IPv4zero = v4InV6Prefix @ [0, 0, 0, 0]"
definition IPv6unspecified :: ip where "IPv6unspecified = replicate 16 0"
definition IPv6loopback :: ip where "IPv6loopback = replicate 15 0 @ [1]"

definition IsUnspecified :: "ip \<Rightarrow> bool" where
  "IsUnspecified ip = (IP_Equal ip IPv4zero \<or> IP_Equal ip IPv6unspecified)"

definition IsLoopback :: "ip \<Rightarrow> bool" where
  "IsLoopback ip =
     (let ip4 = To4 ip in if ip4 \<noteq> [] then ip4 ! 0 = 127 else IP_Equal ip IPv6loopback)"

definition IsPrivate :: "ip \<Rightarrow> bool" where
  "IsPrivate ip =
     (let ip4 = To4 ip in
      if ip4 \<noteq> [] then
        ip4 ! 0 = 10 \<or> (ip4 ! 0 = 172 \<and> ip4 ! 1 AND 0xf0 = 16) \<or> (ip4 ! 0 = 192 \<and> ip4 ! 1 = 168)
      else length ip = 16 \<and> ip ! 0 AND 0xfe = 0xfc)"

definition IsMulticast :: "ip \<Rightarrow> bool" where
  "IsMulticast ip =
     (let ip4 = To4 ip in
      if ip4 \<noteq> [] then ip4 ! 0 AND 0xf0 = 0xe0 else length ip = 16 \<and> ip ! 0 = 0xff)"

definition IsLinkLocalMulticast :: "ip \<Rightarrow> bool" where
  "IsLinkLocalMulticast ip =
     (let ip4 = To4 ip in
      if ip4 \<noteq> [] then ip4 ! 0 = 224 \<and> ip4 ! 1 = 0 \<and> ip4 ! 2 = 0
      else length ip = 16 \<and> ip ! 0 = 0xff \<and> ip ! 1 AND 0x0f = 0x02)"

definition IsLinkLocalUnicast :: "ip \<Rightarrow> bool" where
  "IsLinkLocalUnicast ip =
     (let ip4 = To4 ip in
      if ip4 \<noteq> [] then ip4 ! 0 = 169 \<and> ip4 ! 1 = 254
      else length ip = 16 \<and> ip ! 0 = 0xfe \<and> ip ! 1 AND 0xc0 = 0x80)"

section \<open>Networks\<close>

definition networkNumberAndMask :: "ip_net \<Rightarrow> (ip \<times> bytes)" where
  "networkNumberAndMask n =
     (let ip = (if To4 (net_IP n) \<noteq> [] then To4 (net_IP n) else net_IP n); m = net_Mask n in
      if To4 (net_IP n) = [] \<and> length ip \<noteq> 16 then ([], [])
      else if length m = 4 then (if length ip \<noteq> 4 then ([], []) else (ip, m))
      else if length m = 16 then (if length ip = 4 then (ip, drop 12 m) else (ip, m))
      else ([], []))"

definition IPNet_Contains :: "ip_net \<Rightarrow> ip \<Rightarrow> bool" where
  "IPNet_Contains n ip0 =
     (let (nn, m) = networkNumberAndMask n;
          ip = (if To4 ip0 \<noteq> [] then To4 ip0 else ip0)
      in length ip = length nn \<and>
         list_all (\<lambda>i. nn ! i AND m ! i = ip ! i AND m ! i) [0..<length ip])"

section \<open>Parsing\<close>

text \<open>
  \<^verbatim>\<open>parseIPv4Fields\<close>: \<open>val\<close>, \<open>digLen\<close> and the fields so far are the loop's variables;
  \<open>prev\<close> is the character before (none at the start).
\<close>

definition is_digit :: "char \<Rightarrow> bool" where
  "is_digit c \<longleftrightarrow> 48 \<le> byte_at c \<and> byte_at c \<le> (57::nat)"

fun parseIPv4Fields :: "char option \<Rightarrow> nat \<Rightarrow> nat \<Rightarrow> nat list \<Rightarrow> string \<Rightarrow> nat list option" where
  "parseIPv4Fields prev val digLen flds [] =
     (if length flds < 3 then None else Some (flds @ [val]))"
| "parseIPv4Fields prev val digLen flds (c # cs) =
     (if is_digit c then
        (if digLen = 1 \<and> val = 0 then None
         else (let val' = val * 10 + (byte_at c - 48) in
               if 255 < val' then None
               else parseIPv4Fields (Some c) val' (digLen + 1) flds cs))
      else if c = CHR ''.'' then
        (if prev = None \<or> cs = [] \<or> prev = Some CHR ''.'' then None
         else if length flds = 3 then None
         else parseIPv4Fields (Some c) 0 0 (flds @ [val]) cs)
      else None)"

definition parseIPv4 :: "string \<Rightarrow> ip option" where
  "parseIPv4 s = map_option (map of_nat) (parseIPv4Fields None 0 0 [] s)"

definition hex_digit :: "char \<Rightarrow> nat option" where
  "hex_digit c =
     (let b = byte_at c in
      if 48 \<le> b \<and> b \<le> 57 then Some (b - 48)
      else if 97 \<le> b \<and> b \<le> 102 then Some (b - 97 + 10)
      else if 65 \<le> b \<and> b \<le> 70 then Some (b - 65 + 10)
      else None)"

text \<open>One group of hexadecimal digits: \<open>Some (acc, off, rest)\<close>, or \<open>None\<close> for the error.\<close>

fun parse_hex :: "nat \<Rightarrow> nat \<Rightarrow> string \<Rightarrow> (nat \<times> nat \<times> string) option" where
  "parse_hex acc off [] = Some (acc, off, [])"
| "parse_hex acc off (c # cs) =
     (case hex_digit c of
        None \<Rightarrow> Some (acc, off, c # cs)
      | Some d \<Rightarrow>
          (let acc' = acc * 16 + d in
           if 3 < off then None
           else if 65535 < acc' then None
           else parse_hex acc' (off + 1) cs))"

text \<open>
  The loop of \<^verbatim>\<open>parseIPv6\<close>: the bytes written so far, the position of the ellipsis, and
  what is left of the string. The fuel counts groups: each turn writes at least two of at most
  sixteen bytes.
\<close>

fun parseIPv6_loop :: "nat \<Rightarrow> bytes \<Rightarrow> nat option \<Rightarrow> string \<Rightarrow> (bytes \<times> nat option \<times> string) option" where
  "parseIPv6_loop 0 ip ellipsis s = Some (ip, ellipsis, s)"
| "parseIPv6_loop (Suc fuel) ip ellipsis s =
     (case parse_hex 0 0 s of
        None \<Rightarrow> None
      | Some (acc, off, rest) \<Rightarrow>
          if off = 0 then None
          else if rest \<noteq> [] \<and> hd rest = CHR ''.'' then
            (if ellipsis = None \<and> length ip \<noteq> 12 then None
             else if 16 < length ip + 4 then None
             else (case parseIPv4 s of None \<Rightarrow> None | Some v4 \<Rightarrow> Some (ip @ v4, ellipsis, [])))
          else
            (let ip' = ip @ [of_nat (acc div 256), of_nat acc] in
             (case rest of
                [] \<Rightarrow> Some (ip', ellipsis, [])
              | c # s1 \<Rightarrow>
                  if c \<noteq> CHR '':'' then None
                  else if s1 = [] then None
                  else if hd s1 = CHR '':'' then
                    (if ellipsis \<noteq> None then None
                     else if tl s1 = [] then Some (ip', Some (length ip'), [])
                     else if length ip' < 16 then parseIPv6_loop fuel ip' (Some (length ip')) (tl s1)
                     else Some (ip', Some (length ip'), tl s1))
                  else if length ip' < 16 then parseIPv6_loop fuel ip' ellipsis s1
                  else Some (ip', ellipsis, s1))))"

definition parseIPv6_body :: "string \<Rightarrow> ip option" where
  "parseIPv6_body s0 =
     (let lead = has_prefix s0 ''::''; s = (if lead then drop 2 s0 else s0) in
      if lead \<and> s = [] then Some (replicate 16 0)
      else (case parseIPv6_loop 8 [] (if lead then Some 0 else None) s of
              None \<Rightarrow> None
            | Some (ip, ellipsis, rest) \<Rightarrow>
                if rest \<noteq> [] then None
                else if length ip < 16 then
                  (case ellipsis of
                     None \<Rightarrow> None
                   | Some e \<Rightarrow> Some (take e ip @ replicate (16 - length ip) 0 @ drop e ip))
                else if ellipsis \<noteq> None then None
                else Some ip))"

text \<open>\<^verbatim>\<open>net.ParseIP\<close>: an address with a zone is refused; the result has sixteen bytes.\<close>

definition ParseIP :: "string \<Rightarrow> ip" where
  "ParseIP s =
     (case dropWhile (\<lambda>c. c \<noteq> CHR ''.'' \<and> c \<noteq> CHR '':'' \<and> c \<noteq> CHR ''%'') s of
        [] \<Rightarrow> []
      | c # _ \<Rightarrow>
          if c = CHR ''.'' then
            (case parseIPv4 s of None \<Rightarrow> [] | Some ip \<Rightarrow> v4InV6Prefix @ ip)
          else if c = CHR '':'' then
            (if CHR ''%'' \<in> set s then []
             else (case parseIPv6_body s of None \<Rightarrow> [] | Some ip \<Rightarrow> ip))
          else [])"

section \<open>Networks in prefix notation\<close>

text \<open>\<^verbatim>\<open>netip.ParseAddr\<close> without a zone: the address and its bit length.\<close>

definition addr_bits :: "string \<Rightarrow> nat" where
  "addr_bits s =
     (case dropWhile (\<lambda>c. c \<noteq> CHR ''.'' \<and> c \<noteq> CHR '':'' \<and> c \<noteq> CHR ''%'') s of
        c # _ \<Rightarrow> if c = CHR ''.'' then 32 else 128
      | [] \<Rightarrow> 128)"

text \<open>\<^verbatim>\<open>dtoi\<close> on a whole string; a number at or above \<open>0xFFFFFF\<close> is refused.\<close>

fun dtoi :: "nat \<Rightarrow> string \<Rightarrow> nat option" where
  "dtoi n [] = Some n"
| "dtoi n (c # cs) =
     (if \<not> is_digit c then None
      else (let n' = n * 10 + (byte_at c - 48) in if 0xFFFFFF \<le> n' then None else dtoi n' cs))"

definition mask_byte :: "nat \<Rightarrow> byte" where
  "mask_byte n = (if 8 \<le> n then 0xff else NOT (of_nat (0xff div 2 ^ n)))"

definition CIDRMask :: "nat \<Rightarrow> nat \<Rightarrow> bytes" where
  "CIDRMask ones bits = map (\<lambda>i. mask_byte (ones - 8 * i)) [0..<bits div 8]"

definition IP_Mask :: "ip \<Rightarrow> bytes \<Rightarrow> ip" where
  "IP_Mask ip0 mask0 =
     (let mask = (if length mask0 = 16 \<and> length ip0 = 4 \<and> list_all (\<lambda>b. b = 0xff) (take 12 mask0)
                  then drop 12 mask0 else mask0);
          ip = (if length mask = 4 \<and> length ip0 = 16 \<and> take 12 ip0 = v4InV6Prefix then drop 12 ip0 else ip0)
      in if length ip \<noteq> length mask then [] else map2 (AND) ip mask)"

definition ParseCIDR :: "string \<Rightarrow> (ip \<times> ip_net) option" where
  "ParseCIDR s =
     (let addr = takeWhile (\<lambda>c. c \<noteq> CHR ''/'') s; mask = drop (Suc (length addr)) s in
      if length addr = length s then None
      else if ParseIP addr = [] then None
      else if mask = [] then None
      else (case dtoi 0 mask of
              None \<Rightarrow> None
            | Some n \<Rightarrow>
                if addr_bits addr < n then None
                else (let m = CIDRMask n (addr_bits addr); ip = ParseIP addr
                      in Some (ip, \<lparr>net_IP = IP_Mask ip m, net_Mask = m\<rparr>))))"

section \<open>Printing\<close>

definition dec_byte :: "byte \<Rightarrow> string" where "dec_byte b = dec_digits (unat b)"

fun dotted :: "bytes \<Rightarrow> string" where
  "dotted [] = []"
| "dotted [b] = dec_byte b"
| "dotted (b # bs) = dec_byte b @ ''.'' @ dotted bs"

definition hex_char :: "nat \<Rightarrow> char" where
  "hex_char n = (if n < 10 then char_of (48 + n) else char_of (87 + n))"

fun hex_digits :: "nat \<Rightarrow> string" where
  "hex_digits n = (if n < 16 then [hex_char n] else hex_digits (n div 16) @ [hex_char (n mod 16)])"

declare hex_digits.simps [simp del]

fun groups16 :: "bytes \<Rightarrow> nat list" where
  "groups16 (a # b # bs) = (unat a * 256 + unat b) # groups16 bs"
| "groups16 _ = []"

text \<open>The first longest run of at least two zero groups: its start and end (255, 255 for none).\<close>

definition zero_run :: "nat list \<Rightarrow> nat \<times> nat" where
  "zero_run gs =
     fold (\<lambda>i (zs, ze).
         let l = length (takeWhile (\<lambda>g. g = 0) (drop i gs)) in
         if 2 \<le> l \<and> ze - zs < l then (i, i + l) else (zs, ze))
       [0..<length gs] (255, 255)"

definition print6 :: "nat list \<Rightarrow> string" where
  "print6 gs =
     (let (zs, ze) = zero_run gs;
          grp = (\<lambda>i. if 0 < i then '':'' @ hex_digits (gs ! i) else hex_digits (gs ! i))
      in if zs = 255 then concat (map grp [0..<length gs])
         else concat (map grp [0..<zs]) @ ''::'' @
              (if ze < length gs then hex_digits (gs ! ze) @ concat (map grp [Suc ze..<length gs]) else []))"

definition hex_byte :: "byte \<Rightarrow> string" where
  "hex_byte b = [hex_char (unat b div 16), hex_char (unat b mod 16)]"

definition IP_String :: "ip \<Rightarrow> string" where
  "IP_String ip =
     (if ip = [] then ''<nil>''
      else if length ip \<noteq> 4 \<and> length ip \<noteq> 16 then CHR ''?'' # concat (map hex_byte ip)
      else if To4 ip \<noteq> [] then dotted (To4 ip)
      else print6 (groups16 ip))"

section \<open>Host and port\<close>

definition JoinHostPort :: "string \<Rightarrow> string \<Rightarrow> string" where
  "JoinHostPort host port =
     (if CHR '':'' \<in> set host then ''['' @ host @ '']:'' @ port else host @ '':'' @ port)"

text \<open>Positions of a byte: the first and the last one.\<close>

fun index_byte :: "char \<Rightarrow> string \<Rightarrow> nat option" where
  "index_byte c [] = None"
| "index_byte c (x # xs) = (if x = c then Some 0 else map_option Suc (index_byte c xs))"

definition last_index_byte :: "char \<Rightarrow> string \<Rightarrow> nat option" where
  "last_index_byte c s = map_option (\<lambda>i. length s - 1 - i) (index_byte c (rev s))"

definition SplitHostPort :: "string \<Rightarrow> (string \<times> string) option" where
  "SplitHostPort hostport =
     (case last_index_byte CHR '':'' hostport of
        None \<Rightarrow> None
      | Some i \<Rightarrow>
          (let split =
             (if hostport ! 0 = CHR ''['' then
                (case index_byte CHR '']'' hostport of
                   None \<Rightarrow> None
                 | Some stop \<Rightarrow>
                     if stop + 1 \<noteq> length hostport \<and> stop + 1 = i
                     then Some (take (stop - 1) (drop 1 hostport), 1, stop + 1)
                     else None)
              else if CHR '':'' \<in> set (take i hostport) then None
              else Some (take i hostport, 0, 0))
           in case split of
                None \<Rightarrow> None
              | Some (host, j, k) \<Rightarrow>
                  if CHR ''['' \<in> set (drop j hostport) \<or> CHR '']'' \<in> set (drop k hostport) then None
                  else Some (host, drop (i + 1) hostport)))"

section \<open>Evaluating the parsers on concrete texts\<close>

lemma replicate_numeral_Cons: "replicate (numeral n) x = x # replicate (pred_numeral n) x"
  by (simp add: numeral_eq_Suc)

lemmas parseIPv6_loop_numeral =
  parseIPv6_loop.simps(2)[of "pred_numeral n" for n, folded numeral_eq_Suc]

lemmas ParseIP_eval =
  ParseIP_def parseIPv6_body_def hex_digit_def is_digit_def parseIPv4_def v4InV6Prefix_def Let_def
  parseIPv6_loop_numeral replicate_numeral_Cons

lemmas ParseCIDR_eval =
  ParseCIDR_def addr_bits_def CIDRMask_def mask_byte_def IP_Mask_def ParseIP_eval

lemmas Contains_eval =
  IPNet_Contains_def networkNumberAndMask_def To4_def Let_def

end
