(* ===== verification/Server_Config.thy ===== *)
theory Server_Config
  imports Complex_Main Go_Net
begin

text \<open>
  \<^verbatim>\<open>wisp/config.go\<close>: the configuration with the source's field names (the runtime
  fields that the handler fills in are separate components here), its defaults and its
  validation. Go maps read from the configuration are association lists with one pair for each
  key; a \<^verbatim>\<open>float64\<close> is the exact rational it denotes. \<^verbatim>\<open>Validate\<close> returns
  the error as a value of \<open>config_error\<close>, one constructor for each return.
\<close>

section \<open>The configuration\<close>

record FilterSet =
  Hostnames :: "string list"
  Ports :: "u16 list"

record SynFloodSignatureConfig =
  sfs_Enabled :: bool
  sfs_WindowMs :: int
  sfs_MinSamples :: int
  sfs_FailedHandshakeRatio :: rat

record FloodProtectionConfig =
  fp_Enabled :: bool
  MaxConnectsPerSourceIPPerSecond :: int
  MaxConnectsPerDestPerSecond :: int
  MaxConnectsPerDestPerMinute :: int
  MaxInFlightSyns :: int
  MaxConcurrentStreamsPerConnection :: int
  MaxConcurrentConnections :: int
  SynFloodSignature :: SynFloodSignatureConfig
  WsCloseAfterViolations :: int
  LogBlockedDials :: bool

record Thresholds =
  Warn :: int
  Throttle :: int
  Strict :: int

record ReputationConfig =
  rc_Enabled :: bool
  StorePath :: string
  DecayPerHour :: int
  EvictAfter :: duration
  EvictDays :: int
  Weights :: "(string \<times> int) list"
  DestWeights :: "(string \<times> int) list"
  rc_Thresholds :: Thresholds
  SaveIntervalSeconds :: int

record Config =
  Port :: int
  AllowTCP :: bool
  AllowUDP :: bool
  AllowDirectIP :: bool
  AllowPrivateIPs :: bool
  AllowLoopbackIPs :: bool
  TcpBufferSize :: int
  TcpNoDelay :: bool
  SocketBufferSize :: int
  PendingQueueSize :: int
  Blacklist :: FilterSet
  Whitelist :: FilterSet
  WebsocketPermessageDeflate :: bool
  DnsServers :: "string list"
  DnsMethod :: string
  DnsResultOrder :: string
  EnableTwisp :: bool
  EnableV2 :: bool
  HandshakeTimeoutSeconds :: int
  Motd :: string
  PasswordAuth :: bool
  PasswordAuthRequired :: bool
  PasswordUsers :: "(string \<times> string) list"
  ParseRealIP :: bool
  TrustedProxies :: "string list"
  TrustedHeaders :: "string list"
  NonWSResponse :: string
  trustedProxyNets :: "ip_net list"
  LogLevel :: string
  Proxy :: string
  MaxMessageSize :: int
  StaticDir :: string
  BandwidthLimitKbps :: int
  ConnectionsLimitPerIP :: int
  ConnectionWindowSeconds :: int
  BufferRemainingLength :: u32
  FloodProtection :: "FloodProtectionConfig option"
  Reputation :: "ReputationConfig option"

definition DefaultConfig :: Config where
  "DefaultConfig =
     \<lparr>Port = 6001, AllowTCP = True, AllowUDP = True,
      AllowDirectIP = False, AllowPrivateIPs = False, AllowLoopbackIPs = False,
      TcpBufferSize = 256 * 1024, TcpNoDelay = True, SocketBufferSize = 16 * 1024 * 1024,
      PendingQueueSize = 64 * 1024 * 1024,
      Blacklist = \<lparr>Hostnames = [], Ports = []\<rparr>, Whitelist = \<lparr>Hostnames = [], Ports = []\<rparr>,
      WebsocketPermessageDeflate = False,
      DnsServers = [], DnsMethod = ''resolve'', DnsResultOrder = ''ipv4first'',
      EnableTwisp = False, EnableV2 = True, HandshakeTimeoutSeconds = 10, Motd = '''',
      PasswordAuth = False, PasswordAuthRequired = False, PasswordUsers = [],
      ParseRealIP = True, TrustedProxies = [],
      TrustedHeaders = [''CF-Connecting-IP'', ''X-Forwarded-For''], NonWSResponse = '''',
      trustedProxyNets = [], LogLevel = ''info'', Proxy = '''', MaxMessageSize = 0, StaticDir = '''',
      BandwidthLimitKbps = 0, ConnectionsLimitPerIP = 0, ConnectionWindowSeconds = 0,
      BufferRemainingLength = 32768, FloodProtection = None, Reputation = None\<rparr>"

text \<open>The clone shares nothing with its argument; as a value it is the argument.\<close>

definition CreateWispConfig :: "Config option \<Rightarrow> Config" where
  "CreateWispConfig cfg = (case cfg of None \<Rightarrow> DefaultConfig | Some c \<Rightarrow> c\<lparr>trustedProxyNets := []\<rparr>)"

section \<open>Validation\<close>

text \<open>
  What the proxy check reads of \<^verbatim>\<open>url.Parse\<close>; the parser itself is the parameter
  \<open>url_parse\<close> (\<open>None\<close> when it fails).
\<close>

record parsed_url =
  url_Scheme :: string
  url_Hostname :: string
  url_Path :: string
  url_RawQuery :: string
  url_Fragment :: string

datatype config_error =
    ErrConfigNil | ErrPort | ErrTcpBufferSize | ErrSocketBufferSize | ErrPendingQueueSize
  | ErrPermessageDeflate | ErrProxyURL | ErrProxyParts | ErrProxyScheme | ErrBufferRemaining
  | ErrMaxMessageNegative | ErrMaxMessageSmall | ErrMaxMessageLarge | ErrNegativeLimits
  | ErrBandwidthLarge | ErrConnectionLimitPair | ErrDnsMethod | ErrDnsResultOrder | ErrLogLevel
  | ErrTrustedProxy string | ErrTrustedHeader string | ErrAuthRequiresPasswords
  | ErrAuthRequiresUsers | ErrHandshakeTimeout | ErrFloodNegative string | ErrSignatureRatio
  | ErrSignatureParams

definition validateProxyURL ::
  "(nat \<Rightarrow> nat) \<Rightarrow> (string \<Rightarrow> parsed_url option) \<Rightarrow> string \<Rightarrow> config_error option" where
  "validateProxyURL ulower url_parse raw =
     (if trim_space raw = [] then None
      else (case url_parse raw of
              None \<Rightarrow> Some ErrProxyURL
            | Some u \<Rightarrow>
                if url_Hostname u = [] then Some ErrProxyURL
                else if url_Path u \<noteq> [] \<or> url_RawQuery u \<noteq> [] \<or> url_Fragment u \<noteq> [] then Some ErrProxyParts
                else if to_lower ulower (url_Scheme u) \<in> {''socks5'', ''socks5h'', ''http'', ''https''} then None
                else Some ErrProxyScheme))"

definition validHTTPHeaderName :: "string \<Rightarrow> bool" where
  "validHTTPHeaderName name =
     (name \<noteq> [] \<and>
      list_all (\<lambda>c. (97 \<le> byte_at c \<and> byte_at c \<le> (122::nat)) \<or> (65 \<le> byte_at c \<and> byte_at c \<le> (90::nat)) \<or>
                    (48 \<le> byte_at c \<and> byte_at c \<le> (57::nat)) \<or>
                    c \<in> {CHR ''!'', CHR ''#'', CHR ''$'', CHR ''%'', CHR ''&'', CHR 0x27, CHR ''*'', CHR ''+'',
                         CHR ''-'', CHR ''.'', CHR ''^'', CHR ''_'', CHR 0x60, CHR ''|'', CHR ''~''}) name)"

text \<open>The first entry of \<^verbatim>\<open>trustedProxies\<close> that is neither an address nor a network.\<close>

fun first_bad_proxy :: "string list \<Rightarrow> string option" where
  "first_bad_proxy [] = None"
| "first_bad_proxy (e # es) =
     (if ParseIP (trim_space e) \<noteq> [] then first_bad_proxy es
      else if ParseCIDR (trim_space e) = None then Some (trim_space e)
      else first_bad_proxy es)"

fun first_negative :: "(string \<times> int) list \<Rightarrow> string option" where
  "first_negative [] = None"
| "first_negative ((name, v) # ls) = (if v < 0 then Some name else first_negative ls)"

definition flood_limits :: "FloodProtectionConfig \<Rightarrow> (string \<times> int) list" where
  "flood_limits fp =
     [(''maxConnectsPerSourceIPPerSecond'', MaxConnectsPerSourceIPPerSecond fp),
      (''maxConnectsPerDestPerSecond'', MaxConnectsPerDestPerSecond fp),
      (''maxConnectsPerDestPerMinute'', MaxConnectsPerDestPerMinute fp),
      (''maxInFlightSyns'', MaxInFlightSyns fp),
      (''maxConcurrentStreamsPerConnection'', MaxConcurrentStreamsPerConnection fp),
      (''maxConcurrentConnections'', MaxConcurrentConnections fp),
      (''wsCloseAfterViolations'', WsCloseAfterViolations fp)]"

definition validateFlood :: "FloodProtectionConfig \<Rightarrow> config_error option" where
  "validateFlood fp =
     (case first_negative (flood_limits fp) of
        Some name \<Rightarrow> Some (ErrFloodNegative name)
      | None \<Rightarrow>
          (let s = SynFloodSignature fp in
           if sfs_FailedHandshakeRatio s < 0 \<or> 1 < sfs_FailedHandshakeRatio s then Some ErrSignatureRatio
           else if sfs_Enabled s \<and> (sfs_WindowMs s \<le> 0 \<or> sfs_MinSamples s \<le> 0 \<or> sfs_FailedHandshakeRatio s \<le> 0)
           then Some ErrSignatureParams
           else None))"

definition Validate ::
  "(nat \<Rightarrow> nat) \<Rightarrow> (string \<Rightarrow> parsed_url option) \<Rightarrow> Config option \<Rightarrow> config_error option" where
  "Validate ulower url_parse config =
     (case config of None \<Rightarrow> Some ErrConfigNil | Some cfg \<Rightarrow>
      if Port cfg < 1 \<or> 65535 < Port cfg then Some ErrPort
      else if TcpBufferSize cfg < 1024 \<or> 16 * 1024 * 1024 < TcpBufferSize cfg then Some ErrTcpBufferSize
      else if SocketBufferSize cfg < 64 * 1024 \<or> 256 * 1024 * 1024 < SocketBufferSize cfg
      then Some ErrSocketBufferSize
      else if PendingQueueSize cfg < TcpBufferSize cfg \<or> 1024 * 1024 * 1024 < PendingQueueSize cfg
      then Some ErrPendingQueueSize
      else if WebsocketPermessageDeflate cfg then Some ErrPermessageDeflate
      else (case validateProxyURL ulower url_parse (Proxy cfg) of Some e \<Rightarrow> Some e | None \<Rightarrow>
      if BufferRemainingLength cfg = 0 then Some ErrBufferRemaining
      else if MaxMessageSize cfg < 0 then Some ErrMaxMessageNegative
      else if 0 < MaxMessageSize cfg \<and> MaxMessageSize cfg < 5 then Some ErrMaxMessageSmall
      else if 1024 * 1024 * 1024 < MaxMessageSize cfg then Some ErrMaxMessageLarge
      else if ConnectionsLimitPerIP cfg < 0 \<or> ConnectionWindowSeconds cfg < 0 \<or> BandwidthLimitKbps cfg < 0
      then Some ErrNegativeLimits
      else if 1000000000 < BandwidthLimitKbps cfg then Some ErrBandwidthLarge
      else if (ConnectionsLimitPerIP cfg = 0) \<noteq> (ConnectionWindowSeconds cfg = 0) then Some ErrConnectionLimitPair
      else if to_lower ulower (trim_space (DnsMethod cfg)) \<notin> {''lookup'', ''resolve''} then Some ErrDnsMethod
      else if to_lower ulower (trim_space (DnsResultOrder cfg)) \<notin> {''ipv4first'', ''ipv6first'', ''verbatim''}
      then Some ErrDnsResultOrder
      else if to_lower ulower (trim_space (LogLevel cfg)) \<notin> {''debug'', ''info'', ''warn'', ''error'', ''none''}
      then Some ErrLogLevel
      else (case first_bad_proxy (TrustedProxies cfg) of Some e \<Rightarrow> Some (ErrTrustedProxy e) | None \<Rightarrow>
      (case find (\<lambda>h. \<not> validHTTPHeaderName h) (TrustedHeaders cfg) of Some h \<Rightarrow> Some (ErrTrustedHeader h) | None \<Rightarrow>
      if PasswordAuthRequired cfg \<and> \<not> PasswordAuth cfg then Some ErrAuthRequiresPasswords
      else if PasswordAuthRequired cfg \<and> PasswordUsers cfg = [] then Some ErrAuthRequiresUsers
      else if HandshakeTimeoutSeconds cfg < 1 \<or> 300 < HandshakeTimeoutSeconds cfg then Some ErrHandshakeTimeout
      else (case FloodProtection cfg of None \<Rightarrow> None | Some fp \<Rightarrow> validateFlood fp)))))"

section \<open>Ports of a filter\<close>

text \<open>\<^verbatim>\<open>validPortNumber\<close> on a finite \<^verbatim>\<open>float64\<close>\<close>

definition validPortNumber :: "rat \<Rightarrow> u16 option" where
  "validPortNumber v =
     (if v \<noteq> of_int \<lfloor>v\<rfloor> \<or> v < 1 \<or> 65535 < v then None else Some (of_int \<lfloor>v\<rfloor>))"

end
