(* ===== verification/Write_Queue.thy ===== *)
theory Write_Queue
  imports Frames Server_Config
begin

text \<open>
  The outgoing queue of a connection (\<^verbatim>\<open>wisp/wisp-connection.go\<close>): \<^verbatim>\<open>submitWrite\<close>,
  \<^verbatim>\<open>runWriter\<close> and \<^verbatim>\<open>close\<close>. The record \<open>write_queue\<close> holds the fields of
  \<^verbatim>\<open>wispConnection\<close> that they use; the connection's own record extends it. Channels are
  numbered: a send on the \<^verbatim>\<open>done\<close> channel of a request is an entry of \<open>done_sent\<close>
  (with whether the error was nil). First the operations, cut at their atomic points, then their
  interleavings as a step relation.
\<close>

section \<open>The queue\<close>

record writeReq =
  wr_data :: bytes
  wr_pooled :: bool
  wr_done :: "nat option"

record write_queue =
  config :: Config
  isClosed :: bool
  pendingWrites :: "writeReq list"
  pendingBytes :: int
  writeActive :: bool
  done_sent :: "(nat \<times> bool) list"

definition maxPendingQueueBytes :: "'a write_queue_scheme \<Rightarrow> int" where
  "maxPendingQueueBytes c =
     (if 0 < PendingQueueSize (config c) then PendingQueueSize (config c) else defaultPendingQueueBytes)"

definition req_bytes :: "writeReq list \<Rightarrow> int" where
  "req_bytes rs = (\<Sum>r\<leftarrow>rs. int (length (wr_data r)))"

text \<open>\<^verbatim>\<open>if r.done != nil { r.done <- err }\<close> for the requests of a list.\<close>

definition signal_all :: "bool \<Rightarrow> writeReq list \<Rightarrow> (nat \<times> bool) list" where
  "signal_all success rs = concat (map (\<lambda>r. case wr_done r of None \<Rightarrow> [] | Some d \<Rightarrow> [(d, success)]) rs)"

definition send_done :: "bool \<Rightarrow> writeReq list \<Rightarrow> 'a write_queue_scheme \<Rightarrow> 'a write_queue_scheme" where
  "send_done success rs c = c\<lparr>done_sent := done_sent c @ signal_all success rs\<rparr>"

text \<open>\<^verbatim>\<open>close\<close>: the part behind the compare-and-swap, then the whole.\<close>

definition close_drain :: "'a write_queue_scheme \<Rightarrow> 'a write_queue_scheme" where
  "close_drain c = send_done False (pendingWrites c) (c\<lparr>pendingWrites := [], pendingBytes := 0\<rparr>)"

definition conn_close :: "'a write_queue_scheme \<Rightarrow> 'a write_queue_scheme" where
  "conn_close c = (if isClosed c then c else close_drain (c\<lparr>isClosed := True\<rparr>))"

text \<open>
  The locked part of \<^verbatim>\<open>submitWrite\<close>: refused for lack of room (the caller then closes),
  queued behind a writer, or queued with a writer to start.
\<close>

datatype submit_outcome = SubmitOverflow | SubmitQueued | SubmitStart

definition enqueue :: "writeReq \<Rightarrow> 'a write_queue_scheme \<Rightarrow> submit_outcome \<times> 'a write_queue_scheme" where
  "enqueue req c =
     (if maxPendingQueueBytes c < pendingBytes c + int (length (wr_data req)) then (SubmitOverflow, c)
      else (let c' = c\<lparr>pendingWrites := pendingWrites c @ [req],
                      pendingBytes := pendingBytes c + int (length (wr_data req))\<rparr>
            in if writeActive c' then (SubmitQueued, c') else (SubmitStart, c'\<lparr>writeActive := True\<rparr>)))"

definition submitWrite :: "writeReq \<Rightarrow> 'a write_queue_scheme \<Rightarrow> bool \<times> 'a write_queue_scheme" where
  "submitWrite req c =
     (if isClosed c then (False, send_done False [req] c)
      else (case enqueue req c of
              (SubmitOverflow, c') \<Rightarrow> (False, conn_close (send_done False [req] c'))
            | (SubmitQueued, c') \<Rightarrow> (False, c')
            | (SubmitStart, c') \<Rightarrow> (True, c')))"

text \<open>
  \<^verbatim>\<open>queueWrite\<close> and its variants; whether a writer is started is dropped, since it is
  recorded by \<open>writeActive\<close>.
\<close>

definition queueWrite :: "bytes \<Rightarrow> 'a write_queue_scheme \<Rightarrow> 'a write_queue_scheme" where
  "queueWrite data c = snd (submitWrite \<lparr>wr_data = data, wr_pooled = False, wr_done = None\<rparr> c)"

definition queueWritePooled :: "bytes \<Rightarrow> 'a write_queue_scheme \<Rightarrow> 'a write_queue_scheme" where
  "queueWritePooled data c = snd (submitWrite \<lparr>wr_data = data, wr_pooled = True, wr_done = None\<rparr> c)"

definition submitAndWait :: "nat \<Rightarrow> bytes \<Rightarrow> 'a write_queue_scheme \<Rightarrow> 'a write_queue_scheme" where
  "submitAndWait d data c = snd (submitWrite \<lparr>wr_data = data, wr_pooled = False, wr_done = Some d\<rparr> c)"

text \<open>The locked parts of \<^verbatim>\<open>runWriter\<close>: take the batch, and what follows the write.\<close>

definition take_batch :: "'a write_queue_scheme \<Rightarrow> writeReq list option \<times> 'a write_queue_scheme" where
  "take_batch c =
     (if pendingWrites c = [] then (None, c\<lparr>writeActive := False\<rparr>)
      else (Some (pendingWrites c),
            c\<lparr>pendingWrites := [], pendingBytes := pendingBytes c - req_bytes (pendingWrites c)\<rparr>))"

definition writer_stop :: "'a write_queue_scheme \<Rightarrow> 'a write_queue_scheme" where
  "writer_stop c = c\<lparr>writeActive := False\<rparr>"

section \<open>The frames that the server sends on its own\<close>

definition sendPacket :: "u32 \<Rightarrow> u32 \<Rightarrow> 'a write_queue_scheme \<Rightarrow> 'a write_queue_scheme" where
  "sendPacket streamId n c = (if isClosed c then c else queueWrite (sendPacket_frame streamId n) c)"

definition sendClosePacket :: "u32 \<Rightarrow> byte \<Rightarrow> 'a write_queue_scheme \<Rightarrow> 'a write_queue_scheme" where
  "sendClosePacket streamId reason c = (if isClosed c then c else queueWrite (buildClosePacket streamId reason) c)"

definition sendClosePacketAndWait :: "nat \<Rightarrow> u32 \<Rightarrow> byte \<Rightarrow> 'a write_queue_scheme \<Rightarrow> 'a write_queue_scheme" where
  "sendClosePacketAndWait d streamId reason c =
     (if isClosed c then c else submitAndWait d (buildClosePacket streamId reason) c)"

definition writeRawPong :: "bytes \<Rightarrow> 'a write_queue_scheme \<Rightarrow> 'a write_queue_scheme" where
  "writeRawPong payload c = (if isClosed c then c else queueWrite (writeRawPong_frame payload) c)"

definition sendRawFrame :: "bytes \<Rightarrow> 'a write_queue_scheme \<Rightarrow> 'a write_queue_scheme" where
  "sendRawFrame packet c = queueWrite (sendRawFrame_frame packet) c"

definition sendWSClose :: "nat \<Rightarrow> u16 \<Rightarrow> 'a write_queue_scheme \<Rightarrow> 'a write_queue_scheme" where
  "sendWSClose d code c = submitAndWait d (sendWSClose_frame code) c"

end
