(* ===== verification/Writer.thy ===== *)
theory Writer
  imports Write_Queue "HOL-Library.Sublist"
begin

text \<open>
  The interleavings of the goroutines that share a connection's outgoing queue: submitters,
  closers and the writer. Every step is one atomic access or one critical section of
  \<^verbatim>\<open>submitWrite\<close>, \<^verbatim>\<open>runWriter\<close> and \<^verbatim>\<open>close\<close>, as cut in
  \<open>Write_Queue\<close>; the network write of a batch succeeds or fails at will.
\<close>

section \<open>The queue as a counted queue\<close>

definition wq_put :: "writeReq \<Rightarrow> write_queue \<Rightarrow> write_queue" where
  "wq_put req c = snd (enqueue req c)"

definition wq_take :: "write_queue \<Rightarrow> write_queue" where
  "wq_take c = snd (take_batch c)"

definition wr_weight :: "writeReq \<Rightarrow> int" where
  "wr_weight r = int (length (wr_data r))"

lemma req_bytes_weight: "req_bytes rs = sum_list (map wr_weight rs)"
  by (simp add: req_bytes_def wr_weight_def[abs_def])

interpretation wq: byte_queue pendingWrites pendingBytes maxPendingQueueBytes wr_weight wq_put wq_take
  by unfold_locales
     (auto simp: wr_weight_def wq_put_def enqueue_def wq_take_def take_batch_def req_bytes_weight
        maxPendingQueueBytes_def Let_def)

lemma maxPendingQueueBytes_pos: "0 < maxPendingQueueBytes c"
  by (simp add: maxPendingQueueBytes_def defaultPendingQueueBytes_def)

section \<open>Goroutines and their steps\<close>

text \<open>
  \<open>PcSubmit\<close> has passed the check of \<^verbatim>\<open>isClosed\<close>; \<open>PcClose\<close> is about to call
  \<^verbatim>\<open>close\<close>, \<open>PcDrain\<close> won its compare-and-swap; \<open>PcWriter\<close> is at the top of
  \<^verbatim>\<open>runWriter\<close>, \<open>PcBatch\<close> writes a batch, \<open>PcFailed\<close> has seen the error.
\<close>

datatype wpc =
    PcIdle | PcSubmit writeReq | PcClose | PcDrain | PcWriter | PcBatch "writeReq list" | PcFailed

record wsys =
  ws_q :: write_queue
  ws_pc :: "nat \<Rightarrow> wpc"
  ws_accepted :: "writeReq list"
  ws_wire :: bytes
  ws_intact :: bool

definition wsys_start :: "Config \<Rightarrow> wsys" where
  "wsys_start cfg =
     \<lparr>ws_q = \<lparr>config = cfg, isClosed = False, pendingWrites = [], pendingBytes = 0, writeActive = False,
              done_sent = []\<rparr>,
      ws_pc = (\<lambda>_. PcIdle), ws_accepted = [], ws_wire = [], ws_intact = True\<rparr>"

definition reqs_data :: "writeReq list \<Rightarrow> bytes" where
  "reqs_data rs = concat (map wr_data rs)"

inductive wstep :: "wsys \<Rightarrow> wsys \<Rightarrow> bool" where
  w_refused: "ws_pc s i = PcIdle \<Longrightarrow> isClosed (ws_q s) \<Longrightarrow>
     wstep s (s\<lparr>ws_q := send_done False [req] (ws_q s)\<rparr>)"
| w_enter: "ws_pc s i = PcIdle \<Longrightarrow> \<not> isClosed (ws_q s) \<Longrightarrow>
     wstep s (s\<lparr>ws_pc := (ws_pc s)(i := PcSubmit req)\<rparr>)"
| w_queued: "ws_pc s i = PcSubmit req \<Longrightarrow> enqueue req (ws_q s) = (SubmitQueued, q') \<Longrightarrow>
     wstep s (s\<lparr>ws_q := q', ws_pc := (ws_pc s)(i := PcIdle), ws_accepted := ws_accepted s @ [req]\<rparr>)"
| w_start: "ws_pc s i = PcSubmit req \<Longrightarrow> enqueue req (ws_q s) = (SubmitStart, q') \<Longrightarrow> ws_pc s j = PcIdle \<Longrightarrow>
     wstep s (s\<lparr>ws_q := q', ws_pc := (ws_pc s)(i := PcIdle, j := PcWriter), ws_accepted := ws_accepted s @ [req]\<rparr>)"
| w_overflow: "ws_pc s i = PcSubmit req \<Longrightarrow> enqueue req (ws_q s) = (SubmitOverflow, q') \<Longrightarrow>
     wstep s (s\<lparr>ws_q := send_done False [req] q', ws_pc := (ws_pc s)(i := PcClose)\<rparr>)"
| w_close: "ws_pc s i = PcIdle \<Longrightarrow> wstep s (s\<lparr>ws_pc := (ws_pc s)(i := PcClose)\<rparr>)"
| w_close_lost: "ws_pc s i = PcClose \<Longrightarrow> isClosed (ws_q s) \<Longrightarrow>
     wstep s (s\<lparr>ws_pc := (ws_pc s)(i := PcIdle)\<rparr>)"
| w_close_won: "ws_pc s i = PcClose \<Longrightarrow> \<not> isClosed (ws_q s) \<Longrightarrow>
     wstep s (s\<lparr>ws_q := (ws_q s)\<lparr>isClosed := True\<rparr>, ws_pc := (ws_pc s)(i := PcDrain)\<rparr>)"
| w_drain: "ws_pc s i = PcDrain \<Longrightarrow>
     wstep s (s\<lparr>ws_q := close_drain (ws_q s), ws_pc := (ws_pc s)(i := PcIdle), ws_intact := False\<rparr>)"
| w_exit: "ws_pc s i = PcWriter \<Longrightarrow> take_batch (ws_q s) = (None, q') \<Longrightarrow>
     wstep s (s\<lparr>ws_q := q', ws_pc := (ws_pc s)(i := PcIdle)\<rparr>)"
| w_take: "ws_pc s i = PcWriter \<Longrightarrow> take_batch (ws_q s) = (Some batch, q') \<Longrightarrow>
     wstep s (s\<lparr>ws_q := q', ws_pc := (ws_pc s)(i := PcBatch batch)\<rparr>)"
| w_written: "ws_pc s i = PcBatch batch \<Longrightarrow>
     wstep s (s\<lparr>ws_q := send_done True batch (ws_q s), ws_pc := (ws_pc s)(i := PcWriter),
               ws_wire := ws_wire s @ reqs_data batch\<rparr>)"
| w_write_error: "ws_pc s i = PcBatch batch \<Longrightarrow>
     wstep s (s\<lparr>ws_q := send_done False batch (ws_q s), ws_pc := (ws_pc s)(i := PcFailed),
               ws_wire := ws_wire s @ take n (reqs_data batch), ws_intact := False\<rparr>)"
| w_stop: "ws_pc s i = PcFailed \<Longrightarrow>
     wstep s (s\<lparr>ws_q := writer_stop (ws_q s), ws_pc := (ws_pc s)(i := PcClose)\<rparr>)"

inductive_cases wstepE: "wstep s s'"

inductive wreach :: "Config \<Rightarrow> wsys \<Rightarrow> bool" for cfg where
  wreach_start: "wreach cfg (wsys_start cfg)"
| wreach_step: "wreach cfg s \<Longrightarrow> wstep s s' \<Longrightarrow> wreach cfg s'"

section \<open>Invariants\<close>

definition is_writer :: "wpc \<Rightarrow> bool" where
  "is_writer p \<longleftrightarrow> (case p of PcWriter \<Rightarrow> True | PcBatch _ \<Rightarrow> True | PcFailed \<Rightarrow> True | _ \<Rightarrow> False)"

lemma is_writer_simps [simp]:
  "\<not> is_writer PcIdle" "\<not> is_writer (PcSubmit r)" "\<not> is_writer PcClose" "\<not> is_writer PcDrain"
  "is_writer PcWriter" "is_writer (PcBatch b)" "is_writer PcFailed"
  by (simp_all add: is_writer_def)

definition writers :: "(nat \<Rightarrow> wpc) \<Rightarrow> nat set" where
  "writers pc = {i. is_writer (pc i)}"

lemma writers_upd [simp]:
  "writers (pc(i := p)) = (if is_writer p then insert i (writers pc) else writers pc - {i})"
  by (auto simp: writers_def)

definition one_writer :: "wsys \<Rightarrow> bool" where
  "one_writer s \<longleftrightarrow>
     (if writeActive (ws_q s) then \<exists>i. writers (ws_pc s) = {i} else writers (ws_pc s) = {})"

lemma enqueue_flags:
  "enqueue req q = (SubmitQueued, q') \<Longrightarrow> writeActive q \<and> writeActive q'"
  "enqueue req q = (SubmitStart, q') \<Longrightarrow> \<not> writeActive q \<and> writeActive q'"
  "enqueue req q = (SubmitOverflow, q') \<Longrightarrow> q' = q"
  by (auto simp: enqueue_def Let_def split: if_splits)

lemma enqueue_items:
  "enqueue req q = (r, q') \<Longrightarrow> r \<noteq> SubmitOverflow \<Longrightarrow> pendingWrites q' = pendingWrites q @ [req] \<and> isClosed q' = isClosed q"
  by (auto simp: enqueue_def Let_def split: if_splits)

lemma send_done_frame [frame_simps]:
  "writeActive (send_done b rs q) = writeActive q" "pendingWrites (send_done b rs q) = pendingWrites q"
  "pendingBytes (send_done b rs q) = pendingBytes q" "config (send_done b rs q) = config q"
  "isClosed (send_done b rs q) = isClosed q"
  by (simp_all add: send_done_def)

lemma close_drain_frame [frame_simps]:
  "writeActive (close_drain q) = writeActive q" "pendingWrites (close_drain q) = []"
  "pendingBytes (close_drain q) = 0" "config (close_drain q) = config q" "isClosed (close_drain q) = isClosed q"
  by (simp_all add: close_drain_def send_done_def)

lemma take_batch_cases:
  "take_batch q = (None, q') \<longleftrightarrow> pendingWrites q = [] \<and> q' = q\<lparr>writeActive := False\<rparr>"
  "take_batch q = (Some b, q') \<longleftrightarrow> pendingWrites q \<noteq> [] \<and> b = pendingWrites q \<and>
     q' = q\<lparr>pendingWrites := [], pendingBytes := pendingBytes q - req_bytes (pendingWrites q)\<rparr>"
  by (auto simp: take_batch_def)

lemma in_writers: "i \<in> writers pc \<longleftrightarrow> is_writer (pc i)"
  by (simp add: writers_def)

lemma one_writer_step: "wstep s s' \<Longrightarrow> one_writer s \<Longrightarrow> one_writer s'"
proof (induction rule: wstep.induct)
  case (w_start s i req q' j)
  then show ?case using enqueue_flags(2)[OF w_start(2)] in_writers[of i "ws_pc s"]
    by (auto simp: one_writer_def)
next
  case (w_queued s i req q')
  then show ?case using enqueue_flags(1)[OF w_queued(2)] in_writers[of i "ws_pc s"]
    by (auto simp: one_writer_def)
next
  case (w_overflow s i req q')
  then show ?case using enqueue_flags(3)[OF w_overflow(2)] in_writers[of i "ws_pc s"]
    by (auto simp: one_writer_def frame_simps)
next
  case (w_exit s i q')
  then show ?case using in_writers[of i "ws_pc s"]
    by (auto simp: one_writer_def take_batch_cases split: if_splits)
next
  case (w_take s i batch q')
  then show ?case using in_writers[of i "ws_pc s"]
    by (auto simp: one_writer_def take_batch_cases split: if_splits)
next
  case (w_written s i batch)
  then show ?case using in_writers[of i "ws_pc s"]
    by (auto simp: one_writer_def frame_simps split: if_splits)
next
  case (w_write_error s i batch n)
  then show ?case using in_writers[of i "ws_pc s"]
    by (auto simp: one_writer_def frame_simps split: if_splits)
next
  case (w_stop s i)
  then show ?case using in_writers[of i "ws_pc s"]
    by (auto simp: one_writer_def writer_stop_def split: if_splits)
qed (use in_writers in \<open>fastforce simp: one_writer_def frame_simps split: if_splits\<close>)+

section \<open>Order on the wire\<close>

text \<open>The batch that is being written, if there is one.\<close>

definition in_flight :: "wsys \<Rightarrow> writeReq list \<Rightarrow> bool" where
  "in_flight s b \<longleftrightarrow>
     (if \<exists>i b'. ws_pc s i = PcBatch b' then \<forall>i b'. ws_pc s i = PcBatch b' \<longrightarrow> b' = b else b = [])"

definition wire_order :: "wsys \<Rightarrow> bool" where
  "wire_order s \<longleftrightarrow>
     (ws_intact s \<longrightarrow> (\<exists>b. in_flight s b \<and>
        reqs_data (ws_accepted s) = ws_wire s @ reqs_data b @ reqs_data (pendingWrites (ws_q s))))"

lemma reqs_data_simps [simp]:
  "reqs_data [] = []" "reqs_data (xs @ ys) = reqs_data xs @ reqs_data ys" "reqs_data [r] = wr_data r"
  by (simp_all add: reqs_data_def)

lemma in_flight_other:
  assumes "in_flight s b" "\<And>b'. ws_pc s i \<noteq> PcBatch b'" "\<And>b'. p \<noteq> PcBatch b'"
    "ws_pc s' = (ws_pc s)(i := p)"
  shows "in_flight s' b"
  using assms unfolding in_flight_def by (auto simp: fun_upd_apply split: if_splits) metis+

lemma writers_unique: "one_writer s \<Longrightarrow> is_writer (ws_pc s i) \<Longrightarrow> is_writer (ws_pc s j) \<Longrightarrow> i = j"
  unfolding one_writer_def using in_writers[of i "ws_pc s"] in_writers[of j "ws_pc s"]
  by (auto split: if_splits)

lemma in_flight_batch:
  assumes "one_writer s" "ws_pc s i = PcBatch b'"
  shows "in_flight s b \<longleftrightarrow> b = b'"
proof -
  have "c = b'" if "ws_pc s j = PcBatch c" for j c
    using writers_unique[OF assms(1), of j i] that assms(2) by simp
  then show ?thesis using assms(2) unfolding in_flight_def by metis
qed

lemma in_flight_none:
  assumes "one_writer s" "ws_pc s i = PcWriter"
  shows "in_flight s b \<longleftrightarrow> b = []"
proof -
  have "ws_pc s j \<noteq> PcBatch c" for j c
    using writers_unique[OF assms(1), of j i] assms(2) by auto
  then show ?thesis by (auto simp: in_flight_def)
qed

lemma wire_order_keep:
  assumes "wire_order s" "\<And>b'. ws_pc s i \<noteq> PcBatch b'" "\<And>b'. p \<noteq> PcBatch b'"
    "ws_pc s' = (ws_pc s)(i := p)" "ws_intact s' = ws_intact s" "ws_wire s' = ws_wire s"
    "ws_accepted s' = ws_accepted s @ new" "pendingWrites (ws_q s') = pendingWrites (ws_q s) @ new"
  shows "wire_order s'"
  unfolding wire_order_def
proof
  assume "ws_intact s'"
  then obtain b where "in_flight s b"
    "reqs_data (ws_accepted s) = ws_wire s @ reqs_data b @ reqs_data (pendingWrites (ws_q s))"
    using assms(1,5) by (auto simp: wire_order_def)
  then show "\<exists>b. in_flight s' b \<and>
      reqs_data (ws_accepted s') = ws_wire s' @ reqs_data b @ reqs_data (pendingWrites (ws_q s'))"
    using in_flight_other[OF _ assms(2-4), of b] assms(6-8) by (intro exI[of _ b]) simp
qed

lemma wire_order_step: "wstep s s' \<Longrightarrow> one_writer s \<Longrightarrow> wire_order s \<Longrightarrow> wire_order s'"
proof (induction rule: wstep.induct)
  case (w_start s i req q' j)
  let ?s1 = "s\<lparr>ws_q := q', ws_pc := (ws_pc s)(i := PcIdle), ws_accepted := ws_accepted s @ [req]\<rparr>"
  have "wire_order ?s1"
    using w_start enqueue_items[OF w_start(2)] by - (rule wire_order_keep[of s i PcIdle ?s1 "[req]"], auto)
  then show ?case
    using w_start by - (rule wire_order_keep[of ?s1 j PcWriter _ "[]"], auto)
next
  case (w_queued s i req q')
  then show ?case using enqueue_items[OF w_queued(2)] by - (rule wire_order_keep[of s i PcIdle _ "[req]"], auto)
next
  case (w_overflow s i req q')
  then show ?case using enqueue_flags(3)[OF w_overflow(2)]
    by - (rule wire_order_keep[of s i PcClose _ "[]"], auto simp: frame_simps)
next
  case (w_exit s i q')
  then show ?case
    by - (rule wire_order_keep[of s i PcIdle _ "[]"], auto simp: take_batch_cases)
next
  case (w_take s i batch q')
  let ?s' = "s\<lparr>ws_q := q', ws_pc := (ws_pc s)(i := PcBatch batch)\<rparr>"
  have "one_writer ?s'" using one_writer_step[OF wstep.w_take[OF w_take(1,2)] w_take(3)] .
  then have "in_flight ?s' batch" by (simp add: in_flight_batch[of ?s' i batch])
  moreover have "b = []" if "in_flight s b" for b using that in_flight_none[OF w_take(3,1)] by simp
  ultimately show ?case using w_take by (fastforce simp: wire_order_def take_batch_cases)
next
  case (w_written s i batch)
  let ?s' = "s\<lparr>ws_q := send_done True batch (ws_q s), ws_pc := (ws_pc s)(i := PcWriter), ws_wire := ws_wire s @ reqs_data batch\<rparr>"
  have "one_writer ?s'" using one_writer_step[OF wstep.w_written[OF w_written(1)] w_written(2)] .
  then have "in_flight ?s' []" using in_flight_none[of ?s' i] by simp
  moreover have "b = batch" if "in_flight s b" for b using that in_flight_batch[OF w_written(2,1)] by simp
  ultimately show ?case using w_written by (fastforce simp: wire_order_def frame_simps)
next
  case (w_refused s i req)
  then show ?case
    by - (rule wire_order_keep[of s i PcIdle _ "[]"], auto simp: frame_simps fun_upd_idem)
next
  case (w_enter s i req)
  then show ?case by - (rule wire_order_keep[of s i "PcSubmit req" _ "[]"], auto)
next
  case (w_close s i)
  then show ?case by - (rule wire_order_keep[of s i PcClose _ "[]"], auto)
next
  case (w_close_lost s i)
  then show ?case by - (rule wire_order_keep[of s i PcIdle _ "[]"], auto)
next
  case (w_close_won s i)
  then show ?case by - (rule wire_order_keep[of s i PcDrain _ "[]"], auto)
next
  case (w_stop s i)
  then show ?case by - (rule wire_order_keep[of s i PcClose _ "[]"], auto simp: writer_stop_def)
qed (auto simp: wire_order_def)

section \<open>The byte count\<close>

lemma counted_step: "wstep s s' \<Longrightarrow> wq.counted (ws_q s) \<Longrightarrow> wq.counted (ws_q s')"
proof (induction rule: wstep.induct)
  case (w_queued s i req q')
  then show ?case using wq.counted_put[of "ws_q s" req] by (simp add: wq_put_def)
next
  case (w_start s i req q' j)
  then show ?case using wq.counted_put[of "ws_q s" req] by (simp add: wq_put_def)
next
  case (w_take s i batch q')
  then show ?case using wq.counted_take[of "ws_q s"] by (simp add: wq_take_def)
next
  case (w_drain s i)
  then show ?case
    by (intro wq.counted_empty) (simp_all add: frame_simps less_imp_le[OF maxPendingQueueBytes_pos])
qed (auto simp: wq.counted_def frame_simps maxPendingQueueBytes_def take_batch_cases writer_stop_def
       dest: enqueue_flags(3))

lemma wreach_inv: "wreach cfg s \<Longrightarrow> one_writer s \<and> wire_order s \<and> wq.counted (ws_q s)"
proof (induction rule: wreach.induct)
  case wreach_start
  then show ?case
    by (auto simp: one_writer_def wire_order_def in_flight_def wsys_start_def writers_def
        less_imp_le[OF maxPendingQueueBytes_pos] intro!: wq.counted_empty)
next
  case (wreach_step s s')
  then show ?case using one_writer_step wire_order_step counted_step by blast
qed

section \<open>A request that no one will answer\<close>

text \<open>
  A closed connection without a writer: whatever is still queued stays queued, since
  \<^verbatim>\<open>submitWrite\<close> turns new requests away and \<^verbatim>\<open>close\<close> does nothing twice.
\<close>

definition stranded :: "writeReq \<Rightarrow> wsys \<Rightarrow> bool" where
  "stranded req s \<longleftrightarrow> isClosed (ws_q s) \<and> req \<in> set (pendingWrites (ws_q s)) \<and>
     (\<forall>i. ws_pc s i = PcIdle \<or> ws_pc s i = PcClose)"

lemma stranded_pc: "stranded req s \<Longrightarrow> ws_pc s i = p \<Longrightarrow> p = PcIdle \<or> p = PcClose"
  unfolding stranded_def by blast

lemma stranded_step: "wstep s s' \<Longrightarrow> stranded req s \<Longrightarrow> stranded req s'"
proof (induction rule: wstep.induct)
  case (w_refused s i req')
  then show ?case by (simp add: stranded_def frame_simps)
next
  case (w_close s i)
  then show ?case by (simp add: stranded_def)
next
  case (w_close_lost s i)
  then show ?case by (simp add: stranded_def)
next
  case (w_enter s i req')
  then show ?case by (simp add: stranded_def)
next
  case (w_close_won s i)
  then show ?case by (simp add: stranded_def)
qed (blast dest: stranded_pc)+

lemma stranded_forever: "wstep\<^sup>*\<^sup>* s s' \<Longrightarrow> stranded req s \<Longrightarrow> stranded req s'"
  by (induction rule: rtranclp_induct) (auto intro: stranded_step)

definition plain_req :: writeReq where
  "plain_req = \<lparr>wr_data = [1], wr_pooled = False, wr_done = None\<rparr>"

definition waiting_req :: writeReq where
  "waiting_req = \<lparr>wr_data = [2], wr_pooled = False, wr_done = Some 0\<rparr>"

text \<open>The states of the run, as the queue, the program counters and the ghost fields.\<close>

definition run_state_of :: "write_queue \<Rightarrow> (nat \<Rightarrow> wpc) \<Rightarrow> writeReq list \<Rightarrow> bool \<Rightarrow> wsys" where
  "run_state_of q pc acc ok = \<lparr>ws_q = q, ws_pc = pc, ws_accepted = acc, ws_wire = [], ws_intact = ok\<rparr>"

lemma req_selectors [simp]:
  "wr_data plain_req = [1]" "wr_done plain_req = None" "wr_data waiting_req = [2]" "wr_done waiting_req = Some 0"
  by (simp_all add: plain_req_def waiting_req_def)

lemma default_room: "config c = DefaultConfig \<Longrightarrow> maxPendingQueueBytes c = 67108864"
  by (simp add: maxPendingQueueBytes_def DefaultConfig_def)

lemmas run_step_simps = run_state_of_def enqueue_def take_batch_def default_room
  close_drain_def send_done_def signal_all_def writer_stop_def reqs_data_def req_bytes_def

abbreviation run_queue :: "bool \<Rightarrow> writeReq list \<Rightarrow> int \<Rightarrow> bool \<Rightarrow> write_queue" where
  "run_queue cl pend n act \<equiv>
     \<lparr>config = DefaultConfig, isClosed = cl, pendingWrites = pend, pendingBytes = n, writeActive = act, done_sent = []\<rparr>"

abbreviation run_reach :: "bool \<Rightarrow> writeReq list \<Rightarrow> int \<Rightarrow> bool \<Rightarrow> (nat \<Rightarrow> wpc) \<Rightarrow> writeReq list \<Rightarrow> bool \<Rightarrow> bool" where
  "run_reach cl pend n act pc acc ok \<equiv> wreach DefaultConfig (run_state_of (run_queue cl pend n act) pc acc ok)"

text \<open>One request is queued, and the writer that it started takes it.\<close>

lemma run_queued: "run_reach False [plain_req] 1 True ((\<lambda>_. PcIdle)(0 := PcIdle, 1 := PcWriter)) [plain_req] True"
proof -
  have 0: "run_reach False [] 0 False (\<lambda>_. PcIdle) [] True"
    using wreach_start[of DefaultConfig] by (simp add: wsys_start_def run_state_of_def)
  have 1: "run_reach False [] 0 False ((\<lambda>_. PcIdle)(0 := PcSubmit plain_req)) [] True"
    using wreach_step[OF 0 w_enter[of _ 0 plain_req]] by (simp add: run_step_simps)
  show ?thesis
    using wreach_step[OF 1 w_start[of _ 0 plain_req _ 1]] by (simp add: run_step_simps)
qed

lemma run_taken: "run_reach False [] 0 True ((\<lambda>_. PcIdle)(0 := PcIdle, 1 := PcBatch [plain_req])) [plain_req] True"
  using wreach_step[OF run_queued w_take[of _ 1]] by (simp add: run_step_simps)

text \<open>While it writes, a second request is queued; then the first is on the wire.\<close>

definition run_written :: wsys where
  "run_written =
     (run_state_of (run_queue False [waiting_req] 1 True) ((\<lambda>_. PcIdle)(0 := PcIdle, 1 := PcWriter))
        [plain_req, waiting_req] True)\<lparr>ws_wire := [1]\<rparr>"

lemma run_written: "wreach DefaultConfig run_written"
proof -
  have 1: "run_reach False [] 0 True ((\<lambda>_. PcIdle)(0 := PcSubmit waiting_req, 1 := PcBatch [plain_req])) [plain_req] True"
    using wreach_step[OF run_taken w_enter[of _ 0 waiting_req]] by (simp add: run_step_simps fun_upd_twist)
  have 2: "run_reach False [waiting_req] 1 True ((\<lambda>_. PcIdle)(0 := PcIdle, 1 := PcBatch [plain_req]))
      [plain_req, waiting_req] True"
    using wreach_step[OF 1 w_queued[of _ 0 waiting_req]] by (simp add: run_step_simps fun_upd_twist)
  show ?thesis
    using wreach_step[OF 2 w_written[of _ 1]] by (simp add: run_step_simps run_written_def fun_upd_twist)
qed

lemma stranded_reachable: "\<exists>s. wreach DefaultConfig s \<and> stranded waiting_req s \<and> done_sent (ws_q s) = []"
proof -
  let ?I = "\<lambda>_ :: nat. PcIdle" and ?A = plain_req and ?B = waiting_req
  have 4: "run_reach False [] 0 True (?I(0 := PcSubmit ?B, 1 := PcBatch [?A])) [?A] True"
    using wreach_step[OF run_taken w_enter[of _ 0 ?B]] by (simp add: run_step_simps fun_upd_twist)
  have 5: "run_reach False [] 0 True (?I(0 := PcSubmit ?B, 1 := PcBatch [?A], 2 := PcClose)) [?A] True"
    using wreach_step[OF 4 w_close[of _ 2]] by (simp add: run_step_simps)
  have 6: "run_reach True [] 0 True (?I(0 := PcSubmit ?B, 1 := PcBatch [?A], 2 := PcDrain)) [?A] True"
    using wreach_step[OF 5 w_close_won[of _ 2]] by (simp add: run_step_simps)
  have 7: "run_reach True [] 0 True (?I(0 := PcSubmit ?B, 1 := PcBatch [?A], 2 := PcIdle)) [?A] False"
    using wreach_step[OF 6 w_drain[of _ 2]] by (simp add: run_step_simps)
  have 8: "run_reach True [?B] 1 True (?I(0 := PcIdle, 1 := PcBatch [?A], 2 := PcIdle)) [?A, ?B] False"
    using wreach_step[OF 7 w_queued[of _ 0 ?B]] by (simp add: run_step_simps fun_upd_twist)
  have 9: "run_reach True [?B] 1 True (?I(0 := PcIdle, 1 := PcFailed, 2 := PcIdle)) [?A, ?B] False"
    using wreach_step[OF 8 w_write_error[of _ 1 _ 0]] by (simp add: run_step_simps fun_upd_twist)
  have 10: "run_reach True [?B] 1 False (?I(0 := PcIdle, 1 := PcClose, 2 := PcIdle)) [?A, ?B] False"
    using wreach_step[OF 9 w_stop[of _ 1]] by (simp add: run_step_simps fun_upd_twist)
  show ?thesis
    by (rule exI, rule conjI[OF 10]) (simp add: stranded_def run_state_of_def)
qed

section \<open>Properties\<close>

text \<open>
  At any moment at most one goroutine writes to the client, and the flag
  \<^verbatim>\<open>writeActive\<close> is set exactly while there is one.
\<close>

theorem Writer_single:
  assumes "wreach cfg s"
  shows "card (writers (ws_pc s)) = (if writeActive (ws_q s) then 1 else 0)"
  using wreach_inv[OF assms] by (auto simp: one_writer_def split: if_splits)

theorem Writer_single_witness:
  "card (writers (ws_pc (wsys_start DefaultConfig))) = 0"
  using Writer_single[OF wreach_start[of DefaultConfig]] by (simp add: wsys_start_def)

text \<open>
  C6: Under every interleaving, until a write fails or the connection is closed, the bytes on
  the wire are a prefix of the accepted frames in the order in which they were accepted: no frame
  is lost, repeated, reordered or cut into by another.
\<close>

theorem Writer_wire_order:
  assumes "wreach cfg s" and "ws_intact s"
  shows "prefix (ws_wire s) (reqs_data (ws_accepted s))"
  using wreach_inv[OF assms(1)] assms(2) by (auto simp: wire_order_def)

theorem Writer_wire_order_witness:
  "prefix (ws_wire run_written) (reqs_data [plain_req, waiting_req]) \<and> ws_wire run_written = [1]"
  using Writer_wire_order[OF run_written] by (simp add: run_written_def run_state_of_def)

text \<open>
  C21: The byte counter is the size of what is queued and never passes the configured bound, so
  a client that does not read cannot make the server hold more.
\<close>

theorem Writer_bounded:
  assumes "wreach cfg s"
  shows "pendingBytes (ws_q s) = req_bytes (pendingWrites (ws_q s)) \<and>
         pendingBytes (ws_q s) \<le> maxPendingQueueBytes (ws_q s)"
  using wreach_inv[OF assms] by (simp add: wq.counted_def req_bytes_weight)

theorem Writer_bounded_witness:
  "req_bytes (pendingWrites (ws_q run_written)) = 1 \<and> maxPendingQueueBytes (ws_q run_written) = 67108864"
  using Writer_bounded[OF run_written] by (simp add: run_written_def run_state_of_def default_room)

text \<open>
  C39: A run in which a caller of \<^verbatim>\<open>writeAndWait\<close> is never answered: it passes the check
  of \<^verbatim>\<open>isClosed\<close>, another goroutine closes and drains the queue, the request is queued
  behind the writer that is just failing, and from then on nothing takes it out of the queue.
\<close>

theorem Writer_stranded_request:
  "\<exists>s. wreach DefaultConfig s \<and> wr_done waiting_req \<noteq> None \<and> done_sent (ws_q s) = [] \<and>
       {s'. wstep\<^sup>*\<^sup>* s s'} \<subseteq> {s'. waiting_req \<in> set (pendingWrites (ws_q s'))}"
proof -
  obtain s where s: "wreach DefaultConfig s" "stranded waiting_req s" "done_sent (ws_q s) = []"
    using stranded_reachable by blast
  have "waiting_req \<in> set (pendingWrites (ws_q s'))" if "wstep\<^sup>*\<^sup>* s s'" for s'
    using stranded_forever[OF that s(2)] by (simp add: stranded_def)
  then show ?thesis using s by (intro exI[of _ s]) (auto simp: waiting_req_def)
qed

end
