(* ===== verification/Rate_Limits.thy ===== *)
theory Rate_Limits
  imports Wisp_Prelude
begin

text \<open>
  \<^verbatim>\<open>wisp/limits.go\<close>: the per-key request window and the counting semaphore. A nil
  \<^verbatim>\<open>*SlidingWindow\<close> or \<^verbatim>\<open>*Semaphore\<close> is \<open>None\<close>; \<^verbatim>\<open>time.Now()\<close> is the
  argument \<open>now\<close>. The methods of \<^verbatim>\<open>SlidingWindow\<close> hold its mutex, so each is one step.
\<close>

section \<open>SlidingWindow\<close>

record window_entry =
  we_start :: gotime
  we_count :: int

record sliding_window =
  sw_limit :: int
  sw_window :: duration
  sw_entries :: "string \<rightharpoonup> window_entry"

definition NewSlidingWindow :: "int \<Rightarrow> duration \<Rightarrow> sliding_window" where
  "NewSlidingWindow limit window = \<lparr>sw_limit = limit, sw_window = window, sw_entries = Map.empty\<rparr>"

definition SlidingWindow_Allow ::
  "gotime \<Rightarrow> string \<Rightarrow> sliding_window option \<Rightarrow> bool \<times> sliding_window option" where
  "SlidingWindow_Allow now key w =
     (case w of
        None \<Rightarrow> (True, None)
      | Some w \<Rightarrow>
          if sw_limit w \<le> 0 then (True, Some w)
          else (case sw_entries w key of
                  None \<Rightarrow>
                    (True, Some (w\<lparr>sw_entries := (sw_entries w)(key \<mapsto> \<lparr>we_start = now, we_count = 1\<rparr>)\<rparr>))
                | Some e \<Rightarrow>
                    if sw_window w \<le> time_sub now (we_start e) then
                      (True, Some (w\<lparr>sw_entries := (sw_entries w)(key \<mapsto> \<lparr>we_start = now, we_count = 1\<rparr>)\<rparr>))
                    else
                      (let e' = e\<lparr>we_count := wrap64 (we_count e + 1)\<rparr>
                       in (we_count e' \<le> sw_limit w, Some (w\<lparr>sw_entries := (sw_entries w)(key \<mapsto> e')\<rparr>)))))"

definition SlidingWindow_Evict ::
  "gotime \<Rightarrow> duration \<Rightarrow> sliding_window option \<Rightarrow> sliding_window option" where
  "SlidingWindow_Evict now idle w =
     (case w of
        None \<Rightarrow> None
      | Some w \<Rightarrow> Some (w\<lparr>sw_entries := delete_where (\<lambda>k e. we_start e < now - idle) (sw_entries w)\<rparr>))"

section \<open>Semaphore\<close>

record semaphore =
  sem_max :: int
  sem_current :: int

definition NewSemaphore :: "int \<Rightarrow> semaphore" where
  "NewSemaphore mx = \<lparr>sem_max = mx, sem_current = 0\<rparr>"

text \<open>
  \<^verbatim>\<open>TryAcquire\<close> and \<^verbatim>\<open>Release\<close> as single steps; the compare-and-swap loop under
  interference is the step relation below.
\<close>

definition Semaphore_TryAcquire :: "semaphore option \<Rightarrow> bool \<times> semaphore option" where
  "Semaphore_TryAcquire s =
     (case s of
        None \<Rightarrow> (True, None)
      | Some s \<Rightarrow>
          if sem_max s \<le> 0 then (True, Some s)
          else if sem_max s \<le> sem_current s then (False, Some s)
          else (True, Some (s\<lparr>sem_current := wrap64 (sem_current s + 1)\<rparr>)))"

definition Semaphore_Release :: "semaphore option \<Rightarrow> semaphore option" where
  "Semaphore_Release s =
     (case s of
        None \<Rightarrow> None
      | Some s \<Rightarrow>
          if sem_max s \<le> 0 then Some s else Some (s\<lparr>sem_current := wrap64 (sem_current s - 1)\<rparr>))"

text \<open>
  The goroutines that share one semaphore. \<open>SemLoaded c\<close> is between the atomic load and the
  compare-and-swap of the loop; a swap that fails goes back to the load.
\<close>

datatype sem_pc = SemIdle | SemLoaded int | SemHeld

inductive sem_step ::
  "semaphore \<times> (nat \<Rightarrow> sem_pc) \<Rightarrow> semaphore \<times> (nat \<Rightarrow> sem_pc) \<Rightarrow> bool" where
  sem_load: "pc i = SemIdle \<Longrightarrow> sem_current s < sem_max s \<Longrightarrow>
     sem_step (s, pc) (s, pc(i := SemLoaded (sem_current s)))"
| sem_full: "pc i = SemIdle \<Longrightarrow> sem_max s \<le> sem_current s \<Longrightarrow> sem_step (s, pc) (s, pc)"
| sem_swap: "pc i = SemLoaded (sem_current s) \<Longrightarrow>
     sem_step (s, pc) (s\<lparr>sem_current := wrap64 (sem_current s + 1)\<rparr>, pc(i := SemHeld))"
| sem_retry: "pc i = SemLoaded c \<Longrightarrow> c \<noteq> sem_current s \<Longrightarrow> sem_step (s, pc) (s, pc(i := SemIdle))"
| sem_release: "pc i = SemHeld \<Longrightarrow>
     sem_step (s, pc) (s\<lparr>sem_current := wrap64 (sem_current s - 1)\<rparr>, pc(i := SemIdle))"

inductive_cases sem_stepE: "sem_step (s, pc) (s', pc')"

inductive sem_reach :: "int \<Rightarrow> semaphore \<times> (nat \<Rightarrow> sem_pc) \<Rightarrow> bool" for mx where
  sem_start: "sem_reach mx (NewSemaphore mx, \<lambda>_. SemIdle)"
| sem_next: "sem_reach mx c \<Longrightarrow> sem_step c c' \<Longrightarrow> sem_reach mx c'"

definition sem_holders :: "(nat \<Rightarrow> sem_pc) \<Rightarrow> nat set" where
  "sem_holders pc = {i. pc i = SemHeld}"

definition sem_inv :: "int \<Rightarrow> semaphore \<times> (nat \<Rightarrow> sem_pc) \<Rightarrow> bool" where
  "sem_inv mx c \<longleftrightarrow>
     (case c of (s, pc) \<Rightarrow>
        sem_max s = mx \<and> finite (sem_holders pc) \<and> sem_current s = int (card (sem_holders pc)) \<and>
        sem_current s \<le> mx \<and> (\<forall>i c. pc i = SemLoaded c \<longrightarrow> c < mx))"

lemma sem_holders_upd:
  "sem_holders (pc(i := SemHeld)) = insert i (sem_holders pc)"
  "p \<noteq> SemHeld \<Longrightarrow> sem_holders (pc(i := p)) = sem_holders pc - {i}"
  by (auto simp: sem_holders_def)

lemma sem_step_inv: "sem_step c c' \<Longrightarrow> mx < 2 ^ 63 \<Longrightarrow> sem_inv mx c \<Longrightarrow> sem_inv mx c'"
proof (induction rule: sem_step.induct)
  case (sem_load pc i s)
  then have "sem_holders pc - {i} = sem_holders pc" by (auto simp: sem_holders_def)
  then show ?case using sem_load by (auto simp: sem_inv_def sem_holders_upd)
next
  case (sem_swap pc i s)
  then have "i \<notin> sem_holders pc" by (simp add: sem_holders_def)
  moreover have "0 \<le> sem_current s" "sem_current s < mx" using sem_swap by (auto simp: sem_inv_def)
  then have "wrap64 (sem_current s + 1) = sem_current s + 1" "sem_current s + 1 \<le> mx"
    using sem_swap by simp_all
  ultimately show ?case using sem_swap by (auto simp: sem_inv_def sem_holders_upd)
next
  case (sem_retry pc i c s)
  then have "sem_holders pc - {i} = sem_holders pc" by (auto simp: sem_holders_def)
  then show ?case using sem_retry by (auto simp: sem_inv_def sem_holders_upd)
next
  case (sem_release pc i s)
  then have "i \<in> sem_holders pc" by (simp add: sem_holders_def)
  then have "card (sem_holders pc) = Suc (card (sem_holders pc - {i}))"
    using sem_release by (intro card.remove) (auto simp: sem_inv_def)
  then show ?case using sem_release by (auto simp: sem_inv_def sem_holders_upd)
qed simp

lemma sem_reach_inv: "sem_reach mx c \<Longrightarrow> 0 \<le> mx \<Longrightarrow> mx < 2 ^ 63 \<Longrightarrow> sem_inv mx c"
proof (induction rule: sem_reach.induct)
  case sem_start
  then show ?case by (simp add: sem_inv_def NewSemaphore_def sem_holders_def)
next
  case (sem_next c c')
  then show ?case by (blast intro: sem_step_inv)
qed

section \<open>One entry of a window\<close>

text \<open>What \<^verbatim>\<open>Allow\<close> does to the entry of its key, for a limiter \<open>(limit, window)\<close>.\<close>

definition sw_step ::
  "(int \<times> duration) option \<Rightarrow> gotime \<Rightarrow> window_entry option \<Rightarrow> bool \<times> window_entry option" where
  "sw_step cfg now e =
     (case cfg of
        None \<Rightarrow> (True, e)
      | Some (limit, window) \<Rightarrow>
          if limit \<le> 0 then (True, e)
          else (case e of
                  None \<Rightarrow> (True, Some \<lparr>we_start = now, we_count = 1\<rparr>)
                | Some e \<Rightarrow>
                    if window \<le> time_sub now (we_start e)
                    then (True, Some \<lparr>we_start = now, we_count = 1\<rparr>)
                    else (wrap64 (we_count e + 1) \<le> limit,
                          Some (e\<lparr>we_count := wrap64 (we_count e + 1)\<rparr>))))"

definition sw_cfg :: "sliding_window option \<Rightarrow> (int \<times> duration) option" where
  "sw_cfg = map_option (\<lambda>w. (sw_limit w, sw_window w))"

definition sw_entry :: "sliding_window option \<Rightarrow> string \<Rightarrow> window_entry option" where
  "sw_entry w k = Option.bind w (\<lambda>w. sw_entries w k)"

interpretation sw: keyed_store sw_entry sw_cfg SlidingWindow_Allow sw_step
  by unfold_locales
     (auto simp: SlidingWindow_Allow_def sw_step_def sw_cfg_def sw_entry_def Let_def
       split: option.splits)

text \<open>
  Calls that all fall into the window of the entry: the counter goes up by one each time, and
  a call is admitted as long as it has not passed the limit.
\<close>

lemma run_entry_within_window:
  assumes "0 < limit" "\<forall>t \<in> set ts. time_sub t (we_start e) < window"
    and "0 \<le> we_count e" "we_count e + int (length ts) < 2 ^ 63"
  shows "run_entry (sw_step (Some (limit, window))) ts (Some e) =
           map (\<lambda>i. we_count e + int i \<le> limit) [1..<Suc (length ts)]"
  using assms(2-4)
proof (induction ts arbitrary: e)
  case Nil
  then show ?case by simp
next
  case (Cons t ts)
  define e' where "e' = e\<lparr>we_count := we_count e + 1\<rparr>"
  have step: "sw_step (Some (limit, window)) t (Some e) = (we_count e + 1 \<le> limit, Some e')"
    using Cons.prems assms(1) by (auto simp: sw_step_def e'_def)
  have "run_entry (sw_step (Some (limit, window))) ts (Some e') =
      map (\<lambda>i. we_count e + 1 + int i \<le> limit) [1..<Suc (length ts)]"
    using Cons.IH[of e'] Cons.prems by (simp add: e'_def)
  also have "\<dots> = map (\<lambda>i. we_count e + int i \<le> limit) [2..<Suc (Suc (length ts))]"
    by (simp add: map_Suc_upt[symmetric] numeral_2_eq_2 comp_def add.assoc del: upt_Suc)
  finally show ?case
    using step by (simp add: upt_conv_Cons[of "Suc 0"] numeral_2_eq_2 del: upt_Suc)
qed

definition count_true :: "bool list \<Rightarrow> nat" where
  "count_true bs = length (filter id bs)"

lemma count_true_simps [simp]:
  "count_true [] = 0" "count_true (b # bs) = (if b then Suc (count_true bs) else count_true bs)"
  "count_true (as @ bs) = count_true as + count_true bs"
  by (simp_all add: count_true_def)

lemma count_true_upto:
  "count_true (map (\<lambda>i. c + int i \<le> limit) [1..<Suc n]) = min n (nat (limit - c))"
  by (induction n) (auto simp: min_def)

lemma admitted_within_window:
  assumes "0 < limit" "\<forall>t \<in> set ts. time_sub t (we_start e) < window"
    and "0 \<le> we_count e" "we_count e + int (length ts) < 2 ^ 63"
  shows "int (count_true (run_entry (sw_step (Some (limit, window))) ts (Some e))) \<le> max 0 (limit - we_count e)"
  unfolding run_entry_within_window[OF assms] count_true_upto by linarith

text \<open>From a call that starts a new window, at most \<open>limit\<close> calls are admitted.\<close>

lemma admitted_from_reset:
  assumes "0 < limit" "\<forall>t' \<in> set ts. time_sub t' t < window" "int (length ts) + 1 < 2 ^ 63"
    and "e = None \<or> (\<exists>e0. e = Some e0 \<and> window \<le> time_sub t (we_start e0))"
  shows "int (count_true (run_entry (sw_step (Some (limit, window))) (t # ts) e)) \<le> limit"
proof -
  let ?e = "\<lparr>we_start = t, we_count = 1\<rparr>"
  have "sw_step (Some (limit, window)) t e = (True, Some ?e)"
    using assms(1,4) by (auto simp: sw_step_def)
  moreover have "int (count_true (run_entry (sw_step (Some (limit, window))) ts (Some ?e))) \<le> max 0 (limit - 1)"
    using admitted_within_window[OF assms(1), of ts ?e window] assms(2,3) by simp
  ultimately show ?thesis using assms(1) by simp
qed

lemma sw_step_in_window:
  assumes "0 < limit" "0 \<le> we_count e" "we_count e + 1 < 2 ^ 63" "time_sub t (we_start e) < window"
  shows "sw_step (Some (limit, window)) t (Some e) =
           (we_count e + 1 \<le> limit, Some (e\<lparr>we_count := we_count e + 1\<rparr>))"
  using assms by (auto simp: sw_step_def)

text \<open>In any stretch of time shorter than the window, at most twice the limit is admitted.\<close>

lemma admitted_any_stretch:
  assumes "0 < limit" "sorted ts" "\<forall>t \<in> set ts. \<forall>t' \<in> set ts. time_sub t' t < window"
    and "case e of None \<Rightarrow> int (length ts) < 2 ^ 63
         | Some e \<Rightarrow> 0 \<le> we_count e \<and> we_count e + int (length ts) < 2 ^ 63"
  shows "int (count_true (run_entry (sw_step (Some (limit, window))) ts e)) \<le>
           (case e of None \<Rightarrow> limit | Some e \<Rightarrow> limit + max 0 (limit - we_count e))"
  using assms(2-4)
proof (induction ts arbitrary: e)
  case Nil
  then show ?case using assms(1) by (auto split: option.splits)
next
  case (Cons t ts)
  show ?case
  proof (cases "e = None \<or> (\<exists>e0. e = Some e0 \<and> window \<le> time_sub t (we_start e0))")
    case True
    have "int (length ts) + 1 < 2 ^ 63" using Cons.prems(3) by (auto split: option.splits)
    from admitted_from_reset[OF assms(1) _ this True] Cons.prems(2)
    show ?thesis by (fastforce split: option.splits)
  next
    case False
    then obtain e0 where e: "e = Some e0" "time_sub t (we_start e0) < window" by (cases e) auto
    let ?e = "e0\<lparr>we_count := we_count e0 + 1\<rparr>"
    have step: "sw_step (Some (limit, window)) t e = (we_count e0 + 1 \<le> limit, Some ?e)"
      using sw_step_in_window[OF assms(1) _ _ e(2)] Cons.prems(3) e(1) by simp
    have "int (count_true (run_entry (sw_step (Some (limit, window))) ts (Some ?e)))
        \<le> limit + max 0 (limit - (we_count e0 + 1))"
      using Cons.IH[of "Some ?e"] Cons.prems e(1) by simp
    then show ?thesis using step e(1) by auto
  qed
qed

section \<open>Properties\<close>

text \<open>
  A new per-key limiter admits exactly the first \<open>limit\<close> calls of a key that fall into one
  window, whatever calls for other keys are interleaved with them.
\<close>

theorem SlidingWindow_admits_first_limit:
  assumes "0 < limit" and "0 < window" and "window < 2 ^ 63"
    and "map fst (filter (\<lambda>c. snd c = key) calls) = t0 # ts"
    and "\<forall>t \<in> set ts. t - t0 < window" and "int (length calls) < 2 ^ 63"
  shows "results_for key calls
           (run_ops SlidingWindow_Allow calls (Some (NewSlidingWindow limit window)))
         = map (\<lambda>i. int i < limit) [0..<Suc (length ts)]"
proof -
  let ?e = "\<lparr>we_start = t0, we_count = 1\<rparr>"
  have "length (filter (\<lambda>c. snd c = key) calls) = Suc (length ts)"
    using assms(4) by (metis length_Cons length_map)
  then have len: "int (length ts) + 1 < 2 ^ 63"
    using assms(6) length_filter_le[of "\<lambda>c. snd c = key" calls] by linarith
  have near: "\<forall>t \<in> set ts. time_sub t (we_start ?e) < window"
    using assms(2,3,5) by (simp add: time_sub_less_iff)
  have "run_entry (sw_step (Some (limit, window))) (t0 # ts) None =
      True # map (\<lambda>i. 1 + int i \<le> limit) [1..<Suc (length ts)]"
    using run_entry_within_window[OF assms(1) near] len assms(1) by (simp add: sw_step_def)
  also have "\<dots> = map (\<lambda>i. int i < limit) [0..<Suc (length ts)]"
    using assms(1) by (subst upt_conv_Cons[of 0]) (auto simp del: upt_Suc)
  finally show ?thesis
    using sw.key_independent[of key calls "Some (NewSlidingWindow limit window)"] assms(4)
    by (simp add: sw_cfg_def sw_entry_def NewSlidingWindow_def)
qed

theorem SlidingWindow_admits_first_limit_witness:
  "results_for ''a'' [(0, ''a''), (1, ''b''), (2, ''a''), (3, ''a'')]
     (run_ops SlidingWindow_Allow [(0, ''a''), (1, ''b''), (2, ''a''), (3, ''a'')]
        (Some (NewSlidingWindow 2 second))) = [True, True, False]"
  using SlidingWindow_admits_first_limit[of 2 second "''a''"
      "[(0, ''a''), (1, ''b''), (2, ''a''), (3, ''a'')]" 0 "[2, 3]"] by simp

text \<open>
  From any state of the limiter, a key is admitted at most \<open>2 * limit\<close> times in any stretch of
  calls shorter than the window (the window is fixed, not sliding: a burst may straddle a reset).
\<close>

theorem SlidingWindow_stretch_bound:
  assumes "0 < sw_limit w" and "0 < sw_window w" and "sw_window w < 2 ^ 63"
    and "sorted (map fst (filter (\<lambda>c. snd c = key) calls))"
    and "\<forall>t \<in> fst ` set calls. \<forall>t' \<in> fst ` set calls. t' - t < sw_window w"
    and "\<forall>e. sw_entries w key = Some e \<longrightarrow> 0 \<le> we_count e \<and> we_count e + int (length calls) < 2 ^ 63"
    and "int (length calls) < 2 ^ 63"
  shows "int (count_true (results_for key calls (run_ops SlidingWindow_Allow calls (Some w)))) \<le> 2 * sw_limit w"
proof -
  let ?ts = "map fst (filter (\<lambda>c. snd c = key) calls)"
  have len: "length ?ts \<le> length calls" by simp
  have sub: "set ?ts \<subseteq> fst ` set calls" by auto
  have near: "\<forall>t \<in> set ?ts. \<forall>t' \<in> set ?ts. time_sub t' t < sw_window w"
  proof (intro ballI)
    fix t t' assume "t \<in> set ?ts" "t' \<in> set ?ts"
    then have "t \<in> fst ` set calls" "t' \<in> fst ` set calls" using sub by (auto simp only: subset_iff)
    then have "t' - t < sw_window w" by (rule bspec[OF bspec[OF assms(5)]])
    then show "time_sub t' t < sw_window w" using assms(2,3) by (simp add: time_sub_less_iff)
  qed
  have "case sw_entries w key of None \<Rightarrow> int (length ?ts) < 2 ^ 63
     | Some e \<Rightarrow> 0 \<le> we_count e \<and> we_count e + int (length ?ts) < 2 ^ 63"
  proof (cases "sw_entries w key")
    case None
    moreover have "int (length ?ts) < 2 ^ 63" using assms(7) len by linarith
    ultimately show ?thesis by simp
  next
    case (Some e)
    then have "0 \<le> we_count e \<and> we_count e + int (length calls) < 2 ^ 63" using assms(6) by simp
    moreover have "we_count e + int (length ?ts) < 2 ^ 63" using len calculation by linarith
    ultimately show ?thesis using Some by simp
  qed
  from admitted_any_stretch[OF assms(1,4) near this]
  have "int (count_true (run_entry (sw_step (Some (sw_limit w, sw_window w))) ?ts (sw_entries w key)))
      \<le> 2 * sw_limit w"
  proof (rule order_trans)
    show "(case sw_entries w key of None \<Rightarrow> sw_limit w | Some e \<Rightarrow> sw_limit w + max 0 (sw_limit w - we_count e))
        \<le> 2 * sw_limit w"
      using assms(1,6) by (cases "sw_entries w key") auto
  qed
  then show ?thesis
    by (simp add: sw.key_independent sw_cfg_def sw_entry_def)
qed

theorem SlidingWindow_stretch_bound_witness:
  "int (count_true (results_for ''a'' [(900000000, ''a''), (950000000, ''a''), (1000000000, ''a''), (1100000000, ''a''), (1200000000, ''a'')]
     (run_ops SlidingWindow_Allow [(900000000, ''a''), (950000000, ''a''), (1000000000, ''a''), (1100000000, ''a''), (1200000000, ''a'')]
        (Some \<lparr>sw_limit = 2, sw_window = second, sw_entries = [''a'' \<mapsto> \<lparr>we_start = 0, we_count = 0\<rparr>]\<rparr>)))) \<le> 2 * 2"
  using SlidingWindow_stretch_bound[of "\<lparr>sw_limit = 2, sw_window = second, sw_entries = [''a'' \<mapsto> \<lparr>we_start = 0, we_count = 0\<rparr>]\<rparr>"
      "''a''" "[(900000000, ''a''), (950000000, ''a''), (1000000000, ''a''), (1100000000, ''a''), (1200000000, ''a'')]"]
  by simp

text \<open>
  Under every interleaving of goroutines in the compare-and-swap loop and in
  \<^verbatim>\<open>Release\<close>, the semaphore's counter is the number of holders and never exceeds the maximum.
\<close>

theorem Semaphore_never_exceeds_max:
  assumes "sem_reach mx (s, pc)" and "0 \<le> mx" and "mx < 2 ^ 63"
  shows "finite (sem_holders pc) \<and> sem_current s = int (card (sem_holders pc)) \<and>
         int (card (sem_holders pc)) \<le> mx"
  using sem_reach_inv[OF assms] by (auto simp: sem_inv_def)

theorem Semaphore_never_exceeds_max_witness:
  "int (card (sem_holders ((\<lambda>_. SemIdle)(0 := SemHeld, 1 := SemLoaded 0)))) \<le> 1"
proof -
  let ?s = "\<lparr>sem_max = 1, sem_current = 0\<rparr>"
  have 0: "sem_reach 1 (?s, \<lambda>_. SemIdle)"
    using sem_start[of 1] by (simp add: NewSemaphore_def)
  have 1: "sem_reach 1 (?s, (\<lambda>_. SemIdle)(1 := SemLoaded 0))"
    using sem_next[OF 0] sem_load[of "\<lambda>_. SemIdle" 1 ?s] by simp
  have 2: "sem_reach 1 (?s, (\<lambda>_. SemIdle)(1 := SemLoaded 0, 0 := SemLoaded 0))"
    using sem_next[OF 1] sem_load[of "(\<lambda>_. SemIdle)(1 := SemLoaded 0)" 0 ?s] by simp
  have "sem_reach 1 (\<lparr>sem_max = 1, sem_current = 1\<rparr>, (\<lambda>_. SemIdle)(1 := SemLoaded 0, 0 := SemLoaded 0, 0 := SemHeld))"
    using sem_next[OF 2] sem_swap[of "(\<lambda>_. SemIdle)(1 := SemLoaded 0, 0 := SemLoaded 0)" 0 ?s] by simp
  then have "sem_reach 1 (\<lparr>sem_max = 1, sem_current = 1\<rparr>, (\<lambda>_. SemIdle)(0 := SemHeld, 1 := SemLoaded 0))"
    by (simp add: fun_upd_twist)
  from Semaphore_never_exceeds_max[OF this] show ?thesis by simp
qed

end
