(* ===== verification/Go_Float.thy ===== *)
theory Go_Float
  imports Complex_Main Wisp_Prelude "HOL-Library.Log_Nat"
begin

text \<open>
  Go's \<^verbatim>\<open>float64\<close> where the server uses it: finite, non-negative values in the normal
  range, as exact rationals. \<open>rnd64\<close> rounds an exact result to the nearest value with a 53-bit
  significand, ties to even; Go's \<^verbatim>\<open>int(x)\<close> truncates. The range of the exponent is left
  out: the quotients and products of the source stay far inside it.
\<close>

section \<open>Rounding to nearest, ties to even\<close>

definition round_half_even :: "rat \<Rightarrow> int" where
  "round_half_even x =
     (let n = \<lfloor>x\<rfloor>; f = x - of_int n in
      if f < 1 / 2 then n else if 1 / 2 < f then n + 1 else if even n then n else n + 1)"

definition two_pow :: "int \<Rightarrow> rat" where
  "two_pow e = (if 0 \<le> e then 2 ^ nat e else 1 / 2 ^ nat (- e))"

text \<open>The binary exponent: \<open>two_pow e \<le> x < two_pow (e + 1)\<close> for a positive \<open>x\<close>.\<close>

definition exponent2 :: "rat \<Rightarrow> int" where
  "exponent2 x =
     (let (p, q) = quotient_of x; k = bitlen p - bitlen q in
      if two_pow k \<le> x then k else k - 1)"

definition rnd64 :: "rat \<Rightarrow> rat" where
  "rnd64 x =
     (if x \<le> 0 then 0
      else (let ulp = two_pow (exponent2 x - 52) in of_int (round_half_even (x / ulp)) * ulp))"

definition f64_of_int :: "int \<Rightarrow> rat" where "f64_of_int i = rnd64 (of_int i)"
definition f64_div :: "rat \<Rightarrow> rat \<Rightarrow> rat" where "f64_div a b = rnd64 (a / b)"
definition f64_mul :: "rat \<Rightarrow> rat \<Rightarrow> rat" where "f64_mul a b = rnd64 (a * b)"
definition f64_add :: "rat \<Rightarrow> rat \<Rightarrow> rat" where "f64_add a b = rnd64 (a + b)"

text \<open>\<^verbatim>\<open>int(x)\<close> and \<^verbatim>\<open>time.Duration(x)\<close>\<close>

definition f64_to_int :: "rat \<Rightarrow> int" where
  "f64_to_int x = (if 0 \<le> x then \<lfloor>x\<rfloor> else \<lceil>x\<rceil>)"

section \<open>Lemmas\<close>

lemma two_pow_pos [simp]: "0 < two_pow e"
  by (simp add: two_pow_def)

lemma round_half_even_nonneg: "0 \<le> x \<Longrightarrow> 0 \<le> round_half_even x"
  by (auto simp: round_half_even_def Let_def)

lemma rnd64_nonneg: "0 \<le> rnd64 x"
proof (cases "x \<le> 0")
  case False
  then have "0 \<le> round_half_even (x / two_pow (exponent2 x - 52))"
    by (intro round_half_even_nonneg) (simp add: less_imp_le)
  then show ?thesis using False
    by (simp add: rnd64_def Let_def less_imp_le)
qed (simp add: rnd64_def)

lemma rnd64_zero [simp]: "rnd64 0 = 0"
  by (simp add: rnd64_def)

lemma f64_to_int_nonneg: "0 \<le> x \<Longrightarrow> 0 \<le> f64_to_int x"
  by (simp add: f64_to_int_def)

lemma round_half_even_of_int [simp]: "round_half_even (of_int n) = n"
  by (simp add: round_half_even_def Let_def)

lemma rnd64_one [simp]: "rnd64 1 = 1"
  by code_simp

end
