(* ===== verification/Bandwidth.thy ===== *)
theory Bandwidth
  imports Go_Float
begin

text \<open>
  \<^verbatim>\<open>wisp/bandwidth.go\<close>: the byte-rate limiter, a virtual clock for each key that runs
  ahead by the cost of the bytes it lets through. A nil limiter is \<open>None\<close>. \<^verbatim>\<open>Wait\<close>
  reads the clock before taking the mutex (\<open>now\<close>) and again for the delay (\<open>now'\<close>); its
  critical section is \<open>reserve\<close>. Which ready case the final \<^verbatim>\<open>select\<close> takes is the
  argument \<open>stopped\<close>.
\<close>

section \<open>The limiter\<close>

record bandwidthBucket =
  bb_next :: gotime
  bb_lastSeen :: gotime

record BandwidthLimiter =
  bytesPerSecond :: rat
  burst :: duration
  buckets :: "string \<rightharpoonup> bandwidthBucket"

definition NewBandwidthLimiter :: "int \<Rightarrow> BandwidthLimiter option" where
  "NewBandwidthLimiter bps =
     (if bps \<le> 0 then None
      else Some \<lparr>bytesPerSecond = f64_of_int bps, burst = second, buckets = Map.empty\<rparr>)"

definition bandwidth_cost :: "rat \<Rightarrow> int \<Rightarrow> duration" where
  "bandwidth_cost bps sz =
     f64_to_int (f64_mul (f64_div (f64_of_int sz) bps) (f64_of_int second))"

text \<open>The instant up to which the caller has to wait; \<open>None\<close> when it returns at once.\<close>

definition reserve ::
  "gotime \<times> int \<Rightarrow> string \<Rightarrow> BandwidthLimiter option \<Rightarrow> gotime option \<times> BandwidthLimiter option" where
  "reserve req key l0 =
     (case l0 of
        None \<Rightarrow> (None, None)
      | Some l \<Rightarrow>
          (let (now, sz) = req; cost = bandwidth_cost (bytesPerSecond l) sz in
           if sz \<le> 0 \<or> cost \<le> 0 then (None, Some l)
           else
             (let bucket = (case buckets l key of None \<Rightarrow> \<lparr>bb_next = zero_time, bb_lastSeen = zero_time\<rparr> | Some b \<Rightarrow> b);
                  earliest = now - burst l;
                  start = (if bb_next bucket < earliest then earliest else bb_next bucket);
                  finish = start + cost
              in (Some finish, Some (l\<lparr>buckets := (buckets l)(key \<mapsto> \<lparr>bb_next = finish, bb_lastSeen = now\<rparr>)\<rparr>)))))"

definition BandwidthLimiter_Wait ::
  "gotime \<Rightarrow> gotime \<Rightarrow> bool \<Rightarrow> string \<Rightarrow> int \<Rightarrow> BandwidthLimiter option \<Rightarrow> bool \<times> BandwidthLimiter option" where
  "BandwidthLimiter_Wait now now' stopped key sz l =
     (case reserve (now, sz) key l of
        (None, l') \<Rightarrow> (True, l')
      | (Some finish, l') \<Rightarrow> if time_sub finish now' \<le> 0 then (True, l') else (\<not> stopped, l'))"

definition BandwidthLimiter_Evict ::
  "gotime \<Rightarrow> duration \<Rightarrow> BandwidthLimiter option \<Rightarrow> BandwidthLimiter option" where
  "BandwidthLimiter_Evict now idle l =
     (case l of
        None \<Rightarrow> None
      | Some l \<Rightarrow> Some (l\<lparr>buckets := delete_where (\<lambda>_ b. bb_lastSeen b < now - idle) (buckets l)\<rparr>))"

section \<open>One bucket\<close>

definition bw_cfg :: "BandwidthLimiter option \<Rightarrow> (rat \<times> duration) option" where
  "bw_cfg = map_option (\<lambda>l. (bytesPerSecond l, burst l))"

definition bw_entry :: "BandwidthLimiter option \<Rightarrow> string \<Rightarrow> bandwidthBucket option" where
  "bw_entry l k = Option.bind l (\<lambda>l. buckets l k)"

definition bw_next :: "bandwidthBucket option \<Rightarrow> gotime" where
  "bw_next b = (case b of None \<Rightarrow> zero_time | Some b \<Rightarrow> bb_next b)"

definition bw_step ::
  "(rat \<times> duration) option \<Rightarrow> gotime \<times> int \<Rightarrow> bandwidthBucket option \<Rightarrow> gotime option \<times> bandwidthBucket option" where
  "bw_step cfg req b =
     (case cfg of
        None \<Rightarrow> (None, b)
      | Some (bps, bst) \<Rightarrow>
          if snd req \<le> 0 \<or> bandwidth_cost bps (snd req) \<le> 0 then (None, b)
          else (let finish = max (bw_next b) (fst req - bst) + bandwidth_cost bps (snd req)
                in (Some finish, Some \<lparr>bb_next = finish, bb_lastSeen = fst req\<rparr>)))"

interpretation bw: keyed_store bw_entry bw_cfg reserve bw_step
  by unfold_locales
     (auto simp: bw_entry_def bw_cfg_def reserve_def bw_step_def bw_next_def Let_def max_def
       split: option.splits)

text \<open>The cost of the requests of a run whose wait is over by \<open>T\<close>.\<close>

fun paid_cost :: "rat \<Rightarrow> gotime \<Rightarrow> (gotime \<times> int) list \<Rightarrow> gotime option list \<Rightarrow> int" where
  "paid_cost bps T (q # qs) (r # rs) =
     (case r of None \<Rightarrow> 0 | Some finish \<Rightarrow> if finish \<le> T then bandwidth_cost bps (snd q) else 0)
     + paid_cost bps T qs rs"
| "paid_cost bps T _ _ = 0"

lemma paid_cost_bound:
  assumes "\<forall>q \<in> set qs. t0 \<le> fst q"
  shows "paid_cost bps T qs (run_entry (bw_step (Some (bps, bst))) qs b) \<le> max 0 (T - max (t0 - bst) (bw_next b))"
  using assms
proof (induction qs arbitrary: b)
  case Nil
  then show ?case by simp
next
  case (Cons q qs)
  show ?case
  proof (cases "snd q \<le> 0 \<or> bandwidth_cost bps (snd q) \<le> 0")
    case True
    then have "bw_step (Some (bps, bst)) q b = (None, b)" by (auto simp: bw_step_def)
    then show ?thesis using Cons by simp
  next
    case False
    define finish where "finish = max (bw_next b) (fst q - bst) + bandwidth_cost bps (snd q)"
    have step: "bw_step (Some (bps, bst)) q b = (Some finish, Some \<lparr>bb_next = finish, bb_lastSeen = fst q\<rparr>)"
      using False by (auto simp: bw_step_def finish_def Let_def)
    have "paid_cost bps T qs (run_entry (bw_step (Some (bps, bst))) qs (Some \<lparr>bb_next = finish, bb_lastSeen = fst q\<rparr>))
        \<le> max 0 (T - finish)"
      using Cons.IH[of "Some \<lparr>bb_next = finish, bb_lastSeen = fst q\<rparr>"] Cons.prems by (auto simp: bw_next_def)
    moreover have "t0 \<le> fst q" using Cons.prems by simp
    ultimately show ?thesis
      using False by (auto simp: step finish_def)
  qed
qed

section \<open>Properties\<close>

text \<open>
  C27: From any state of the limiter, the requests of one key that are issued from \<open>t0\<close> on and
  whose wait is over by \<open>T\<close> cost at most the elapsed time plus the burst: the long-run rate is
  the configured one, whatever the other keys do.
\<close>

theorem Bandwidth_rate_bound:
  assumes "\<forall>c \<in> set calls. t0 \<le> fst (fst c)"
  shows "paid_cost (bytesPerSecond l) T (map fst (filter (\<lambda>c. snd c = key) calls))
           (results_for key calls (run_ops reserve calls (Some l))) \<le> max 0 (T - t0 + burst l)"
proof -
  have "\<forall>q \<in> set (map fst (filter (\<lambda>c. snd c = key) calls)). t0 \<le> fst q" using assms by auto
  from paid_cost_bound[OF this, of "bytesPerSecond l" T "burst l" "bw_entry (Some l) key"]
  show ?thesis by (auto simp: bw.key_independent bw_cfg_def)
qed

theorem Bandwidth_rate_bound_witness:
  "paid_cost 125000 5000000000 [(1000000000, 125000)]
     (results_for ''a'' [((1000000000, 125000), ''a''), ((1000000000, 99), ''b'')]
       (run_ops reserve [((1000000000, 125000), ''a''), ((1000000000, 99), ''b'')]
         (Some \<lparr>bytesPerSecond = 125000, burst = second, buckets = Map.empty\<rparr>))) \<le> 5000000000"
  using Bandwidth_rate_bound[of "[((1000000000, 125000), ''a''), ((1000000000, 99), ''b'')]" 1000000000
      "\<lparr>bytesPerSecond = 125000, burst = second, buckets = Map.empty\<rparr>" 5000000000 "''a''"]
  by simp

end
