(* ===== verification/Reputation.thy ===== *)
theory Reputation
  imports Server_Config Go_Float
begin

text \<open>
  \<^verbatim>\<open>wisp/reputation.go\<close>: scores of sources and destinations. A nil
  \<^verbatim>\<open>*Reputation\<close> is \<open>None\<close>; every method holds the mutex, so each is one step;
  \<^verbatim>\<open>time.Now()\<close> is the argument \<open>now\<close>. A nil map of events or of seen
  sources (an entry read from the store file) is \<open>None\<close>. \<open>Load\<close> takes the outcome
  of reading and decoding the store file; writing it is in \<open>Reputation_Store\<close>.
\<close>

section \<open>State\<close>

record SourceEntry =
  se_Score :: int
  se_FirstSeen :: gotime
  se_LastSeen :: gotime
  se_Events :: "(string \<rightharpoonup> int) option"

record DestEntry =
  de_Score :: int
  de_FirstSeen :: gotime
  de_LastSeen :: gotime
  de_Events :: "(string \<rightharpoonup> int) option"
  DistinctSources :: int
  SeenSources :: "(string \<rightharpoonup> bool) option"

record reputation =
  rep_cfg :: ReputationConfig
  sources :: "string \<rightharpoonup> SourceEntry"
  dests :: "string \<rightharpoonup> DestEntry"
  lastDecay :: gotime

definition NewReputation :: "gotime \<Rightarrow> ReputationConfig \<Rightarrow> reputation option" where
  "NewReputation now cfg =
     Some \<lparr>rep_cfg = cfg, sources = Map.empty, dests = Map.empty, lastDecay = now\<rparr>"

definition clampScore :: "int \<Rightarrow> int" where
  "clampScore v = (if v < 0 then 0 else if 100 < v then 100 else v)"

text \<open>\<^verbatim>\<open>m[k]\<close> on a Go map of integers: zero for an absent key.\<close>

definition weight_of :: "(string \<times> int) list \<Rightarrow> string \<Rightarrow> int" where
  "weight_of m k = (case map_of m k of None \<Rightarrow> 0 | Some w \<Rightarrow> w)"

definition count_event :: "string \<Rightarrow> (string \<rightharpoonup> int) option \<Rightarrow> (string \<rightharpoonup> int) option" where
  "count_event reason m =
     (let m' = (case m of None \<Rightarrow> Map.empty | Some m \<Rightarrow> m);
          n = (case m' reason of None \<Rightarrow> 0 | Some n \<Rightarrow> n)
      in Some (m'(reason \<mapsto> wrap64 (n + 1))))"

section \<open>Recording events\<close>

definition touch_source :: "gotime \<Rightarrow> string \<Rightarrow> int \<Rightarrow> SourceEntry option \<Rightarrow> SourceEntry" where
  "touch_source now reason w e0 =
     (let e = (case e0 of
                 None \<Rightarrow> \<lparr>se_Score = 0, se_FirstSeen = now, se_LastSeen = zero_time, se_Events = Some Map.empty\<rparr>
               | Some e \<Rightarrow> e)
      in e\<lparr>se_LastSeen := now, se_Events := count_event reason (se_Events e),
           se_Score := clampScore (wrap64 (se_Score e + w))\<rparr>)"

definition AddSource :: "gotime \<Rightarrow> string \<Rightarrow> string \<Rightarrow> reputation option \<Rightarrow> reputation option" where
  "AddSource now key reason r =
     (case r of
        None \<Rightarrow> None
      | Some r \<Rightarrow>
          Some (r\<lparr>sources := (sources r)(key \<mapsto>
            touch_source now reason (weight_of (Weights (rep_cfg r)) reason) (sources r key))\<rparr>))"

definition dest_key :: "string \<Rightarrow> int \<Rightarrow> string" where
  "dest_key ip port = ip @ '':'' @ format_int port"

definition see_source :: "int \<Rightarrow> string \<Rightarrow> DestEntry \<Rightarrow> DestEntry" where
  "see_source esc s e =
     (let seen = (case SeenSources e of None \<Rightarrow> Map.empty | Some m \<Rightarrow> m) in
      if seen s = Some True then e
      else (let e' = e\<lparr>SeenSources := Some (seen(s \<mapsto> True)), DistinctSources := wrap64 (DistinctSources e + 1)\<rparr>
            in if esc \<noteq> 0 then e'\<lparr>de_Score := clampScore (wrap64 (de_Score e' + esc))\<rparr> else e'))"

definition touch_dest ::
  "gotime \<Rightarrow> string \<Rightarrow> int \<Rightarrow> int \<Rightarrow> ip \<Rightarrow> DestEntry option \<Rightarrow> DestEntry" where
  "touch_dest now reason w esc srcIP e0 =
     (let e = (case e0 of
                 None \<Rightarrow> \<lparr>de_Score = 0, de_FirstSeen = now, de_LastSeen = zero_time, de_Events = Some Map.empty,
                         DistinctSources = 0, SeenSources = Some Map.empty\<rparr>
               | Some e \<Rightarrow> e);
          e1 = e\<lparr>de_LastSeen := now, de_Events := count_event reason (de_Events e),
                 SeenSources := Some (case SeenSources e of None \<Rightarrow> Map.empty | Some m \<Rightarrow> m),
                 de_Score := clampScore (wrap64 (de_Score e + w))\<rparr>
      in if srcIP \<noteq> [] then see_source esc (IP_String srcIP) e1 else e1)"

definition AddDest ::
  "gotime \<Rightarrow> string \<Rightarrow> int \<Rightarrow> string \<Rightarrow> ip \<Rightarrow> reputation option \<Rightarrow> reputation option" where
  "AddDest now ip port reason srcIP r =
     (case r of
        None \<Rightarrow> None
      | Some r \<Rightarrow>
          (let w = weight_of (DestWeights (rep_cfg r)) reason;
               esc = weight_of (DestWeights (rep_cfg r)) ''distinctSourcesEscalation'';
               key = dest_key ip port
           in Some (r\<lparr>dests := (dests r)(key \<mapsto> touch_dest now reason w esc srcIP (dests r key))\<rparr>)))"

section \<open>Reading scores\<close>

definition SourceScore :: "string \<Rightarrow> reputation option \<Rightarrow> int" where
  "SourceScore key r =
     (case r of None \<Rightarrow> 0 | Some r \<Rightarrow> (case sources r key of Some e \<Rightarrow> se_Score e | None \<Rightarrow> 0))"

definition DestScore :: "string \<Rightarrow> int \<Rightarrow> reputation option \<Rightarrow> int" where
  "DestScore ip port r =
     (case r of None \<Rightarrow> 0 | Some r \<Rightarrow> (case dests r (dest_key ip port) of Some e \<Rightarrow> de_Score e | None \<Rightarrow> 0))"

datatype tier = TierNormal | TierWarn | TierThrottle | TierStrict

text \<open>The constants are \<^verbatim>\<open>iota\<close>: the tiers are ordered as they are declared.\<close>

primrec tier_rank :: "tier \<Rightarrow> nat" where
  "tier_rank TierNormal = 0"
| "tier_rank TierWarn = 1"
| "tier_rank TierThrottle = 2"
| "tier_rank TierStrict = 3"

instantiation tier :: linorder
begin

definition less_eq_tier :: "tier \<Rightarrow> tier \<Rightarrow> bool" where
  "less_eq_tier a b = (tier_rank a \<le> tier_rank b)"

definition less_tier :: "tier \<Rightarrow> tier \<Rightarrow> bool" where
  "less_tier a b = (tier_rank a < tier_rank b)"

instance
proof
  fix a b :: tier
  show "a \<le> b \<Longrightarrow> b \<le> a \<Longrightarrow> a = b"
    by (cases a; cases b) (simp_all add: less_eq_tier_def)
qed (auto simp: less_eq_tier_def less_tier_def)

end

definition Tier :: "reputation option \<Rightarrow> int \<Rightarrow> tier" where
  "Tier r score =
     (case r of
        None \<Rightarrow> TierNormal
      | Some r \<Rightarrow>
          (let t = rc_Thresholds (rep_cfg r) in
           if 0 < Strict t \<and> Strict t \<le> score then TierStrict
           else if 0 < Throttle t \<and> Throttle t \<le> score then TierThrottle
           else if 0 < Warn t \<and> Warn t \<le> score then TierWarn
           else TierNormal))"

section \<open>Decay, eviction and the store\<close>

text \<open>\<^verbatim>\<open>Duration.Hours\<close>\<close>

definition f64_hours :: "duration \<Rightarrow> rat" where
  "f64_hours d = f64_add (f64_of_int (d div hour)) (f64_div (f64_of_int (d mod hour)) 3600000000000)"

definition decay_delta :: "int \<Rightarrow> duration \<Rightarrow> int" where
  "decay_delta perHour elapsed = f64_to_int (f64_mul (f64_of_int perHour) (f64_hours elapsed))"

definition ForceDecay :: "gotime \<Rightarrow> duration \<Rightarrow> reputation option \<Rightarrow> reputation option" where
  "ForceDecay now elapsed r =
     (case r of
        None \<Rightarrow> None
      | Some r \<Rightarrow>
          if DecayPerHour (rep_cfg r) = 0 then Some r
          else
            (let delta = decay_delta (DecayPerHour (rep_cfg r)) elapsed in
             if delta \<le> 0 then Some r
             else Some (r\<lparr>sources := map_option (\<lambda>e. e\<lparr>se_Score := clampScore (wrap64 (se_Score e - delta))\<rparr>) \<circ> sources r,
                          dests := map_option (\<lambda>e. e\<lparr>de_Score := clampScore (wrap64 (de_Score e - delta))\<rparr>) \<circ> dests r,
                          lastDecay := now\<rparr>)))"

definition Reputation_Evict :: "gotime \<Rightarrow> reputation option \<Rightarrow> reputation option" where
  "Reputation_Evict now r =
     (case r of
        None \<Rightarrow> None
      | Some r \<Rightarrow>
          if EvictAfter (rep_cfg r) = 0 then Some r
          else
            (let cutoff = now - EvictAfter (rep_cfg r) in
             Some (r\<lparr>sources := delete_where (\<lambda>_ e. se_Score e < 5 \<and> se_LastSeen e < cutoff) (sources r),
                     dests := delete_where (\<lambda>_ e. de_Score e < 5 \<and> de_LastSeen e < cutoff) (dests r)\<rparr>)))"

text \<open>A store file: its reading and decoding are outside the component.\<close>

record repSnapshot =
  snap_Sources :: "(string \<rightharpoonup> SourceEntry) option"
  snap_Dests :: "(string \<rightharpoonup> DestEntry) option"

datatype store_read = StoreMissing | StoreUnreadable | StoreMalformed | StoreSnapshot repSnapshot

text \<open>The first component is whether \<^verbatim>\<open>Load\<close> returns an error.\<close>

definition Load :: "store_read \<Rightarrow> reputation option \<Rightarrow> bool \<times> reputation option" where
  "Load file r =
     (case r of
        None \<Rightarrow> (False, None)
      | Some r \<Rightarrow>
          if StorePath (rep_cfg r) = [] then (False, Some r)
          else (case file of
                  StoreMissing \<Rightarrow> (False, Some r)
                | StoreUnreadable \<Rightarrow> (True, Some r)
                | StoreMalformed \<Rightarrow> (True, Some r)
                | StoreSnapshot s \<Rightarrow>
                    (False, Some (r\<lparr>sources := (case snap_Sources s of None \<Rightarrow> sources r | Some m \<Rightarrow> m),
                                    dests := (case snap_Dests s of None \<Rightarrow> dests r | Some m \<Rightarrow> m)\<rparr>))))"

text \<open>One tick of \<^verbatim>\<open>RunMaintenance\<close>; \<open>now'\<close> and \<open>now''\<close> are the later clock readings.\<close>

definition maintenance_tick :: "gotime \<Rightarrow> gotime \<Rightarrow> gotime \<Rightarrow> reputation option \<Rightarrow> reputation option" where
  "maintenance_tick now now' now'' r =
     Reputation_Evict now'' (ForceDecay now' (case r of None \<Rightarrow> 0 | Some r0 \<Rightarrow> time_sub now (lastDecay r0)) r)"

section \<open>Invariant\<close>

definition seen_true :: "(string \<rightharpoonup> bool) option \<Rightarrow> string set" where
  "seen_true m = {s. (case m of None \<Rightarrow> False | Some f \<Rightarrow> f s = Some True)}"

definition dest_ok :: "DestEntry \<Rightarrow> bool" where
  "dest_ok e \<longleftrightarrow> 0 \<le> de_Score e \<and> de_Score e \<le> 100 \<and> finite (seen_true (SeenSources e)) \<and>
     DistinctSources e = wrap64 (int (card (seen_true (SeenSources e))))"

definition source_ok :: "SourceEntry \<Rightarrow> bool" where
  "source_ok e \<longleftrightarrow> 0 \<le> se_Score e \<and> se_Score e \<le> 100"

definition rep_ok :: "reputation option \<Rightarrow> bool" where
  "rep_ok r \<longleftrightarrow>
     (case r of None \<Rightarrow> True
      | Some r \<Rightarrow> (\<forall>k e. sources r k = Some e \<longrightarrow> source_ok e) \<and> (\<forall>k e. dests r k = Some e \<longrightarrow> dest_ok e))"

lemma clampScore_range [simp]: "0 \<le> clampScore v" "clampScore v \<le> 100"
  by (simp_all add: clampScore_def)

lemma clampScore_eq: "clampScore v = max 0 (min 100 v)"
  by (auto simp: clampScore_def)

lemma touch_source_ok: "source_ok (touch_source now reason w e)"
  by (simp add: touch_source_def source_ok_def Let_def)

lemma seen_true_simps [simp]:
  "seen_true (Some Map.empty) = {}"
  "seen_true (Some (f(s \<mapsto> True))) = insert s (seen_true (Some f))"
  "seen_true (Some (case m of None \<Rightarrow> Map.empty | Some f \<Rightarrow> f)) = seen_true m"
  by (auto simp: seen_true_def split: option.splits if_splits)

lemma dest_ok_score: "dest_ok e \<Longrightarrow> 0 \<le> v \<Longrightarrow> v \<le> 100 \<Longrightarrow> dest_ok (e\<lparr>de_Score := v\<rparr>)"
  by (simp add: dest_ok_def)

lemma see_source_ok:
  assumes "dest_ok e" shows "dest_ok (see_source esc s e)"
proof (cases "s \<in> seen_true (SeenSources e)")
  case True
  then have "see_source esc s e = e"
    by (auto simp: see_source_def seen_true_def split: option.splits)
  then show ?thesis using assms by simp
next
  case False
  then have "(case SeenSources e of None \<Rightarrow> Map.empty | Some m \<Rightarrow> m) s \<noteq> Some True"
    by (auto simp: seen_true_def split: option.splits)
  then show ?thesis using assms False
    by (simp add: see_source_def dest_ok_def Let_def add.commute)
qed

lemma touch_dest_ok:
  assumes "\<And>e0. e = Some e0 \<Longrightarrow> dest_ok e0"
  shows "dest_ok (touch_dest now reason w esc srcIP e)"
proof -
  define e0 where "e0 = (case e of
      None \<Rightarrow> \<lparr>de_Score = 0, de_FirstSeen = now, de_LastSeen = zero_time, de_Events = Some Map.empty,
              DistinctSources = 0, SeenSources = Some Map.empty\<rparr> | Some e \<Rightarrow> e)"
  define e1 where "e1 = e0\<lparr>de_LastSeen := now, de_Events := count_event reason (de_Events e0),
      SeenSources := Some (case SeenSources e0 of None \<Rightarrow> Map.empty | Some m \<Rightarrow> m),
      de_Score := clampScore (wrap64 (de_Score e0 + w))\<rparr>"
  have "dest_ok e0" using assms by (simp add: e0_def dest_ok_def split: option.splits)
  then have "dest_ok e1" by (simp add: e1_def dest_ok_def)
  moreover have "touch_dest now reason w esc srcIP e = (if srcIP \<noteq> [] then see_source esc (IP_String srcIP) e1 else e1)"
    by (simp add: touch_dest_def Let_def e0_def e1_def)
  ultimately show ?thesis by (simp add: see_source_ok)
qed

lemma NewReputation_ok [inv_intros]: "rep_ok (NewReputation now cfg)"
  by (simp add: NewReputation_def rep_ok_def)

lemma AddSource_ok [inv_intros]: "rep_ok r \<Longrightarrow> rep_ok (AddSource now key reason r)"
  by (auto simp: AddSource_def rep_ok_def touch_source_ok split: option.splits)

lemma AddDest_ok [inv_intros]: "rep_ok r \<Longrightarrow> rep_ok (AddDest now ip port reason srcIP r)"
  by (auto simp: AddDest_def rep_ok_def Let_def intro!: touch_dest_ok split: option.splits)

lemma ForceDecay_ok [inv_intros]: "rep_ok r \<Longrightarrow> rep_ok (ForceDecay now elapsed r)"
  by (auto simp: ForceDecay_def rep_ok_def Let_def source_ok_def intro!: dest_ok_score split: option.splits)

lemma Reputation_Evict_ok [inv_intros]: "rep_ok r \<Longrightarrow> rep_ok (Reputation_Evict now r)"
  by (auto simp: Reputation_Evict_def rep_ok_def Let_def split: option.splits)

datatype rep_op =
    OpSource gotime string string
  | OpDest gotime string int string ip
  | OpTick gotime gotime gotime

primrec apply_op :: "rep_op \<Rightarrow> reputation option \<Rightarrow> reputation option" where
  "apply_op (OpSource now key reason) = AddSource now key reason"
| "apply_op (OpDest now ip port reason srcIP) = AddDest now ip port reason srcIP"
| "apply_op (OpTick now now' now'') = maintenance_tick now now' now''"

lemma apply_ops_ok: "rep_ok r \<Longrightarrow> rep_ok (fold apply_op ops r)"
proof (induction ops arbitrary: r)
  case (Cons a ops)
  then show ?case by (cases a) (auto simp: maintenance_tick_def intro!: inv_intros Cons.IH)
qed simp

section \<open>Sources as a keyed store\<close>

definition source_entry :: "reputation option \<Rightarrow> string \<Rightarrow> SourceEntry option" where
  "source_entry r k = Option.bind r (\<lambda>r. sources r k)"

definition rep_weights :: "reputation option \<Rightarrow> (string \<times> int) list option" where
  "rep_weights = map_option (\<lambda>r. Weights (rep_cfg r))"

definition AddSource_call :: "gotime \<times> string \<Rightarrow> string \<Rightarrow> reputation option \<Rightarrow> unit \<times> reputation option" where
  "AddSource_call a key r = ((), AddSource (fst a) key (snd a) r)"

definition source_step ::
  "(string \<times> int) list option \<Rightarrow> gotime \<times> string \<Rightarrow> SourceEntry option \<Rightarrow> unit \<times> SourceEntry option" where
  "source_step ws a e =
     ((), case ws of None \<Rightarrow> e | Some ws \<Rightarrow> Some (touch_source (fst a) (snd a) (weight_of ws (snd a)) e))"

interpretation src: keyed_store source_entry rep_weights AddSource_call source_step
  by unfold_locales
     (auto simp: source_entry_def rep_weights_def AddSource_call_def source_step_def AddSource_def
       split: option.splits)

definition entry_score :: "SourceEntry option \<Rightarrow> int" where
  "entry_score e = (case e of None \<Rightarrow> 0 | Some e \<Rightarrow> se_Score e)"

lemma SourceScore_entry: "SourceScore k r = entry_score (source_entry r k)"
  by (auto simp: SourceScore_def entry_score_def source_entry_def split: option.splits)

lemma entry_after_scores:
  assumes "\<forall>a \<in> set as. 0 \<le> weight_of ws (snd a) \<and> weight_of ws (snd a) < 2 ^ 62"
    and "0 \<le> entry_score e" "entry_score e \<le> 100"
  shows "entry_score (entry_after (source_step (Some ws)) as e) =
           min 100 (entry_score e + (\<Sum>a\<leftarrow>as. weight_of ws (snd a)))"
  using assms
proof (induction as arbitrary: e)
  case Nil
  then show ?case by simp
next
  case (Cons a as)
  let ?e = "snd (source_step (Some ws) a e)"
  have w: "0 \<le> weight_of ws (snd a)" "weight_of ws (snd a) < 2 ^ 62" using Cons.prems(1) by auto
  have s: "entry_score ?e = min 100 (entry_score e + weight_of ws (snd a))"
    using w Cons.prems(2,3)
    by (cases e) (simp_all add: source_step_def entry_score_def touch_source_def Let_def clampScore_eq)
  have sum: "0 \<le> (\<Sum>a\<leftarrow>as. weight_of ws (snd a))"
    using Cons.prems(1) by (intro sum_list_nonneg) auto
  have "entry_score (entry_after (source_step (Some ws)) as ?e) =
      min 100 (entry_score ?e + (\<Sum>a\<leftarrow>as. weight_of ws (snd a)))"
    using Cons.prems s w by (intro Cons.IH) auto
  then show ?case using s w sum by auto
qed

lemma Tier_mono: "score \<le> score' \<Longrightarrow> Tier r score \<le> Tier r score'"
  by (auto simp: Tier_def Let_def less_eq_tier_def split: option.splits)

section \<open>Properties\<close>

text \<open>
  Whatever events are recorded and whenever maintenance runs, every score stays between 0
  and 100 and the counter of distinct sources of a destination is the number of source addresses
  seen there.
\<close>

theorem Reputation_invariant: "rep_ok (fold apply_op ops (NewReputation now cfg))"
  by (intro apply_ops_ok inv_intros)

text \<open>
  With non-negative weights the score of a source is the sum of the weights of its own
  events, saturated at 100, whatever is recorded for other sources in between.
\<close>

theorem SourceScore_saturating_sum:
  assumes "\<forall>c \<in> set calls. 0 \<le> weight_of (Weights cfg) (snd (fst c)) \<and> weight_of (Weights cfg) (snd (fst c)) < 2 ^ 62"
  shows "SourceScore key (run_state AddSource_call calls (NewReputation now cfg)) =
    min 100 (\<Sum>c\<leftarrow>filter (\<lambda>c. snd c = key) calls. weight_of (Weights cfg) (snd (fst c)))"
proof -
  have "entry_score (entry_after (source_step (Some (Weights cfg)))
      (map fst (filter (\<lambda>c. snd c = key) calls)) None) =
      min 100 (\<Sum>a\<leftarrow>map fst (filter (\<lambda>c. snd c = key) calls). weight_of (Weights cfg) (snd a))"
    using assms entry_after_scores[of "map fst (filter (\<lambda>c. snd c = key) calls)" "Weights cfg" None]
    by (auto simp: entry_score_def)
  moreover have "source_entry (NewReputation now cfg) key = None"
      "rep_weights (NewReputation now cfg) = Some (Weights cfg)"
    by (simp_all add: source_entry_def rep_weights_def NewReputation_def)
  ultimately show ?thesis
    by (simp add: SourceScore_entry src.view_after comp_def)
qed

theorem SourceScore_saturating_sum_witness:
  "SourceScore ''a'' (run_state AddSource_call
     [((1, ''x''), ''a''), ((2, ''x''), ''b''), ((3, ''x''), ''a'')]
     (NewReputation 0 \<lparr>rc_Enabled = True, StorePath = [], DecayPerHour = 0, EvictAfter = 0, EvictDays = 0,
        Weights = [(''x'', 7)], DestWeights = [], rc_Thresholds = \<lparr>Warn = 1, Throttle = 2, Strict = 3\<rparr>,
        SaveIntervalSeconds = 30\<rparr>)) = 14"
  using SourceScore_saturating_sum[of "[((1, ''x''), ''a''), ((2, ''x''), ''b''), ((3, ''x''), ''a'')]"
      "\<lparr>rc_Enabled = True, StorePath = [], DecayPerHour = 0, EvictAfter = 0, EvictDays = 0,
        Weights = [(''x'', 7)], DestWeights = [], rc_Thresholds = \<lparr>Warn = 1, Throttle = 2, Strict = 3\<rparr>,
        SaveIntervalSeconds = 30\<rparr>" "''a''" 0]
  by (simp add: weight_of_def)

end
