(* ===== verification/Signature.thy ===== *)
theory Signature
  imports Go_Net Go_Float
begin

text \<open>
  \<^verbatim>\<open>wisp/signature.go\<close>: the detectors of failed handshakes, one for each connection and
  destination. Detectors are reached through the map only, so a detector is a value there;
  \<open>Signature_For\<close> returns the key of the detector, or \<open>None\<close> for \<^verbatim>\<open>nopDetector\<close>,
  whose window is zero.
\<close>

section \<open>Detectors\<close>

record SignatureConfig =
  sig_Enabled :: bool
  sig_Window :: duration
  sig_MinSamples :: int
  sig_FailedHandshakeRatio :: rat

record sample =
  smp_t :: gotime
  smp_ok :: bool

record Detector =
  det_cfg :: SignatureConfig
  ring :: "sample list"

record signatures =
  sig_cfg :: SignatureConfig
  per :: "string \<rightharpoonup> Detector"

definition NewSignatures :: "SignatureConfig \<Rightarrow> signatures option" where
  "NewSignatures cfg = Some \<lparr>sig_cfg = cfg, per = Map.empty\<rparr>"

definition signature_prefix :: "nat \<Rightarrow> string" where
  "signature_prefix connID = dec_digits connID @ ''|''"

definition signature_key :: "nat \<Rightarrow> string \<Rightarrow> int \<Rightarrow> string" where
  "signature_key connID dstIP dstPort = dec_digits connID @ ''|'' @ dstIP @ '':'' @ format_int dstPort"

definition Signature_For ::
  "nat \<Rightarrow> string \<Rightarrow> int \<Rightarrow> signatures option \<Rightarrow> string option \<times> signatures option" where
  "Signature_For connID dstIP dstPort s =
     (case s of
        None \<Rightarrow> (None, None)
      | Some s \<Rightarrow>
          if \<not> sig_Enabled (sig_cfg s) then (None, Some s)
          else (let key = signature_key connID dstIP dstPort in
                case per s key of
                  Some d \<Rightarrow> (Some key, Some s)
                | None \<Rightarrow> (Some key, Some (s\<lparr>per := (per s)(key \<mapsto> \<lparr>det_cfg = sig_cfg s, ring = []\<rparr>)\<rparr>))))"

definition Forget :: "nat \<Rightarrow> signatures option \<Rightarrow> signatures option" where
  "Forget connID s =
     (case s of
        None \<Rightarrow> None
      | Some s \<Rightarrow> Some (s\<lparr>per := delete_where (\<lambda>k _. has_prefix k (signature_prefix connID)) (per s)\<rparr>))"

definition Detector_Record :: "gotime \<Rightarrow> bool \<Rightarrow> Detector option \<Rightarrow> Detector option" where
  "Detector_Record now success d =
     (case d of
        None \<Rightarrow> None
      | Some d \<Rightarrow>
          if sig_Window (det_cfg d) = 0 then Some d
          else Some (d\<lparr>ring := dropWhile (\<lambda>s. smp_t s < now - sig_Window (det_cfg d))
                                (ring d @ [\<lparr>smp_t = now, smp_ok = success\<rparr>])\<rparr>))"

definition Detector_Match :: "Detector option \<Rightarrow> bool" where
  "Detector_Match d =
     (case d of
        None \<Rightarrow> False
      | Some d \<Rightarrow>
          if sig_Window (det_cfg d) = 0 then False
          else if int (length (ring d)) < sig_MinSamples (det_cfg d) then False
          else (let failed = int (length (filter (\<lambda>s. \<not> smp_ok s) (ring d)))
                in sig_FailedHandshakeRatio (det_cfg d)
                     \<le> f64_div (f64_of_int failed) (f64_of_int (int (length (ring d))))))"

text \<open>The use a dial makes of it: look the detector up, record the outcome, ask for a match.\<close>

definition signature_dial ::
  "gotime \<Rightarrow> nat \<Rightarrow> string \<Rightarrow> int \<Rightarrow> bool \<Rightarrow> signatures option \<Rightarrow> bool \<times> signatures option" where
  "signature_dial now connID dstIP dstPort success s =
     (case Signature_For connID dstIP dstPort s of
        (None, s') \<Rightarrow> (False, s')
      | (Some key, None) \<Rightarrow> (False, None)
      | (Some key, Some s') \<Rightarrow>
          (let d = Detector_Record now success (per s' key)
           in (Detector_Match d, Some (s'\<lparr>per := (per s')(key := d)\<rparr>))))"

section \<open>The samples of a detector\<close>

primrec record_all :: "(gotime \<times> bool) list \<Rightarrow> Detector \<Rightarrow> Detector" where
  "record_all [] d = d"
| "record_all (x # xs) d = record_all xs (the (Detector_Record (fst x) (snd x) (Some d)))"

lemma Detector_Record_Some:
  "sig_Window (det_cfg d) \<noteq> 0 \<Longrightarrow> the (Detector_Record t b (Some d)) =
     d\<lparr>ring := dropWhile (\<lambda>s. smp_t s < t - sig_Window (det_cfg d)) (ring d @ [\<lparr>smp_t = t, smp_ok = b\<rparr>])\<rparr>"
  by (simp add: Detector_Record_def)

lemma dropWhile_sorted:
  "sorted (map smp_t xs) \<Longrightarrow> dropWhile (\<lambda>s. smp_t s < c) xs = filter (\<lambda>s. c \<le> smp_t s) xs"
proof (induction xs)
  case (Cons x xs)
  show ?case
  proof (cases "smp_t x < c")
    case True
    then show ?thesis using Cons by simp
  next
    case False
    then have "\<forall>s \<in> set (x # xs). c \<le> smp_t s" using Cons.prems by fastforce
    then have "filter (\<lambda>s. c \<le> smp_t s) (x # xs) = x # xs" by (rule filter_True)
    then show ?thesis using False by simp
  qed
qed simp

definition mk_sample :: "gotime \<times> bool \<Rightarrow> sample" where
  "mk_sample x = \<lparr>smp_t = fst x, smp_ok = snd x\<rparr>"

lemma map_smp_t_mk [simp]: "smp_t (mk_sample x) = fst x" "smp_ok (mk_sample x) = snd x"
  by (simp_all add: mk_sample_def)

lemma record_all_ring:
  assumes "0 < sig_Window (det_cfg d)" "sorted (map smp_t (ring d) @ map fst xs)" "xs \<noteq> []"
  shows "ring (record_all xs d) =
      filter (\<lambda>s. fst (last xs) - sig_Window (det_cfg d) \<le> smp_t s) (ring d @ map mk_sample xs)"
  using assms
proof (induction xs arbitrary: d)
  case Nil
  then show ?case by simp
next
  case (Cons x xs)
  let ?w = "sig_Window (det_cfg d)"
  let ?r = "filter (\<lambda>s. fst x - ?w \<le> smp_t s) (ring d @ [mk_sample x])"
  have srt: "sorted (map smp_t (ring d @ [mk_sample x]))"
    using Cons.prems(2) by (auto simp: sorted_append)
  have one: "the (Detector_Record (fst x) (snd x) (Some d)) = d\<lparr>ring := ?r\<rparr>"
    using Cons.prems(1) dropWhile_sorted[OF srt, of "fst x - ?w"]
    by (simp add: Detector_Record_Some mk_sample_def)
  show ?case
  proof (cases xs)
    case Nil
    then show ?thesis using one by simp
  next
    case (Cons y ys)
    have "sorted (map smp_t ?r @ map fst xs)"
      using Cons.prems(2) by (auto simp: sorted_append sorted_filter)
    then have "ring (record_all xs (d\<lparr>ring := ?r\<rparr>)) =
        filter (\<lambda>s. fst (last xs) - ?w \<le> smp_t s) (?r @ map mk_sample xs)"
      using Cons.IH[of "d\<lparr>ring := ?r\<rparr>"] Cons.prems(1) Cons by simp
    moreover have "fst x \<le> fst (last xs)"
      using Cons.prems(2) Cons by (auto simp: sorted_append last_in_set)
    ultimately show ?thesis using one Cons
      by (auto simp: filter_filter intro!: filter_cong)
  qed
qed

lemma signature_key_prefix:
  "has_prefix (signature_key c ip port) (signature_prefix c') \<longleftrightarrow> c = c'"
proof
  assume "has_prefix (signature_key c ip port) (signature_prefix c')"
  then obtain t where t: "dec_digits c @ CHR ''|'' # ip @ '':'' @ format_int port = dec_digits c' @ CHR ''|'' # t"
    by (auto simp: has_prefix_iff signature_key_def signature_prefix_def)
  have bar: "takeWhile (\<lambda>x. x \<noteq> CHR ''|'') (dec_digits n @ CHR ''|'' # u) = dec_digits n" for n u
  proof -
    have "x \<noteq> CHR ''|''" if "x \<in> set (dec_digits n)" for x
      using dec_digits_set[OF that] by auto
    then show ?thesis by (simp add: takeWhile_append2)
  qed
  show "c = c'" using arg_cong[OF t, of "takeWhile (\<lambda>x. x \<noteq> CHR ''|'')"]
    by (simp add: bar dec_digits_inject)
qed (simp add: has_prefix_iff signature_key_def signature_prefix_def)

section \<open>Properties\<close>

text \<open>
  C30: A detector that recorded outcomes in order of time matches exactly when the outcomes of
  the last window are at least the minimum number of samples and their share of failures, as a
  \<^verbatim>\<open>float64\<close>, reaches the configured ratio.
\<close>

theorem Detector_matches_recent_failures:
  assumes "0 < sig_Window cfg" and "sorted (map fst xs)" and "xs \<noteq> []"
  shows "Detector_Match (Some (record_all xs \<lparr>det_cfg = cfg, ring = []\<rparr>)) =
    (let recent = filter (\<lambda>x. fst (last xs) - sig_Window cfg \<le> fst x) xs;
         failures = filter (\<lambda>x. \<not> snd x) recent
     in sig_MinSamples cfg \<le> int (length recent) \<and>
        sig_FailedHandshakeRatio cfg \<le> f64_div (f64_of_int (int (length failures))) (f64_of_int (int (length recent))))"
proof -
  let ?d = "record_all xs \<lparr>det_cfg = cfg, ring = []\<rparr>"
  have cfg: "det_cfg (record_all ys d) = det_cfg d" for ys d
    by (induction ys arbitrary: d) (simp_all add: Detector_Record_def)
  have "ring ?d = map mk_sample (filter (\<lambda>x. fst (last xs) - sig_Window cfg \<le> fst x) xs)"
    using record_all_ring[of "\<lparr>det_cfg = cfg, ring = []\<rparr>" xs] assms by (simp add: filter_map comp_def)
  then show ?thesis
    using assms(1) by (simp add: Detector_Match_def cfg Let_def filter_map comp_def not_less)
qed

theorem Detector_matches_recent_failures_witness:
  "Detector_Match (Some (record_all [(0, False), (5, True), (12, False)]
     \<lparr>det_cfg = \<lparr>sig_Enabled = True, sig_Window = 10, sig_MinSamples = 3, sig_FailedHandshakeRatio = 1 / 2\<rparr>,
       ring = []\<rparr>)) = False"
  using Detector_matches_recent_failures
    [of "\<lparr>sig_Enabled = True, sig_Window = 10, sig_MinSamples = 3, sig_FailedHandshakeRatio = 1 / 2\<rparr>"
        "[(0, False), (5, True), (12, False)]"]
  by simp

text \<open>
  Forgetting a connection removes its detectors and no others: no connection number is
  mistaken for another one that begins with the same digits.
\<close>

theorem Forget_exact:
  "per (the (Forget connID (Some s))) (signature_key c ip port) =
     (if c = connID then None else per s (signature_key c ip port))"
  by (simp add: Forget_def delete_where_def signature_key_prefix split: option.splits)

end
