(* ===== verification/Egress.thy ===== *)
theory Egress
  imports Server_Config
begin

unbundle bit_operations_syntax

text \<open>
  \<^verbatim>\<open>wisp/egress.go\<close>: the policy that decides which addresses a stream may dial. A nil
  policy is \<open>None\<close>, a nil map of addresses is \<open>None\<close>, and a nil address the empty list.
\<close>

section \<open>The policy\<close>

record EgressPolicy =
  AllowLoopback :: bool
  AllowPrivate :: bool
  AllowIPs :: "string list option"
  AllowCIDRs :: "ip_net list"
  DenyIPs :: "string list option"
  DenyCIDRs :: "ip_net list"

definition PolicyFromConfig :: "Config \<Rightarrow> EgressPolicy option" where
  "PolicyFromConfig cfg =
     Some \<lparr>AllowLoopback = AllowLoopbackIPs cfg, AllowPrivate = AllowPrivateIPs cfg,
           AllowIPs = None, AllowCIDRs = [], DenyIPs = None, DenyCIDRs = []\<rparr>"

definition in_ip_set :: "string \<Rightarrow> string list option \<Rightarrow> bool" where
  "in_ip_set s m = (case m of None \<Rightarrow> False | Some l \<Rightarrow> s \<in> set l)"

definition in_cidrs :: "ip \<Rightarrow> ip_net list \<Rightarrow> bool" where
  "in_cidrs ip ns = list_ex (\<lambda>n. IPNet_Contains n ip) ns"

definition Evaluate :: "EgressPolicy option \<Rightarrow> ip \<Rightarrow> bool \<times> string" where
  "Evaluate p ip0 =
     (case p of
        None \<Rightarrow> (True, '''')
      | Some p \<Rightarrow>
          if ip0 = [] then (False, ''invalid'')
          else
            (let ip = (if To4 ip0 \<noteq> [] then To4 ip0 else ip0) in
             if in_ip_set (IP_String ip) (DenyIPs p) then (False, ''deny_ip'')
             else if in_cidrs ip (DenyCIDRs p) then (False, ''deny_cidr'')
             else if in_ip_set (IP_String ip) (AllowIPs p) \<or> in_cidrs ip (AllowCIDRs p) then (True, '''')
             else if IsUnspecified ip then (False, ''unspecified'')
             else if IsLoopback ip then (if AllowLoopback p then (True, '''') else (False, ''loopback''))
             else if IsLinkLocalUnicast ip \<or> IsLinkLocalMulticast ip then
               (if AllowPrivate p then (True, '''') else (False, ''link_local''))
             else if IsPrivate ip then (if AllowPrivate p then (True, '''') else (False, ''private''))
             else if IsMulticast ip then (False, ''multicast'')
             else (True, '''')))"

section \<open>Addresses in their two forms\<close>

definition is_ip :: "ip \<Rightarrow> bool" where
  "is_ip ip \<longleftrightarrow> length ip = 4 \<or> length ip = 16"

lemma bytes4_cases:
  assumes "length (ip :: bytes) = 4" obtains a b c d where "ip = [a, b, c, d]"
  using assms by (auto simp: numeral_eq_Suc length_Suc_conv)

lemma To4_cases:
  assumes "is_ip ip"
  obtains (v4) a b c d where "To4 ip = [a, b, c, d]" "ip = [a, b, c, d] \<or> ip = v4InV6Prefix @ [a, b, c, d]"
  | (v6) "To4 ip = []" "length ip = 16"
proof (cases "length ip = 4")
  case True
  then obtain a b c d where "ip = [a, b, c, d]" by (rule bytes4_cases)
  then show thesis using v4 by (simp add: To4_def)
next
  case False
  then have len: "length ip = 16" using assms by (simp add: is_ip_def)
  show thesis
  proof (cases "list_all (\<lambda>b. b = 0) (take 10 ip) \<and> ip ! 10 = 0xff \<and> ip ! 11 = 0xff")
    case True
    obtain a b c d where d: "drop 12 ip = [a, b, c, d]"
      using len by (auto intro: bytes4_cases[of "drop 12 ip"])
    have "take 10 ip = replicate 10 0"
      using True len by (intro replicate_eqI) (auto simp: list_all_iff)
    moreover have "take 2 (drop 10 ip) = [ip ! 10, ip ! 11]"
      using len by (simp add: numeral_2_eq_2 take_Suc_conv_app_nth)
    moreover have "ip = take 10 ip @ take 2 (drop 10 ip) @ drop 12 ip"
      using append_take_drop_id[of 2 "drop 10 ip"] by simp
    ultimately have "ip = v4InV6Prefix @ [a, b, c, d]"
      using True d by (simp add: v4InV6Prefix_def numeral_eq_Suc)
    then show thesis using v4[of a b c d] True d len by (simp add: To4_def)
  next
    case False
    then show thesis using v6 len by (auto simp: To4_def)
  qed
qed

lemma To4_mapped [simp]: "length ip = 4 \<Longrightarrow> To4 (v4InV6Prefix @ ip) = ip"
  by (simp add: To4_def v4InV6Prefix_def list_all_iff)

lemma To4_4 [simp]: "length ip = 4 \<Longrightarrow> To4 ip = ip"
  by (simp add: To4_def)

lemma To4_quad [simp]: "To4 [a, b, c, d] = [a, b, c, d]"
  by simp

lemma To4_mapped_quad [simp]: "To4 (v4InV6Prefix @ [a, b, c, d]) = [a, b, c, d]"
  by (rule To4_mapped) simp

section \<open>Classes of addresses by their octets\<close>

lemma and_field: "(x :: nat) AND push_bit b (mask a) = push_bit b (take_bit a (drop_bit b x))"
  by (rule bit_eqI) (auto simp: bit_simps)

lemma nat_and_fields:
  fixes n :: nat
  assumes "n < 256"
  shows "n AND 0xf0 = n div 16 * 16" "n AND 0xfe = n div 2 * 2" "n AND 0xc0 = n div 64 * 64"
    "n AND 0x0f = n mod 16"
proof -
  have 1: "n div 16 mod 16 = n div 16" "n div 2 mod 128 = n div 2" "n div 64 mod 4 = n div 64"
    using assms by auto
  show "n AND 0xf0 = n div 16 * 16" "n AND 0xfe = n div 2 * 2" "n AND 0xc0 = n div 64 * 64"
    "n AND 0x0f = n mod 16"
    using and_field[of n 4 4] and_field[of n 1 7] and_field[of n 6 2] and_field[of n 0 4]
    by (simp_all add: mask_eq_exp_minus_1 push_bit_eq_mult take_bit_eq_mod drop_bit_eq_div 1)
qed

lemma div_block: "0 < k \<Longrightarrow> n div k * k = m * k \<longleftrightarrow> m * k \<le> n \<and> n < (m + 1) * k" for n k m :: nat
  using div_nat_eqI[of k m n] div_times_less_eq_dividend[of n k] dividend_less_div_times[of k n]
  by (auto simp: mult.commute)

lemma octet_eq_iff: "(x::byte) = y \<longleftrightarrow> unat x = unat y"
  by (rule word_unat_eq_iff)

lemma octet_ranges:
  fixes x :: byte
  shows "x AND 0xf0 = 16 \<longleftrightarrow> 16 \<le> x \<and> x \<le> 31"
    and "x AND 0xf0 = 0xe0 \<longleftrightarrow> 224 \<le> x \<and> x \<le> 239"
    and "x AND 0xfe = 0xfc \<longleftrightarrow> x = 0xfc \<or> x = 0xfd"
    and "x AND 0xc0 = 0x80 \<longleftrightarrow> 0x80 \<le> x \<and> x \<le> 0xbf"
proof -
  have "unat x < 256" using unsigned_less[of x, where 'a = nat] by simp
  note f = nat_and_fields[OF this]
  have "unat x < 256" by fact
  show "x AND 0xf0 = 16 \<longleftrightarrow> 16 \<le> x \<and> x \<le> 31"
    and "x AND 0xf0 = 0xe0 \<longleftrightarrow> 224 \<le> x \<and> x \<le> 239"
    and "x AND 0xfe = 0xfc \<longleftrightarrow> x = 0xfc \<or> x = 0xfd"
    and "x AND 0xc0 = 0x80 \<longleftrightarrow> 0x80 \<le> x \<and> x \<le> 0xbf"
    using \<open>unat x < 256\<close> div_block[of 16 "unat x" 1] div_block[of 16 "unat x" 14]
      div_block[of 2 "unat x" 126] div_block[of 64 "unat x" 2]
    unfolding word_le_nat_alt octet_eq_iff unsigned_and_eq by (simp_all add: f) auto
qed

text \<open>
  The addresses a policy without lists refuses, by octets (\<open>loop\<close> and \<open>priv\<close> are its two
  switches) and, for an IPv6 address, by its leading bytes.
\<close>

definition reserved4 :: "bool \<Rightarrow> bool \<Rightarrow> byte \<Rightarrow> byte \<Rightarrow> byte \<Rightarrow> byte \<Rightarrow> bool" where
  "reserved4 loop priv a b c d \<longleftrightarrow>
     (a = 0 \<and> b = 0 \<and> c = 0 \<and> d = 0) \<or>
     (a = 127 \<and> \<not> loop) \<or>
     ((a = 10 \<or> (a = 172 \<and> 16 \<le> b \<and> b \<le> 31) \<or> (a = 192 \<and> b = 168) \<or> (a = 169 \<and> b = 254)) \<and> \<not> priv) \<or>
     (224 \<le> a \<and> a \<le> 239 \<and> \<not> (a = 224 \<and> b = 0 \<and> c = 0 \<and> priv))"

definition reserved6 :: "bool \<Rightarrow> bool \<Rightarrow> ip \<Rightarrow> bool" where
  "reserved6 loop priv ip \<longleftrightarrow>
     ip = replicate 16 0 \<or>
     (ip = replicate 15 0 @ [1] \<and> \<not> loop) \<or>
     (((ip ! 0 = 0xfe \<and> 0x80 \<le> ip ! 1 \<and> ip ! 1 \<le> 0xbf) \<or> ip ! 0 = 0xfc \<or> ip ! 0 = 0xfd) \<and> \<not> priv) \<or>
     (ip ! 0 = 0xff \<and> \<not> (ip ! 1 AND 0x0f = 2 \<and> priv))"

definition reserved_ip :: "bool \<Rightarrow> bool \<Rightarrow> ip \<Rightarrow> bool" where
  "reserved_ip loop priv ip \<longleftrightarrow>
     (case To4 ip of [a, b, c, d] \<Rightarrow> reserved4 loop priv a b c d | _ \<Rightarrow> reserved6 loop priv ip)"

definition plain_policy :: "bool \<Rightarrow> bool \<Rightarrow> EgressPolicy option" where
  "plain_policy loop priv =
     Some \<lparr>AllowLoopback = loop, AllowPrivate = priv, AllowIPs = None, AllowCIDRs = [],
           DenyIPs = None, DenyCIDRs = []\<rparr>"

lemma PolicyFromConfig_plain:
  "PolicyFromConfig cfg = plain_policy (AllowLoopbackIPs cfg) (AllowPrivateIPs cfg)"
  by (simp add: PolicyFromConfig_def plain_policy_def)

lemma empty_lists [simp]: "in_ip_set s None = False" "in_cidrs ip [] = False"
  by (simp_all add: in_ip_set_def in_cidrs_def)

lemma Evaluate_plain4:
  "fst (Evaluate (plain_policy loop priv) [a, b, c, d]) \<longleftrightarrow> \<not> reserved4 loop priv a b c d"
proof -
  have "IPv6unspecified \<noteq> v4InV6Prefix @ [a, b, c, d]"
  proof
    assume "IPv6unspecified = v4InV6Prefix @ [a, b, c, d]"
    then have "IPv6unspecified ! 10 = (v4InV6Prefix @ [a, b, c, d]) ! 10" by simp
    then show False by (simp add: IPv6unspecified_def v4InV6Prefix_def)
  qed
  moreover have "take 12 IPv6unspecified \<noteq> v4InV6Prefix"
  proof
    assume "take 12 IPv6unspecified = v4InV6Prefix"
    then have "take 12 IPv6unspecified ! 10 = v4InV6Prefix ! 10" by simp
    then show False by (simp add: IPv6unspecified_def v4InV6Prefix_def)
  qed
  moreover have "length v4InV6Prefix = 12" "length IPv6unspecified = 16"
    by (simp_all add: v4InV6Prefix_def IPv6unspecified_def)
  ultimately have unspec: "IsUnspecified [a, b, c, d] \<longleftrightarrow> a = 0 \<and> b = 0 \<and> c = 0 \<and> d = 0"
    by (simp add: IsUnspecified_def IP_Equal_def IPv4zero_def)
  show ?thesis
    by (auto simp: Evaluate_def plain_policy_def unspec IsLoopback_def IsLinkLocalUnicast_def
        IsLinkLocalMulticast_def IsPrivate_def IsMulticast_def Let_def octet_ranges reserved4_def)
qed

lemma Evaluate_plain6:
  assumes "length ip = 16" "To4 ip = []"
  shows "fst (Evaluate (plain_policy loop priv) ip) \<longleftrightarrow> \<not> reserved6 loop priv ip"
proof -
  have "ip \<noteq> IPv4zero"
  proof
    assume "ip = IPv4zero"
    then have "To4 ip = [0, 0, 0, 0]" unfolding IPv4zero_def by simp
    then show False using assms by simp
  qed
  then have "IsUnspecified ip \<longleftrightarrow> ip = replicate 16 0"
    using assms by (simp add: IsUnspecified_def IP_Equal_def IPv6unspecified_def IPv4zero_def v4InV6Prefix_def)
  moreover have "IsLoopback ip \<longleftrightarrow> ip = replicate 15 0 @ [1]"
    using assms by (simp add: IsLoopback_def IP_Equal_def IPv6loopback_def)
  moreover have "ip \<noteq> []" using assms by auto
  moreover have "(replicate 15 0 @ [1 :: byte]) ! 0 = 0" by (simp add: nth_append)
  ultimately show ?thesis using assms
    by (auto simp: Evaluate_def plain_policy_def IsLinkLocalUnicast_def IsLinkLocalMulticast_def
        IsPrivate_def IsMulticast_def Let_def octet_ranges(3,4) reserved6_def)
qed

lemma Evaluate_quad: "Evaluate p (v4InV6Prefix @ [a, b, c, d]) = Evaluate p [a, b, c, d]"
  by (simp add: Evaluate_def v4InV6Prefix_def[symmetric] split: option.split)

section \<open>Properties\<close>

text \<open>
  An IPv4 address and its IPv4-mapped IPv6 form are treated alike by every policy: no rule
  can be bypassed by writing an address in the other form.
\<close>

theorem Evaluate_mapped_address:
  "Evaluate p (v4InV6Prefix @ [a, b, c, d]) = Evaluate p [a, b, c, d]"
  by (rule Evaluate_quad)

text \<open>
  C23: The policy built from a configuration refuses exactly the reserved addresses: unspecified,
  loopback, private, link-local and multicast, in either address family, each class opened by its
  own switch of the configuration only.
\<close>

theorem Evaluate_refuses_exactly_reserved:
  assumes "is_ip ip"
  shows "fst (Evaluate (PolicyFromConfig cfg) ip) =
           (\<not> reserved_ip (AllowLoopbackIPs cfg) (AllowPrivateIPs cfg) ip)"
  using assms
proof (cases rule: To4_cases)
  case (v4 a b c d)
  then have "fst (Evaluate (PolicyFromConfig cfg) ip) = fst (Evaluate (PolicyFromConfig cfg) [a, b, c, d])"
    by (auto simp: Evaluate_quad)
  then show ?thesis
    using v4(1) by (simp add: PolicyFromConfig_plain Evaluate_plain4 reserved_ip_def)
next
  case v6
  then show ?thesis
    by (simp add: PolicyFromConfig_plain Evaluate_plain6 reserved_ip_def)
qed

theorem Evaluate_refuses_exactly_reserved_witness:
  "fst (Evaluate (PolicyFromConfig DefaultConfig) [127, 0, 0, 1]) = False"
  using Evaluate_refuses_exactly_reserved[of "[127, 0, 0, 1]" DefaultConfig]
  by (simp add: is_ip_def reserved_ip_def reserved4_def DefaultConfig_def)

end
