(* ===== verification/Server_Globals.thy ===== *)
theory Server_Globals
  imports Rate_Limits Bandwidth Reputation Signature Egress
begin

text \<open>
  \<^verbatim>\<open>wisp/runtime.go\<close>: the limiters that all connections share, their construction from
  the configuration, and their periodic eviction. The sync.Map of active connections holds the
  connection numbers only: the connections' own states are elsewhere.
\<close>

record Globals =
  g_PerSource :: "sliding_window option"
  g_ConnectionRate :: "sliding_window option"
  g_Bandwidth :: "BandwidthLimiter option"
  g_PerDestSec :: "sliding_window option"
  g_PerDestMin :: "sliding_window option"
  g_InFlightSyns :: "semaphore option"
  g_Connections :: "semaphore option"
  g_Egress :: "EgressPolicy option"
  g_Reputation :: "reputation option"
  g_Signature :: "signatures option"
  g_active :: "nat list"
  g_stopped :: bool
  g_startedAt :: gotime
  g_totalIngressBytes :: u64
  g_totalEgressBytes :: u64

text \<open>
  \<^verbatim>\<open>BuildGlobals\<close>: \<open>now\<close> is the clock, \<open>file\<close> the outcome of reading the
  reputation store.
\<close>

definition flood_globals :: "FloodProtectionConfig \<Rightarrow> Globals \<Rightarrow> Globals" where
  "flood_globals fp g =
     g\<lparr>g_PerSource := (if 0 < MaxConnectsPerSourceIPPerSecond fp
         then Some (NewSlidingWindow (MaxConnectsPerSourceIPPerSecond fp) second) else None),
       g_PerDestSec := (if 0 < MaxConnectsPerDestPerSecond fp
         then Some (NewSlidingWindow (MaxConnectsPerDestPerSecond fp) second) else None),
       g_PerDestMin := (if 0 < MaxConnectsPerDestPerMinute fp
         then Some (NewSlidingWindow (MaxConnectsPerDestPerMinute fp) minute) else None),
       g_InFlightSyns := (if 0 < MaxInFlightSyns fp then Some (NewSemaphore (MaxInFlightSyns fp)) else None),
       g_Connections := (if 0 < MaxConcurrentConnections fp
         then Some (NewSemaphore (MaxConcurrentConnections fp)) else None),
       g_Signature := NewSignatures
         \<lparr>sig_Enabled = sfs_Enabled (SynFloodSignature fp),
          sig_Window = wrap64 (sfs_WindowMs (SynFloodSignature fp) * millisecond),
          sig_MinSamples = sfs_MinSamples (SynFloodSignature fp),
          sig_FailedHandshakeRatio = sfs_FailedHandshakeRatio (SynFloodSignature fp)\<rparr>\<rparr>"

definition reputation_globals :: "gotime \<Rightarrow> store_read \<Rightarrow> ReputationConfig \<Rightarrow> reputation option" where
  "reputation_globals now file rc0 =
     (let rc = (if EvictAfter rc0 = 0 \<and> 0 < EvictDays rc0
                then rc0\<lparr>EvictAfter := wrap64 (wrap64 (EvictDays rc0 * 24) * hour)\<rparr> else rc0)
      in snd (Load file (NewReputation now rc)))"

definition BuildGlobals :: "gotime \<Rightarrow> store_read \<Rightarrow> Config \<Rightarrow> Globals option \<Rightarrow> Globals" where
  "BuildGlobals now file cfg existing =
     (case existing of
        Some g \<Rightarrow> g
      | None \<Rightarrow>
          (let g0 = \<lparr>g_PerSource = None,
                     g_ConnectionRate = (if 0 < ConnectionsLimitPerIP cfg \<and> 0 < ConnectionWindowSeconds cfg
                       then Some (NewSlidingWindow (ConnectionsLimitPerIP cfg) (wrap64 (ConnectionWindowSeconds cfg * second)))
                       else None),
                     g_Bandwidth = (if 0 < BandwidthLimitKbps cfg
                       then NewBandwidthLimiter (wrap64 (BandwidthLimitKbps cfg * 1000) div 8) else None),
                     g_PerDestSec = None, g_PerDestMin = None, g_InFlightSyns = None, g_Connections = None,
                     g_Egress = PolicyFromConfig cfg, g_Reputation = None, g_Signature = None,
                     g_active = [], g_stopped = False, g_startedAt = now,
                     g_totalIngressBytes = 0, g_totalEgressBytes = 0\<rparr>;
               g1 = (case FloodProtection cfg of
                       None \<Rightarrow> g0 | Some fp \<Rightarrow> if fp_Enabled fp then flood_globals fp g0 else g0)
           in case Server_Config.Reputation cfg of
                None \<Rightarrow> g1
              | Some rc \<Rightarrow> if rc_Enabled rc then g1\<lparr>g_Reputation := reputation_globals now file rc\<rparr> else g1))"

text \<open>One tick of \<^verbatim>\<open>runMaintenance\<close>.\<close>

definition globals_maintenance :: "gotime \<Rightarrow> Globals \<Rightarrow> Globals" where
  "globals_maintenance now g =
     g\<lparr>g_PerSource := SlidingWindow_Evict now (2 * minute) (g_PerSource g),
       g_ConnectionRate := (case g_ConnectionRate g of
          None \<Rightarrow> None | Some w \<Rightarrow> SlidingWindow_Evict now (wrap64 (2 * sw_window w)) (Some w)),
       g_Bandwidth := BandwidthLimiter_Evict now (10 * minute) (g_Bandwidth g),
       g_PerDestSec := SlidingWindow_Evict now (2 * minute) (g_PerDestSec g),
       g_PerDestMin := SlidingWindow_Evict now (2 * hour) (g_PerDestMin g)\<rparr>"

text \<open>Whether \<^verbatim>\<open>BuildGlobals\<close> starts the goroutine, and its loop.\<close>

definition needs_maintenance :: "Globals \<Rightarrow> bool" where
  "needs_maintenance g \<longleftrightarrow> g_PerSource g \<noteq> None \<or> g_ConnectionRate g \<noteq> None \<or> g_Bandwidth g \<noteq> None \<or>
     g_PerDestSec g \<noteq> None \<or> g_PerDestMin g \<noteq> None"

datatype globals_event = GlobalsTick gotime | GlobalsStop

fun globals_loop :: "globals_event list \<Rightarrow> Globals \<Rightarrow> Globals" where
  "globals_loop [] g = g"
| "globals_loop (GlobalsStop # es) g = g"
| "globals_loop (GlobalsTick now # es) g = globals_loop es (globals_maintenance now g)"

end
