(* ===== verification/Dns_Cache.thy ===== *)
theory Dns_Cache
  imports Server_Config
begin

text \<open>
  \<^verbatim>\<open>wisp/dnscache.go\<close> and the normalisation of host names from
  \<^verbatim>\<open>wisp/wisp-stream.go\<close>. The resolver that the cache asks is the argument
  \<open>resolve\<close> of a lookup: an error text or the addresses. \<^verbatim>\<open>singleflight\<close> shares one
  call among concurrent lookups of a host; a lookup here is one that makes the call.
\<close>

section \<open>Host names\<close>

definition NormalizeTargetHostname :: "(nat \<Rightarrow> nat) \<Rightarrow> string \<Rightarrow> string" where
  "NormalizeTargetHostname ulower host = trim_suffix (trim_space (to_lower ulower host)) ''.''"

section \<open>The cache\<close>

record dnsEntry =
  dns_ips :: "ip list"
  dns_expiresAt :: gotime
  dns_err :: "string option"

datatype dns_resolver = DefaultResolver | ServerResolver string

record dns_cache =
  dns_servers :: "string list"
  dns_resolver_of :: dns_resolver
  dns_ttl :: duration
  dns_resultOrder :: string
  dns_map :: "string \<rightharpoonup> dnsEntry"
  dns_stopped :: bool

definition normalizeDNSServer :: "string \<Rightarrow> string" where
  "normalizeDNSServer server = (if SplitHostPort server \<noteq> None then server else JoinHostPort server ''53'')"

fun firstDNSServer :: "string list \<Rightarrow> string" where
  "firstDNSServer [] = []"
| "firstDNSServer (server # servers) =
     (if trim_space server = [] then firstDNSServer servers else normalizeDNSServer (trim_space server))"

definition initResolver :: "(nat \<Rightarrow> nat) \<Rightarrow> string \<Rightarrow> string list \<Rightarrow> dns_resolver" where
  "initResolver ulower meth servers =
     (if to_lower ulower (trim_space meth) = ''resolve'' \<and> servers \<noteq> [] then
        (let server = firstDNSServer servers in if server = [] then DefaultResolver else ServerResolver server)
      else DefaultResolver)"

definition NewDNSCache ::
  "(nat \<Rightarrow> nat) \<Rightarrow> string list \<Rightarrow> int \<Rightarrow> string \<Rightarrow> string \<Rightarrow> dns_cache" where
  "NewDNSCache ulower servers ttlSeconds meth order =
     (let ttl = wrap64 (ttlSeconds * second) in
      \<lparr>dns_servers = servers, dns_resolver_of = initResolver ulower meth servers,
       dns_ttl = (if ttl \<le> 0 then 120 * second else ttl), dns_resultOrder = order, dns_map = Map.empty,
       dns_stopped = False\<rparr>)"

definition expire :: "gotime \<Rightarrow> dns_cache \<Rightarrow> dns_cache" where
  "expire now d = d\<lparr>dns_map := delete_where (\<lambda>_ e. dns_expiresAt e < now) (dns_map d)\<rparr>"

text \<open>
  \<^verbatim>\<open>cleanup\<close>: how often its goroutine expires entries, and its loop over what the
  \<^verbatim>\<open>select\<close> yields. \<^verbatim>\<open>Close\<close> closes the channel \<^verbatim>\<open>stop\<close> under a
  \<^verbatim>\<open>sync.Once\<close>: \<open>dns_stopped\<close> says that this has happened.
\<close>

definition cleanup_interval :: "dns_cache \<Rightarrow> duration" where
  "cleanup_interval d = (if dns_ttl d div 2 < minute then minute else dns_ttl d div 2)"

datatype cleanup_event = CleanupTick gotime | CleanupStop

fun cleanup_loop :: "cleanup_event list \<Rightarrow> dns_cache \<Rightarrow> dns_cache" where
  "cleanup_loop [] d = d"
| "cleanup_loop (CleanupStop # es) d = d"
| "cleanup_loop (CleanupTick now # es) d = cleanup_loop es (expire now d)"

definition DNSCache_Close :: "dns_cache option \<Rightarrow> dns_cache option" where
  "DNSCache_Close d = map_option (\<lambda>d. if dns_stopped d then d else d\<lparr>dns_stopped := True\<rparr>) d"

text \<open>The loop of \<^verbatim>\<open>reorderIPs\<close> with its two lists.\<close>

fun split_families :: "ip list \<Rightarrow> ip list \<Rightarrow> ip list \<Rightarrow> ip list \<times> ip list" where
  "split_families v4 v6 [] = (v4, v6)"
| "split_families v4 v6 (ip # ips) =
     (if To4 ip \<noteq> [] then split_families (v4 @ [ip]) v6 ips else split_families v4 (v6 @ [ip]) ips)"

definition reorderIPs :: "(nat \<Rightarrow> nat) \<Rightarrow> ip list \<Rightarrow> string \<Rightarrow> ip list" where
  "reorderIPs ulower ips order0 =
     (if length ips \<le> 1 then ips
      else (let order = to_lower ulower (trim_space order0) in
            if order = ''verbatim'' \<or> order = [] then ips
            else (let (v4, v6) = split_families [] [] ips in
                  if order = ''ipv4first'' then v4 @ v6
                  else if order = ''ipv6first'' then v6 @ v4
                  else ips)))"

text \<open>\<open>now\<close> is the clock at the look into the map, \<open>now'\<close> the clock after the resolver's answer.\<close>

definition LookupIPAddr ::
  "(nat \<Rightarrow> nat) \<Rightarrow> gotime \<Rightarrow> gotime \<Rightarrow> (string \<Rightarrow> string + ip list) \<Rightarrow> string \<Rightarrow> dns_cache
     \<Rightarrow> (string + ip list) \<times> dns_cache" where
  "LookupIPAddr ulower now now' resolve host0 d =
     (let host = NormalizeTargetHostname ulower host0 in
      if ParseIP host \<noteq> [] then (Inr [ParseIP host], d)
      else
        (let miss =
           (case resolve host of
              Inl err \<Rightarrow>
                (Inl err, d\<lparr>dns_map := (dns_map d)(host \<mapsto>
                   \<lparr>dns_ips = [], dns_expiresAt = now' + dns_ttl d, dns_err = Some err\<rparr>)\<rparr>)
            | Inr ips \<Rightarrow>
                (let ips' = reorderIPs ulower ips (dns_resultOrder d) in
                 (Inr ips', d\<lparr>dns_map := (dns_map d)(host \<mapsto>
                    \<lparr>dns_ips = ips', dns_expiresAt = now' + dns_ttl d, dns_err = None\<rparr>)\<rparr>)))
         in case dns_map d host of
              Some entry \<Rightarrow>
                if now < dns_expiresAt entry
                then (case dns_err entry of Some err \<Rightarrow> (Inl err, d) | None \<Rightarrow> (Inr (dns_ips entry), d))
                else miss
            | None \<Rightarrow> miss))"

section \<open>Lemmas\<close>

lemma split_families_eq:
  "split_families v4 v6 ips = (v4 @ filter (\<lambda>ip. To4 ip \<noteq> []) ips, v6 @ filter (\<lambda>ip. To4 ip = []) ips)"
  by (induction v4 v6 ips rule: split_families.induct) simp_all

lemma set_reorderIPs: "set (reorderIPs ulower ips order) = set ips"
  by (auto simp: reorderIPs_def Let_def split_families_eq)

section \<open>Properties\<close>

text \<open>
  Until the entry expires, a second lookup of a host gets the first answer, an error
  included, without asking the resolver and without a change of the cache.
\<close>

theorem LookupIPAddr_cached:
  assumes "LookupIPAddr ulower now now' resolve host d = (res, d')"
    and "now'' < now' + dns_ttl d" and "now \<le> now''"
    and "\<forall>e. dns_map d (NormalizeTargetHostname ulower host) = Some e \<longrightarrow>
           dns_expiresAt e \<le> now \<or> now'' < dns_expiresAt e"
  shows "LookupIPAddr ulower now'' t resolve' host d' = (res, d')"
  using assms
  by (auto simp: LookupIPAddr_def Let_def split: option.splits sum.splits if_splits)

theorem LookupIPAddr_cached_witness:
  "LookupIPAddr id 50 60 (\<lambda>_. Inl ''down'') ''a'' (NewDNSCache id [] 0 ''resolve'' ''ipv4first''
       \<lparr>dns_map := [''a'' \<mapsto> \<lparr>dns_ips = [[1, 2, 3, 4]], dns_expiresAt = 5 + 120 * second, dns_err = None\<rparr>]\<rparr>)
   = (Inr [[1, 2, 3, 4]], NewDNSCache id [] 0 ''resolve'' ''ipv4first''
       \<lparr>dns_map := [''a'' \<mapsto> \<lparr>dns_ips = [[1, 2, 3, 4]], dns_expiresAt = 5 + 120 * second, dns_err = None\<rparr>]\<rparr>)"
proof -
  let ?d = "NewDNSCache id [] 0 ''resolve'' ''ipv4first''"
  let ?d' = "?d\<lparr>dns_map := [''a'' \<mapsto> \<lparr>dns_ips = [[1, 2, 3, 4]], dns_expiresAt = 5 + 120 * second, dns_err = None\<rparr>]\<rparr>"
  have norm: "NormalizeTargetHostname id ''a'' = ''a''"
    by (simp add: NormalizeTargetHostname_def to_lower_def is_ascii_def ascii_lower_def
        trim_space_ascii ascii_space_def trim_suffix_def has_suffix_def)
  have first: "LookupIPAddr id 3 5 (\<lambda>_. Inr [[1, 2, 3, 4]]) ''a'' ?d = (Inr [[1, 2, 3, 4]], ?d')"
    by (simp add: LookupIPAddr_def norm ParseIP_def NewDNSCache_def reorderIPs_def Let_def)
  show ?thesis
    by (rule LookupIPAddr_cached[OF first]) (simp_all add: NewDNSCache_def)
qed

text \<open>
  Normalising a host name twice is not normalising it once: a name that ends in two dots
  still ends in one, which the next normalisation removes.
\<close>

lemma NormalizeTargetHostname_not_idempotent:
  "NormalizeTargetHostname ulower ''evil.com..'' = ''evil.com.'' \<and>
   NormalizeTargetHostname ulower ''evil.com.'' = ''evil.com''"
  by (simp add: NormalizeTargetHostname_def to_lower_def is_ascii_def ascii_lower_def
      trim_space_ascii ascii_space_def trim_suffix_def has_suffix_def)

end
