(* ===== verification/Streams.thy ===== *)
theory Streams
  imports Write_Queue Server_Globals Dns_Cache
begin

text \<open>
  The state of a connection and of its streams, and the operations on one stream
  (\<^verbatim>\<open>wisp/wisp-stream.go\<close>, and the bookkeeping of \<^verbatim>\<open>wisp/wisp-connection.go\<close>
  that they use). Stream objects live in a heap and are shared by reference between the map of
  streams, the cache and the goroutines, as the pointers of the source are. Each operation is cut
  where the goroutine can block (dialling, writing to the target, waiting for bandwidth), so that
  other goroutines' operations can be placed in between.
\<close>

section \<open>State\<close>

text \<open>\<^verbatim>\<open>s.conn\<close>: nil, an open connection to the target, or one that was closed.\<close>

datatype target = NoConn | ConnOpen | ConnClosed

text \<open>\<open>st_written\<close> records what was written to the target, in order.\<close>

record wispStream =
  st_streamId :: u32
  st_streamType :: byte
  st_conn :: target
  bufferRemaining :: u32
  st_hostname :: string
  st_portNum :: int
  connReadyDone :: bool
  isOpen :: bool
  pendingData :: "bytes list"
  st_pendingBytes :: int
  ingressActive :: bool
  pendingIngress :: "bytes list"
  pendingIngBytes :: int
  ingressWriting :: bool
  st_written :: "bytes list"

record twispStream =
  tw_streamId :: u32
  tw_isOpen :: bool
  tw_size :: "u16 \<times> u16"
  tw_written :: "bytes list"

text \<open>The registry of terminals, \<^verbatim>\<open>twispRegistry\<close>: a map under a mutex.\<close>

type_synonym twispRegistry = "u32 \<rightharpoonup> nat"

definition newTwisp :: twispRegistry where
  [simp]: "newTwisp = Map.empty"

definition twisp_add :: "u32 \<Rightarrow> nat \<Rightarrow> twispRegistry \<Rightarrow> twispRegistry" where
  [simp]: "twisp_add i t m = m(i \<mapsto> t)"

definition twisp_remove :: "u32 \<Rightarrow> twispRegistry \<Rightarrow> twispRegistry" where
  [simp]: "twisp_remove i m = m(i := None)"

definition twisp_get :: "u32 \<Rightarrow> twispRegistry \<Rightarrow> nat option" where
  [simp]: "twisp_get i m = m i"

text \<open>Goroutines that an operation starts, in the order of the \<^verbatim>\<open>go\<close> statements.\<close>

datatype goroutine =
    GoConnect nat byte string string
  | GoStreamClose nat byte
  | GoIngressWriter nat
  | GoTwisp u32 string
  | GoTwispClose nat byte
  | GoPtyReader nat
  | GoPtyWaiter nat

text \<open>
  \<open>handshakePending\<close> is \<^verbatim>\<open>handshakeDone\<close> being a channel that is not closed;
  \<open>DNSCache\<close> and \<open>globals\<close> are reached through the configuration and shared.
\<close>

record wispConnection = write_queue +
  DNSCache :: "dns_cache option"
  globals :: "Globals option"
  remoteIP :: string
  connID :: nat
  isV2 :: bool
  handshakePending :: bool
  streamConfirm :: bool
  authenticated :: bool
  streams :: "u32 \<rightharpoonup> nat"
  heap :: "nat \<rightharpoonup> wispStream"
  next_ref :: nat
  streamCache :: "nat \<rightharpoonup> nat"
  streamCount :: int
  twispStreams :: "u32 \<rightharpoonup> nat"
  twisp_heap :: "nat \<rightharpoonup> twispStream"
  violations :: int
  ingressBytes :: u64
  egressBytes :: u64
  spawned :: "goroutine list"

definition streamCacheSize :: nat where "streamCacheSize = 256"

definition cache_slot :: "u32 \<Rightarrow> nat" where
  "cache_slot streamId = unat (and streamId (of_nat (streamCacheSize - 1)))"

definition upd_stream :: "nat \<Rightarrow> (wispStream \<Rightarrow> wispStream) \<Rightarrow> wispConnection \<Rightarrow> wispConnection" where
  "upd_stream r f c = (case heap c r of None \<Rightarrow> c | Some s \<Rightarrow> c\<lparr>heap := (heap c)(r \<mapsto> f s)\<rparr>)"

definition spawn :: "goroutine \<Rightarrow> wispConnection \<Rightarrow> wispConnection" where
  "spawn g c = c\<lparr>spawned := spawned c @ [g]\<rparr>"

section \<open>Writing to a target\<close>

text \<open>
  \<^verbatim>\<open>writeAll\<close> against the results \<open>(n, err)\<close> of the successive calls of
  \<^verbatim>\<open>Write\<close>: what was accepted, and whether it returned nil.
\<close>

fun writeAll :: "(nat \<times> bool) list \<Rightarrow> bytes \<Rightarrow> bytes \<times> bool" where
  "writeAll rs [] = ([], True)"
| "writeAll [] (b # bs) = ([], False)"
| "writeAll ((n, failed) # rs) (b # bs) =
     (if failed then (take n (b # bs), False)
      else if n = 0 then ([], False)
      else (let (acc, res) = writeAll rs (drop n (b # bs)) in (take n (b # bs) @ acc, res)))"

section \<open>Closing\<close>

definition signalConnReady :: "nat \<Rightarrow> wispConnection \<Rightarrow> wispConnection" where
  "signalConnReady r c = upd_stream r (\<lambda>s. s\<lparr>connReadyDone := True\<rparr>) c"

definition deleteWispStream :: "u32 \<Rightarrow> wispConnection \<Rightarrow> wispConnection" where
  "deleteWispStream streamId c =
     (let slot = cache_slot streamId;
          clear = (case streamCache c slot of
                     None \<Rightarrow> False
                   | Some r \<Rightarrow> (case heap c r of None \<Rightarrow> False | Some s \<Rightarrow> st_streamId s = streamId))
      in c\<lparr>streams := (streams c)(streamId := None),
           streamCache := (if clear then (streamCache c)(slot := None) else streamCache c),
           streamCount := wrap32 (streamCount c - 1)\<rparr>)"

definition stream_close :: "nat \<Rightarrow> byte \<Rightarrow> wispConnection \<Rightarrow> wispConnection" where
  "stream_close r reason c =
     (case heap c r of
        None \<Rightarrow> c
      | Some s \<Rightarrow>
          if \<not> isOpen s then c
          else
            (let c1 = upd_stream r (\<lambda>s. s\<lparr>isOpen := False\<rparr>) c;
                 c2 = signalConnReady r c1;
                 c3 = deleteWispStream (st_streamId s) c2;
                 c4 = upd_stream r (\<lambda>s. if st_conn s \<noteq> NoConn then s\<lparr>st_conn := ConnClosed\<rparr> else s) c3;
                 c5 = upd_stream r (\<lambda>s. if ingressActive s
                        then s\<lparr>ingressActive := False, pendingIngress := [], pendingIngBytes := 0\<rparr> else s) c4
             in sendClosePacket (st_streamId s) reason c5))"

definition mapDialError :: "string option \<Rightarrow> byte" where
  "mapDialError err =
     (case err of
        None \<Rightarrow> closeReasonUnspecified
      | Some e \<Rightarrow>
          if contains_sub e ''connection refused'' then closeReasonConnectionRefused
          else if contains_sub e ''no such host'' \<or> contains_sub e ''no address'' then closeReasonUnreachable
          else if contains_sub e ''timeout'' \<or> contains_sub e ''deadline exceeded'' then closeReasonTimeout
          else if contains_sub e ''network is unreachable'' \<or> contains_sub e ''host is unreachable''
          then closeReasonUnreachable
          else closeReasonNetworkError)"

section \<open>Violations and reputation\<close>

definition violation :: "wispConnection \<Rightarrow> wispConnection" where
  "violation c =
     (case FloodProtection (config c) of
        None \<Rightarrow> c
      | Some fp \<Rightarrow>
          if WsCloseAfterViolations fp \<le> 0 then c
          else (let n = wrap32 (violations c + 1); c' = c\<lparr>violations := n\<rparr>
                in if wrap32 (WsCloseAfterViolations fp) \<le> n then conn_close c' else c'))"

definition upd_globals :: "(Globals \<Rightarrow> Globals) \<Rightarrow> wispConnection \<Rightarrow> wispConnection" where
  "upd_globals f c = c\<lparr>globals := map_option f (globals c)\<rparr>"

definition repAddSource :: "gotime \<Rightarrow> string \<Rightarrow> wispConnection \<Rightarrow> wispConnection" where
  "repAddSource now reason c =
     upd_globals (\<lambda>g. g\<lparr>g_Reputation := AddSource now (remoteIP c) reason (g_Reputation g)\<rparr>) c"

definition repAddDest :: "gotime \<Rightarrow> string \<Rightarrow> int \<Rightarrow> string \<Rightarrow> wispConnection \<Rightarrow> wispConnection" where
  "repAddDest now ip port reason c =
     upd_globals (\<lambda>g. g\<lparr>g_Reputation := AddDest now ip port reason (ParseIP (remoteIP c)) (g_Reputation g)\<rparr>) c"

section \<open>Connecting\<close>

text \<open>
  What the environment supplies to \<^verbatim>\<open>handleConnect\<close>: the Unicode case table, the
  resolver, and the readings of the clock in the order in which they are taken.
\<close>

record connect_env =
  ulower :: "nat \<Rightarrow> nat"
  resolve :: "string \<Rightarrow> string + ip list"
  clock :: "nat \<Rightarrow> gotime"

text \<open>
  Before the dial: the stream was closed with a reason, or the goroutine dials
  \<open>destination\<close> (through the proxy when \<open>viaProxy\<close>), holding a slot of the SYN semaphore
  when \<open>synAcquired\<close>.
\<close>

datatype connect_plan =
    ConnectRejected byte
  | ConnectDial (dialTCP: bool) (dialDestination: string) (dialHost: string) (viaProxy: bool) (synAcquired: bool)

definition hostname_blocked :: "Config \<Rightarrow> string \<Rightarrow> bool" where
  "hostname_blocked cfg host =
     (if Hostnames (Whitelist cfg) \<noteq> [] then host \<notin> set (Hostnames (Whitelist cfg))
      else host \<in> set (Hostnames (Blacklist cfg)))"

definition port_blocked :: "Config \<Rightarrow> u16 \<Rightarrow> bool" where
  "port_blocked cfg port =
     (if Ports (Whitelist cfg) \<noteq> [] then port \<notin> set (Ports (Whitelist cfg))
      else port \<in> set (Ports (Blacklist cfg)))"

text \<open>The address to dial, or the reason to close; the cache may change.\<close>

definition resolve_target ::
  "connect_env \<Rightarrow> Config \<Rightarrow> string \<Rightarrow> dns_cache option \<Rightarrow> (byte + string) \<times> dns_cache option" where
  "resolve_target env cfg host dns =
     (let policy = PolicyFromConfig cfg; ip = ParseIP host in
      if ip \<noteq> [] then
        (if \<not> AllowDirectIP cfg then (Inl closeReasonBlocked, dns)
         else if \<not> fst (Evaluate policy ip) then (Inl closeReasonBlocked, dns)
         else (Inr (IP_String ip), dns))
      else (case dns of
              None \<Rightarrow> (Inr host, dns)
            | Some d \<Rightarrow>
                (case LookupIPAddr (ulower env) (clock env 0) (clock env 1) (resolve env) host d of
                   (Inl err, d') \<Rightarrow> (Inl closeReasonUnreachable, Some d')
                 | (Inr ips, d') \<Rightarrow>
                     if ips = [] then (Inl closeReasonUnreachable, Some d')
                     else (case find (\<lambda>ip. fst (Evaluate policy ip)) ips of
                             None \<Rightarrow> (Inl closeReasonBlocked, Some d')
                           | Some ip \<Rightarrow> (Inr (IP_String ip), Some d')))))"

text \<open>The caps on the destination, its reputation, and the slot for the SYN.\<close>

definition allow_window ::
  "gotime \<Rightarrow> string \<Rightarrow> (Globals \<Rightarrow> sliding_window option)
     \<Rightarrow> (sliding_window option \<Rightarrow> Globals \<Rightarrow> Globals) \<Rightarrow> Globals \<Rightarrow> bool \<times> Globals" where
  "allow_window now key get put g =
     (case SlidingWindow_Allow now key (get g) of (ok, w) \<Rightarrow> (ok, put w g))"

definition connect_limits ::
  "connect_env \<Rightarrow> byte \<Rightarrow> string \<Rightarrow> string \<Rightarrow> int \<Rightarrow> wispConnection \<Rightarrow> (byte + bool) \<times> wispConnection" where
  "connect_limits env streamType port host portNum c =
     (case globals c of
        None \<Rightarrow> (Inr False, c)
      | Some g0 \<Rightarrow>
          (let dstKey = JoinHostPort host port;
               (ok1, g1) = allow_window (clock env 2) dstKey g_PerDestSec (\<lambda>w g. g\<lparr>g_PerDestSec := w\<rparr>) g0;
               c1 = c\<lparr>globals := Some g1\<rparr>
           in if \<not> ok1 then
                (Inl closeReasonThrottled,
                 repAddDest (clock env 5) host portNum ''burstRate'' (repAddSource (clock env 4) ''burstRate'' (violation c1)))
              else
                (let (ok2, g2) = allow_window (clock env 3) dstKey g_PerDestMin (\<lambda>w g. g\<lparr>g_PerDestMin := w\<rparr>) g1;
                     c2 = c\<lparr>globals := Some g2\<rparr>
                 in if \<not> ok2 then (Inl closeReasonThrottled, violation c2)
                    else if g_Reputation g2 \<noteq> None \<and>
                            Tier (g_Reputation g2) (DestScore host portNum (g_Reputation g2)) = TierStrict then
                      (Inl closeReasonBlocked, repAddSource (clock env 6) ''requestKnownBadDest'' c2)
                    else if g_InFlightSyns g2 \<noteq> None \<and> streamType = streamTypeTCP then
                      (case Semaphore_TryAcquire (g_InFlightSyns g2) of
                         (ok3, sem) \<Rightarrow>
                           if \<not> ok3 then (Inl closeReasonThrottled, violation (c\<lparr>globals := Some (g2\<lparr>g_InFlightSyns := sem\<rparr>)\<rparr>))
                           else (Inr True, c\<lparr>globals := Some (g2\<lparr>g_InFlightSyns := sem\<rparr>)\<rparr>))
                    else (Inr False, c2))))"

definition releaseSyn :: "bool \<Rightarrow> wispConnection \<Rightarrow> wispConnection" where
  "releaseSyn acquired c =
     (if acquired then upd_globals (\<lambda>g. g\<lparr>g_InFlightSyns := Semaphore_Release (g_InFlightSyns g)\<rparr>) c else c)"

text \<open>\<^verbatim>\<open>s.close(reason)\<close>, a return, and the deferred \<^verbatim>\<open>signalConnReady\<close>.\<close>

definition reject_connect :: "nat \<Rightarrow> byte \<Rightarrow> wispConnection \<Rightarrow> connect_plan \<times> wispConnection" where
  "reject_connect r reason c = (ConnectRejected reason, signalConnReady r (stream_close r reason c))"

text \<open>\<^verbatim>\<open>handleConnect\<close> up to the dial.\<close>

definition handleConnect_plan ::
  "connect_env \<Rightarrow> nat \<Rightarrow> byte \<Rightarrow> string \<Rightarrow> string \<Rightarrow> wispConnection \<Rightarrow> connect_plan \<times> wispConnection" where
  "handleConnect_plan env r streamType port hostname0 c0 =
     (let cfg = config c0;
          host = NormalizeTargetHostname (ulower env) hostname0;
          c = upd_stream r (\<lambda>s. s\<lparr>st_hostname := host\<rparr>) c0;
          portNum = (case heap c r of None \<Rightarrow> 0 | Some s \<Rightarrow> st_portNum s)
      in
      if hostname_blocked cfg host then reject_connect r closeReasonBlocked c
      else if port_blocked cfg (of_int portNum) then reject_connect r closeReasonBlocked c
      else if (streamType = streamTypeTCP \<and> \<not> AllowTCP cfg) \<or> (streamType = streamTypeUDP \<and> \<not> AllowUDP cfg)
      then reject_connect r closeReasonBlocked c
      else if streamType \<noteq> streamTypeTCP \<and> streamType \<noteq> streamTypeUDP
      then reject_connect r closeReasonInvalidInfo c
      else (case resolve_target env cfg host (DNSCache c) of
              (Inl reason, dns) \<Rightarrow> reject_connect r reason (c\<lparr>DNSCache := dns\<rparr>)
            | (Inr resolved, dns) \<Rightarrow>
                (case connect_limits env streamType port resolved portNum (c\<lparr>DNSCache := dns\<rparr>) of
                   (Inl reason, c2) \<Rightarrow> reject_connect r reason c2
                 | (Inr syn, c2) \<Rightarrow>
                     (let c3 = upd_stream r (\<lambda>s. s\<lparr>st_streamType := streamType,
                                                 bufferRemaining := BufferRemainingLength cfg\<rparr>) c2;
                          destination = JoinHostPort resolved port
                      in if streamType = streamTypeTCP then
                           (ConnectDial True destination resolved (Proxy cfg \<noteq> []) syn, c3)
                         else if Proxy cfg \<noteq> [] \<or> \<not> AllowUDP cfg then
                           reject_connect r closeReasonBlocked (releaseSyn syn c3)
                         else (ConnectDial False destination resolved False syn, c3)))))"

text \<open>
  After the dial, which gave \<open>err\<close>: \<open>False\<close> when the goroutine returns. The clock reads
  from 7 on.
\<close>

definition handleConnect_dialled ::
  "connect_env \<Rightarrow> nat \<Rightarrow> connect_plan \<Rightarrow> string option \<Rightarrow> wispConnection \<Rightarrow> bool \<times> wispConnection" where
  "handleConnect_dialled env r plan err c0 =
     (case plan of
        ConnectRejected _ \<Rightarrow> (False, c0)
      | ConnectDial isTCP destination host via syn \<Rightarrow>
          (let c1 = upd_stream r (\<lambda>s. if err = None then s\<lparr>st_conn := ConnOpen\<rparr> else s) c0;
               c2 = releaseSyn syn c1;
               portNum = (case heap c2 r of None \<Rightarrow> 0 | Some s \<Rightarrow> st_portNum s);
               (matched, c3) =
                 (case globals c2 of
                    None \<Rightarrow> (False, c2)
                  | Some g \<Rightarrow>
                      if isTCP \<and> g_Signature g \<noteq> None then
                        (case signature_dial (clock env 7) (connID c2) host portNum (err = None) (g_Signature g) of
                           (m, sigs) \<Rightarrow> (m, c2\<lparr>globals := Some (g\<lparr>g_Signature := sigs\<rparr>)\<rparr>))
                      else (False, c2))
           in if matched then
                (let c4 = repAddDest (clock env 9) host portNum ''synSignature'' (repAddSource (clock env 8) ''synSignature'' c3);
                     c5 = upd_stream r (\<lambda>s. if err = None then s\<lparr>st_conn := ConnClosed\<rparr> else s) c4
                 in (False, signalConnReady r (conn_close (stream_close r closeReasonBlocked c5))))
              else if err \<noteq> None then (False, signalConnReady r (stream_close r (mapDialError err) c3))
              else (case heap c3 r of
                      None \<Rightarrow> (True, c3)
                    | Some s \<Rightarrow>
                        (True, if streamConfirm c3 \<and> isTCP then sendPacket (st_streamId s) (bufferRemaining s) c3 else c3))))"

text \<open>The pending data is taken, flushed piece by piece, and the stream becomes ready.\<close>

definition take_pending :: "nat \<Rightarrow> wispConnection \<Rightarrow> bytes list \<times> wispConnection" where
  "take_pending r c =
     (case heap c r of
        None \<Rightarrow> ([], c)
      | Some s \<Rightarrow> (pendingData s, upd_stream r (\<lambda>s. s\<lparr>pendingData := [], st_pendingBytes := 0\<rparr>) c))"

definition target_written :: "bytes \<Rightarrow> wispStream \<Rightarrow> wispStream" where
  "target_written data s = s\<lparr>st_written := st_written s @ [data]\<rparr>"

text \<open>One turn of the flush, whose write succeeds or not: \<open>False\<close> when the goroutine returns.\<close>

definition flush_one :: "nat \<Rightarrow> bytes \<Rightarrow> bool \<Rightarrow> wispConnection \<Rightarrow> bool \<times> wispConnection" where
  "flush_one r data ok c =
     (case heap c r of
        None \<Rightarrow> (False, c)
      | Some s \<Rightarrow>
          if \<not> isOpen s then (False, signalConnReady r c)
          else if ok then (True, upd_stream r (target_written data) c)
          else (False, signalConnReady r (stream_close r closeReasonNetworkError c)))"

fun flush_all :: "nat \<Rightarrow> (bytes \<times> bool) list \<Rightarrow> wispConnection \<Rightarrow> bool \<times> wispConnection" where
  "flush_all r [] c = (True, c)"
| "flush_all r ((data, ok) # ds) c =
     (case flush_one r data ok c of (False, c') \<Rightarrow> (False, c') | (True, c') \<Rightarrow> flush_all r ds c')"

definition connect_ready :: "nat \<Rightarrow> bool \<Rightarrow> wispConnection \<Rightarrow> wispConnection" where
  "connect_ready r isTCP c =
     signalConnReady r (if isTCP then upd_stream r (\<lambda>s. s\<lparr>ingressActive := True\<rparr>) c else c)"

text \<open>
  \<^verbatim>\<open>handleConnect\<close> without interference, up to the call of
  \<^verbatim>\<open>readFromConnection\<close>: \<open>err\<close> is the outcome of the dial, \<open>oks\<close> the outcomes of
  the writes of the flush.
\<close>

definition handleConnect ::
  "connect_env \<Rightarrow> string option \<Rightarrow> (nat \<Rightarrow> bool) \<Rightarrow> nat \<Rightarrow> byte \<Rightarrow> string \<Rightarrow> string \<Rightarrow> wispConnection
     \<Rightarrow> bool \<times> wispConnection" where
  "handleConnect env err oks r streamType port hostname c =
     (case handleConnect_plan env r streamType port hostname c of
        (ConnectRejected reason, c1) \<Rightarrow> (False, c1)
      | (plan, c1) \<Rightarrow>
          (case handleConnect_dialled env r plan err c1 of
             (False, c2) \<Rightarrow> (False, c2)
           | (True, c2) \<Rightarrow>
               (case take_pending r c2 of
                  (pending, c3) \<Rightarrow>
                    (case flush_all r (zip pending (map oks [0..<length pending])) c3 of
                       (False, c4) \<Rightarrow> (False, c4)
                     | (True, c4) \<Rightarrow> (True, connect_ready r (streamType = streamTypeTCP) c4)))))"

section \<open>Data towards the target\<close>

definition job_bytes :: "bytes list \<Rightarrow> int" where
  "job_bytes js = (\<Sum>j\<leftarrow>js. int (length j))"

definition submitIngress :: "nat \<Rightarrow> bytes \<Rightarrow> wispConnection \<Rightarrow> bool \<times> wispConnection" where
  "submitIngress r payload c =
     (case heap c r of
        None \<Rightarrow> (False, c)
      | Some s \<Rightarrow>
          if \<not> ingressActive s \<or> \<not> isOpen s then (False, c)
          else if maxPendingQueueBytes c < pendingIngBytes s + int (length payload)
          then (False, stream_close r closeReasonThrottled c)
          else
            (let c1 = upd_stream r (\<lambda>s. s\<lparr>pendingIngress := pendingIngress s @ [payload],
                                         pendingIngBytes := pendingIngBytes s + int (length payload)\<rparr>) c
             in if ingressWriting s then (True, c1)
                else (True, spawn (GoIngressWriter r) (upd_stream r (\<lambda>s. s\<lparr>ingressWriting := True\<rparr>) c1))))"

text \<open>
  \<^verbatim>\<open>queueIngressOwned\<close> repeats the first check of \<^verbatim>\<open>submitIngress\<close>; the buffers'
  way back to their pools is not part of the state.
\<close>

definition queueIngressOwned :: "nat \<Rightarrow> bytes \<Rightarrow> wispConnection \<Rightarrow> bool \<times> wispConnection" where
  "queueIngressOwned r payload c =
     (case heap c r of
        None \<Rightarrow> (False, c)
      | Some s \<Rightarrow> if \<not> ingressActive s \<or> \<not> isOpen s then (False, c) else submitIngress r payload c)"

text \<open>
  \<^verbatim>\<open>runIngressWriter\<close>: the locked part that takes the batch (\<open>None\<close> when it
  returns), and the rest of the turn with the outcome of the write; \<open>False\<close> when it returns.
\<close>

definition ingress_take :: "nat \<Rightarrow> wispConnection \<Rightarrow> bytes list option \<times> wispConnection" where
  "ingress_take r c =
     (case heap c r of
        None \<Rightarrow> (None, c)
      | Some s \<Rightarrow>
          if pendingIngress s = [] then (None, upd_stream r (\<lambda>s. s\<lparr>ingressWriting := False\<rparr>) c)
          else (Some (pendingIngress s),
                upd_stream r (\<lambda>s. s\<lparr>pendingIngBytes := pendingIngBytes s - job_bytes (pendingIngress s),
                                   pendingIngress := []\<rparr>) c))"

definition ingress_write :: "nat \<Rightarrow> bytes list \<Rightarrow> bool \<Rightarrow> wispConnection \<Rightarrow> bool \<times> wispConnection" where
  "ingress_write r batch ok c =
     (case heap c r of
        None \<Rightarrow> (False, c)
      | Some s \<Rightarrow>
          if \<not> isOpen s then (False, upd_stream r (\<lambda>s. s\<lparr>ingressWriting := False\<rparr>) c)
          else if ok then (True, upd_stream r (\<lambda>s. s\<lparr>st_written := st_written s @ batch\<rparr>) c)
          else (False, stream_close r closeReasonNetworkError (upd_stream r (\<lambda>s. s\<lparr>ingressWriting := False\<rparr>) c)))"

section \<open>Data from the target\<close>

datatype read_error = ReadNil | ReadEOF | ReadFailed

text \<open>
  One turn of \<^verbatim>\<open>readFromConnection\<close>: \<open>buf\<close> is the pooled buffer, \<open>d\<close> the bytes
  that \<^verbatim>\<open>Read\<close> put behind the header room, \<open>admitted\<close> the answer of the bandwidth
  limiter. \<open>False\<close> when the goroutine returns.
\<close>

definition readFromConnection_turn ::
  "nat \<Rightarrow> bytes \<Rightarrow> bytes \<Rightarrow> read_error \<Rightarrow> gotime \<Rightarrow> gotime \<Rightarrow> bool \<Rightarrow> wispConnection \<Rightarrow> bool \<times> wispConnection" where
  "readFromConnection_turn r buf d err now now' stopped c =
     (case heap c r of
        None \<Rightarrow> (False, c)
      | Some s \<Rightarrow>
          (let (admitted, c1) =
                 (if d = [] then (True, c)
                  else (case globals c of
                          None \<Rightarrow> (True, c)
                        | Some g \<Rightarrow>
                            (case BandwidthLimiter_Wait now now' stopped (remoteIP c) (int (length d)) (g_Bandwidth g) of
                               (ok, l) \<Rightarrow> (ok, c\<lparr>globals := Some (g\<lparr>g_Bandwidth := l\<rparr>)\<rparr>))))
           in if \<not> admitted then (False, signalConnReady r c1)
              else
                (let c2 = (if d = [] then c1
                           else queueWritePooled (frame_in_place (read_behind_header buf d) (st_streamId s) (length d))
                                  (c1\<lparr>egressBytes := egressBytes c1 + of_nat (length d)\<rparr>))
                 in case err of
                      ReadNil \<Rightarrow> (True, c2)
                    | ReadEOF \<Rightarrow> (False, signalConnReady r (stream_close r closeReasonVoluntary c2))
                    | ReadFailed \<Rightarrow> (False, signalConnReady r (stream_close r closeReasonNetworkError c2)))))"

end
