(* ===== verification/Ingress.thy ===== *)
theory Ingress
  imports Streams "HOL-Library.Multiset" "HOL-Library.Sublist"
begin

text \<open>
  The queue of a stream towards its target at the grain of its locks (\<^verbatim>\<open>submitIngress\<close>,
  \<^verbatim>\<open>runIngressWriter\<close>, the end of \<^verbatim>\<open>close\<close> in \<^verbatim>\<open>wisp/wisp-stream.go\<close>), and
  the pooled buffers that carry the payloads through it (\<^verbatim>\<open>wisp/wsreader.go\<close>). A payload is a
  slice of a buffer that other goroutines may be given as soon as it is back in the pool: the
  bytes that reach the target are read from the memory when they are written.
\<close>

section \<open>Buffers\<close>

text \<open>
  Buffers are numbered; \<open>buf_mem\<close> is the array behind each, as long as its capacity.
  A \<^verbatim>\<open>sync.Pool\<close> returns any of its elements or a new one: \<open>pick\<close> is the position of the
  element, and a new buffer is made if there is none at that position.
\<close>

record buf_pools =
  buf_mem :: "nat \<Rightarrow> bytes"
  wsPayloadPool :: "nat list"
  ingressBufPool :: "nat list"
  next_buf :: nat

definition new_buf :: "nat \<Rightarrow> buf_pools \<Rightarrow> nat \<times> buf_pools" where
  "new_buf n b = (next_buf b, b\<lparr>buf_mem := (buf_mem b)(next_buf b := replicate n 0), next_buf := Suc (next_buf b)\<rparr>)"

definition without :: "nat \<Rightarrow> 'a list \<Rightarrow> 'a list" where
  "without k xs = take k xs @ drop (Suc k) xs"

definition wsPayloadPoolSize :: nat where "wsPayloadPoolSize = 256 * 1024"

definition getWSPayloadBuf :: "nat \<Rightarrow> nat \<Rightarrow> buf_pools \<Rightarrow> nat \<times> buf_pools" where
  "getWSPayloadBuf need pick b =
     (let (r, b1) = (if pick < length (wsPayloadPool b)
                     then (wsPayloadPool b ! pick, b\<lparr>wsPayloadPool := without pick (wsPayloadPool b)\<rparr>)
                     else new_buf wsPayloadPoolSize b)
      in if length (buf_mem b1 r) < need then new_buf need b1 else (r, b1))"

definition putWSPayloadBuf :: "nat option \<Rightarrow> buf_pools \<Rightarrow> buf_pools" where
  "putWSPayloadBuf bufp b =
     (case bufp of
        None \<Rightarrow> b
      | Some r \<Rightarrow>
          if length (buf_mem b r) = 0 \<or> wsPayloadPoolSize < length (buf_mem b r) then b
          else b\<lparr>wsPayloadPool := r # wsPayloadPool b\<rparr>)"

definition getIngressBuf :: "nat \<Rightarrow> nat \<Rightarrow> buf_pools \<Rightarrow> nat \<times> buf_pools" where
  "getIngressBuf need pick b =
     (let (r, b1) = (if pick < length (ingressBufPool b)
                     then (ingressBufPool b ! pick, b\<lparr>ingressBufPool := without pick (ingressBufPool b)\<rparr>)
                     else new_buf (256 * 1024) b)
      in if length (buf_mem b1 r) < need then new_buf need b1 else (r, b1))"

definition putIngressBuf :: "nat option \<Rightarrow> buf_pools \<Rightarrow> buf_pools" where
  "putIngressBuf bufp b =
     (case bufp of
        None \<Rightarrow> b
      | Some r \<Rightarrow>
          if length (buf_mem b r) = 0 \<or> 256 * 1024 < length (buf_mem b r) then b
          else b\<lparr>ingressBufPool := r # ingressBufPool b\<rparr>)"

section \<open>Jobs\<close>

text \<open>A payload is a part of a pooled buffer, or memory of its own (a reassembled message).\<close>

datatype slice = PoolSlice nat nat nat | OwnSlice bytes

datatype ingressPool = ingressPoolNone | ingressPoolWS | ingressPoolCopy

record ingressJob =
  job_payload :: slice
  job_bufp :: "nat option"
  job_pool :: ingressPool

fun slice_len :: "slice \<Rightarrow> nat" where
  "slice_len (PoolSlice r off n) = n"
| "slice_len (OwnSlice bs) = length bs"

fun slice_bytes :: "(nat \<Rightarrow> bytes) \<Rightarrow> slice \<Rightarrow> bytes" where
  "slice_bytes mem (PoolSlice r off n) = take n (drop off (mem r))"
| "slice_bytes mem (OwnSlice bs) = bs"

definition releaseIngressJob :: "ingressJob \<Rightarrow> buf_pools \<Rightarrow> buf_pools" where
  "releaseIngressJob j b =
     (if job_bufp j = None then b
      else (case job_pool j of
              ingressPoolWS \<Rightarrow> putWSPayloadBuf (job_bufp j) b
            | ingressPoolCopy \<Rightarrow> putIngressBuf (job_bufp j) b
            | ingressPoolNone \<Rightarrow> b))"

section \<open>The queue\<close>

text \<open>
  The fields of the stream that the queue uses, the buffers, and what the properties speak of: the
  bytes of the payloads as they were when they were queued, and the bytes at the target.
  \<open>ing_intact\<close> is lost when a write fails.
\<close>

record ingress =
  ing_open :: bool
  ing_active :: bool
  ing_queue :: "ingressJob list"
  ing_bytes :: int
  ing_writing :: bool
  ing_bufs :: buf_pools
  ing_max :: int
  ing_accepted :: bytes
  ing_wire :: bytes
  ing_intact :: bool

definition job_weight :: "ingressJob \<Rightarrow> int" where
  "job_weight j = int (slice_len (job_payload j))"

definition job_data :: "ingress \<Rightarrow> ingressJob list \<Rightarrow> bytes" where
  "job_data s js = concat (map (\<lambda>j. slice_bytes (buf_mem (ing_bufs s)) (job_payload j)) js)"

definition ingress_ready :: "ingress \<Rightarrow> bool" where
  "ingress_ready s \<longleftrightarrow> ing_active s \<and> ing_open s"

definition queueIngressOwned_job :: "nat \<Rightarrow> nat \<Rightarrow> nat \<Rightarrow> ingressJob" where
  "queueIngressOwned_job r off n = \<lparr>job_payload = PoolSlice r off n, job_bufp = Some r, job_pool = ingressPoolWS\<rparr>"

definition queueIngressOwned_fragments :: "bytes \<Rightarrow> ingressJob" where
  "queueIngressOwned_fragments bs = \<lparr>job_payload = OwnSlice bs, job_bufp = None, job_pool = ingressPoolWS\<rparr>"

text \<open>The locked part of \<^verbatim>\<open>submitIngress\<close>, and what it decides there.\<close>

datatype ingress_outcome = IngressOverflow | IngressQueued | IngressStart

definition ingress_append :: "ingressJob \<Rightarrow> ingress \<Rightarrow> ingress_outcome \<times> ingress" where
  "ingress_append j s =
     (if ing_max s < ing_bytes s + job_weight j
      then (IngressOverflow, s\<lparr>ing_bufs := releaseIngressJob j (ing_bufs s)\<rparr>)
      else
        (let s1 = s\<lparr>ing_queue := ing_queue s @ [j], ing_bytes := ing_bytes s + job_weight j,
                    ing_accepted := ing_accepted s @ job_data s [j]\<rparr>
         in if ing_writing s then (IngressQueued, s1) else (IngressStart, s1\<lparr>ing_writing := True\<rparr>)))"

text \<open>The locked part at the top of the loop of \<^verbatim>\<open>runIngressWriter\<close>.\<close>

definition take_jobs :: "ingress \<Rightarrow> ingressJob list option \<times> ingress" where
  "take_jobs s =
     (if ing_queue s = [] then (None, s\<lparr>ing_writing := False\<rparr>)
      else (Some (ing_queue s),
            s\<lparr>ing_queue := [], ing_bytes := ing_bytes s - sum_list (map job_weight (ing_queue s))\<rparr>))"

definition drain_jobs :: "ingress \<Rightarrow> ingressJob list \<times> ingress" where
  "drain_jobs s = (ing_queue s, s\<lparr>ing_queue := [], ing_bytes := 0\<rparr>)"

definition release_job :: "ingressJob \<Rightarrow> ingress \<Rightarrow> ingress" where
  "release_job j s = s\<lparr>ing_bufs := releaseIngressJob j (ing_bufs s)\<rparr>"


interpretation iq: byte_queue ing_queue ing_bytes ing_max job_weight "\<lambda>j s. snd (ingress_append j s)" "\<lambda>s. snd (take_jobs s)"
  by unfold_locales (auto simp: job_weight_def ingress_append_def take_jobs_def Let_def)

section \<open>Goroutines and their steps\<close>

text \<open>
  \<open>GHas\<close> owns a buffer: the read loop with a frame's payload, of this stream or another one, of
  this connection or another one. \<open>GSubmit\<close> and \<open>GAppend\<close> are in \<^verbatim>\<open>submitIngress\<close> before
  and after its check; \<open>GClose\<close>, \<open>GDeactivate\<close>, \<open>GDrain\<close> in \<^verbatim>\<open>close\<close>; \<open>GTake\<close>,
  \<open>GBatch\<close>, \<open>GWrite\<close>, \<open>GStop\<close> in \<^verbatim>\<open>runIngressWriter\<close>; \<open>GRelease\<close> returns the
  buffers of jobs one by one and then goes on.
\<close>

datatype after_release = ThenDone | ThenTake | ThenStop bool

datatype igo =
    GHas nat | GSubmit ingressJob | GAppend ingressJob | GClose | GDeactivate | GDrain
  | GRelease "ingressJob list" after_release | GTake | GBatch "ingressJob list" | GWrite "ingressJob list"
  | GStop bool

type_synonym ingress_sys = "ingress \<times> igo multiset"

inductive istep :: "ingress_sys \<Rightarrow> ingress_sys \<Rightarrow> bool" where
  i_get: "getWSPayloadBuf n pick (ing_bufs s) = (r, b) \<Longrightarrow>
     istep (s, ps) (s\<lparr>ing_bufs := b\<rparr>, add_mset (GHas r) ps)"
| i_fill: "length bs = length (buf_mem (ing_bufs s) r) \<Longrightarrow>
     istep (s, add_mset (GHas r) ps)
       (s\<lparr>ing_bufs := (ing_bufs s)\<lparr>buf_mem := (buf_mem (ing_bufs s))(r := bs)\<rparr>\<rparr>, add_mset (GHas r) ps)"
| i_put: "istep (s, add_mset (GHas r) ps) (s\<lparr>ing_bufs := putWSPayloadBuf (Some r) (ing_bufs s)\<rparr>, ps)"
| i_pool_drop: "istep (s, ps) (s\<lparr>ing_bufs := (ing_bufs s)\<lparr>wsPayloadPool := without k (wsPayloadPool (ing_bufs s))\<rparr>\<rparr>, ps)"
| i_owned: "ingress_ready s \<Longrightarrow> off + n \<le> length (buf_mem (ing_bufs s) r) \<Longrightarrow>
     istep (s, add_mset (GHas r) ps) (s, add_mset (GSubmit (queueIngressOwned_job r off n)) ps)"
| i_fragments: "ingress_ready s \<Longrightarrow> istep (s, ps) (s, add_mset (GSubmit (queueIngressOwned_fragments bs)) ps)"
| i_refused: "\<not> ingress_ready s \<Longrightarrow> istep (s, add_mset (GSubmit j) ps) (release_job j s, ps)"
| i_checked: "ingress_ready s \<Longrightarrow> istep (s, add_mset (GSubmit j) ps) (s, add_mset (GAppend j) ps)"
| i_overflow: "ingress_append j s = (IngressOverflow, s') \<Longrightarrow>
     istep (s, add_mset (GAppend j) ps) (s', add_mset GClose ps)"
| i_queued: "ingress_append j s = (IngressQueued, s') \<Longrightarrow> istep (s, add_mset (GAppend j) ps) (s', ps)"
| i_start: "ingress_append j s = (IngressStart, s') \<Longrightarrow>
     istep (s, add_mset (GAppend j) ps) (s', add_mset GTake ps)"
| i_close: "istep (s, ps) (s, add_mset GClose ps)"
| i_close_lost: "\<not> ing_open s \<Longrightarrow> istep (s, add_mset GClose ps) (s, ps)"
| i_close_won: "ing_open s \<Longrightarrow> istep (s, add_mset GClose ps) (s\<lparr>ing_open := False\<rparr>, add_mset GDeactivate ps)"
| i_inactive: "\<not> ing_active s \<Longrightarrow> istep (s, add_mset GDeactivate ps) (s, ps)"
| i_deactivate: "ing_active s \<Longrightarrow>
     istep (s, add_mset GDeactivate ps) (s\<lparr>ing_active := False\<rparr>, add_mset GDrain ps)"
| i_drain: "drain_jobs s = (js, s') \<Longrightarrow> istep (s, add_mset GDrain ps) (s', add_mset (GRelease js ThenDone) ps)"
| i_release: "istep (s, add_mset (GRelease (j # js) a) ps) (release_job j s, add_mset (GRelease js a) ps)"
| i_done: "istep (s, add_mset (GRelease [] ThenDone) ps) (s, ps)"
| i_again: "istep (s, add_mset (GRelease [] ThenTake) ps) (s, add_mset GTake ps)"
| i_stopping: "istep (s, add_mset (GRelease [] (ThenStop cl)) ps) (s, add_mset (GStop cl) ps)"
| i_stop: "istep (s, add_mset (GStop cl) ps)
     (s\<lparr>ing_writing := False\<rparr>, (if cl then {#GClose#} else {#}) + ps)"
| i_exit: "take_jobs s = (None, s') \<Longrightarrow> istep (s, add_mset GTake ps) (s', ps)"
| i_take: "take_jobs s = (Some js, s') \<Longrightarrow> istep (s, add_mset GTake ps) (s', add_mset (GBatch js) ps)"
| i_batch_closed: "\<not> ing_open s \<Longrightarrow>
     istep (s, add_mset (GBatch js) ps) (s, add_mset (GRelease js (ThenStop False)) ps)"
| i_batch_open: "ing_open s \<Longrightarrow> istep (s, add_mset (GBatch js) ps) (s, add_mset (GWrite js) ps)"
| i_written: "istep (s, add_mset (GWrite js) ps)
     (s\<lparr>ing_wire := ing_wire s @ job_data s js\<rparr>, add_mset (GRelease js ThenTake) ps)"
| i_write_error: "istep (s, add_mset (GWrite js) ps)
     (s\<lparr>ing_wire := ing_wire s @ take n (job_data s js), ing_intact := False\<rparr>,
      add_mset (GRelease js (ThenStop True)) ps)"

definition ingress_start :: "int \<Rightarrow> ingress" where
  "ingress_start mx =
     \<lparr>ing_open = True, ing_active = True, ing_queue = [], ing_bytes = 0, ing_writing = False,
      ing_bufs = \<lparr>buf_mem = (\<lambda>_. []), wsPayloadPool = [], ingressBufPool = [], next_buf = 0\<rparr>,
      ing_max = mx, ing_accepted = [], ing_wire = [], ing_intact = True\<rparr>"

inductive ireach :: "int \<Rightarrow> ingress_sys \<Rightarrow> bool" for mx where
  ireach_start: "ireach mx (ingress_start mx, {#})"
| ireach_step: "ireach mx x \<Longrightarrow> istep x y \<Longrightarrow> ireach mx y"

section \<open>Owners\<close>

definition job_bufs :: "ingressJob list \<Rightarrow> nat multiset" where
  "job_bufs js = (\<Sum>j\<in>#mset js. case job_bufp j of None \<Rightarrow> {#} | Some r \<Rightarrow> {#r#})"

fun go_jobs :: "igo \<Rightarrow> ingressJob list" where
  "go_jobs (GSubmit j) = [j]"
| "go_jobs (GAppend j) = [j]"
| "go_jobs (GRelease js a) = js"
| "go_jobs (GBatch js) = js"
| "go_jobs (GWrite js) = js"
| "go_jobs _ = []"

fun go_has :: "igo \<Rightarrow> nat multiset" where
  "go_has (GHas r) = {#r#}"
| "go_has _ = {#}"

definition pool_bufs :: "buf_pools \<Rightarrow> nat multiset" where
  "pool_bufs b = mset (wsPayloadPool b) + mset (ingressBufPool b)"

definition owners :: "ingress_sys \<Rightarrow> nat multiset" where
  "owners x = (case x of (s, ps) \<Rightarrow>
     pool_bufs (ing_bufs s) + job_bufs (ing_queue s) + (\<Sum>p\<in>#ps. go_has p + job_bufs (go_jobs p)))"

definition owned_once :: "nat multiset \<Rightarrow> nat \<Rightarrow> bool" where
  "owned_once M n \<longleftrightarrow> (\<forall>r. count M r \<le> (if r < n then 1 else 0))"

lemma job_bufs_simps [simp]:
  "job_bufs [] = {#}" "job_bufs (j # js) = (case job_bufp j of None \<Rightarrow> {#} | Some r \<Rightarrow> {#r#}) + job_bufs js"
  "job_bufs (js @ js') = job_bufs js + job_bufs js'"
  by (simp_all add: job_bufs_def)

lemma owned_once_less:
  assumes "owned_once M n" "M' \<subseteq># M" "n \<le> n'"
  shows "owned_once M' n'"
  unfolding owned_once_def
proof
  fix r
  have "count M' r \<le> count M r" using assms(2) by (rule mset_subset_eq_count)
  then show "count M' r \<le> (if r < n' then 1 else 0)"
    using assms(1,3)[unfolded owned_once_def] by (cases "r < n") (fastforce dest: spec[of _ r])+
qed

lemma owned_once_new:
  assumes "owned_once M n" "M' \<subseteq># add_mset q M" "n \<le> q" "q < n'"
  shows "owned_once M' n'"
proof -
  have "owned_once (add_mset q M) n'"
    unfolding owned_once_def
  proof
    fix r
    have "count M r \<le> (if r < n then 1 else 0)" using assms(1) unfolding owned_once_def by blast
    then show "count (add_mset q M) r \<le> (if r < n' then 1 else 0)"
      using assms(3,4) by (auto split: if_splits)
  qed
  then show ?thesis using owned_once_less assms(2) by blast
qed

lemma put_owners: "pool_bufs (putWSPayloadBuf bufp b) \<subseteq># (case bufp of None \<Rightarrow> {#} | Some r \<Rightarrow> {#r#}) + pool_bufs b"
  "next_buf (putWSPayloadBuf bufp b) = next_buf b" "buf_mem (putWSPayloadBuf bufp b) = buf_mem b"
  "pool_bufs (putIngressBuf bufp b) \<subseteq># (case bufp of None \<Rightarrow> {#} | Some r \<Rightarrow> {#r#}) + pool_bufs b"
  "next_buf (putIngressBuf bufp b) = next_buf b" "buf_mem (putIngressBuf bufp b) = buf_mem b"
  by (auto simp: putWSPayloadBuf_def putIngressBuf_def pool_bufs_def split: option.splits)

lemma release_owners: "pool_bufs (releaseIngressJob j b) \<subseteq># job_bufs [j] + pool_bufs b"
  "next_buf (releaseIngressJob j b) = next_buf b" "buf_mem (releaseIngressJob j b) = buf_mem b"
  using put_owners[where bufp = "job_bufp j" and b = b]
  by (auto simp: releaseIngressJob_def split: ingressPool.splits)

lemma without_nth: "k < length xs \<Longrightarrow> add_mset (xs ! k) (mset (without k xs)) = mset xs"
  using id_take_nth_drop[of k xs] by (metis without_def mset.simps(2) mset_append union_mset_add_mset_right)

lemma without_subset: "mset (without k xs) \<subseteq># mset xs"
proof (cases "k < length xs")
  case True
  from without_nth[OF this] show ?thesis by (metis multi_psub_of_add_self subset_mset.less_imp_le)
qed (simp add: without_def)

lemma get_owners:
  assumes "getWSPayloadBuf n pick b = (r, b')"
  shows "(pool_bufs b' + {#r#} \<subseteq># pool_bufs b \<and> next_buf b' = next_buf b \<and> buf_mem b' = buf_mem b) \<or>
    (pool_bufs b' \<subseteq># pool_bufs b \<and> next_buf b \<le> r \<and> r < next_buf b' \<and>
     (\<forall>q < next_buf b. buf_mem b' q = buf_mem b q))"
proof (cases "pick < length (wsPayloadPool b)")
  case True
  let ?b = "b\<lparr>wsPayloadPool := without pick (wsPayloadPool b)\<rparr>"
  have "mset (wsPayloadPool b) = add_mset (wsPayloadPool b ! pick) (mset (without pick (wsPayloadPool b)))"
    using without_nth[OF True] by simp
  then have p: "pool_bufs ?b + {#wsPayloadPool b ! pick#} = pool_bufs b" by (simp add: pool_bufs_def)
  then have "pool_bufs ?b \<subseteq># pool_bufs b" by (metis mset_subset_eq_add_left)
  moreover have "pool_bufs (snd (new_buf n ?b)) = pool_bufs ?b" by (simp add: new_buf_def pool_bufs_def)
  ultimately show ?thesis using assms True p
    by (auto simp: getWSPayloadBuf_def new_buf_def Let_def split: if_splits)
next
  case False
  then show ?thesis using assms
    by (auto simp: getWSPayloadBuf_def new_buf_def pool_bufs_def Let_def split: if_splits)
qed


definition next_of :: "ingress_sys \<Rightarrow> nat" where "next_of x = next_buf (ing_bufs (fst x))"

lemma owners_simp: "owners (s, ps) =
    pool_bufs (ing_bufs s) + (job_bufs (ing_queue s) + (\<Sum>p\<in>#ps. go_has p + job_bufs (go_jobs p)))"
  by (simp add: owners_def ac_simps)

lemma append_owners: "ingress_append j s = (res, s') \<Longrightarrow>
    pool_bufs (ing_bufs s') + job_bufs (ing_queue s') \<subseteq># pool_bufs (ing_bufs s) + (job_bufs [j] + job_bufs (ing_queue s)) \<and>
    next_buf (ing_bufs s') = next_buf (ing_bufs s)"
  using release_owners(1,2)[of j "ing_bufs s"]
  by (auto simp: ingress_append_def Let_def ac_simps split: if_splits option.splits
      dest: mset_subset_eq_mono_add[OF _ subset_mset.order_refl[of "job_bufs (ing_queue s)"]])

lemma owners_step:
  assumes "istep x y"
  shows "(owners y \<subseteq># owners x \<and> next_of y = next_of x) \<or>
    (\<exists>q. owners y \<subseteq># add_mset q (owners x) \<and> next_of x \<le> q \<and> q < next_of y)"
  using assms
proof cases
  case (i_get n pick s r b ps)
  from get_owners[OF i_get(3)] show ?thesis
  proof
    assume *: "pool_bufs b + {#r#} \<subseteq># pool_bufs (ing_bufs s) \<and> next_buf b = next_buf (ing_bufs s) \<and> buf_mem b = buf_mem (ing_bufs s)"
    then have "(pool_bufs b + {#r#}) + X \<subseteq># pool_bufs (ing_bufs s) + X" for X by simp
    then show ?thesis using * i_get by (simp add: owners_simp next_of_def)
  next
    assume *: "pool_bufs b \<subseteq># pool_bufs (ing_bufs s) \<and> next_buf (ing_bufs s) \<le> r \<and> r < next_buf b \<and>
      (\<forall>q<next_buf (ing_bufs s). buf_mem b q = buf_mem (ing_bufs s) q)"
    then show ?thesis using i_get by (intro disjI2 exI[of _ r]) (auto simp: owners_simp next_of_def)
  qed
next
  case (i_put s r ps)
  then show ?thesis using put_owners(1,2)[of "Some r" "ing_bufs s"]
    by (auto simp: owners_simp next_of_def)
next
  case (i_pool_drop s ps k)
  then show ?thesis using without_subset[of k "wsPayloadPool (ing_bufs s)"]
    by (auto simp: owners_simp next_of_def pool_bufs_def)
next
  case (i_refused s j ps)
  then show ?thesis using release_owners(1,2)[of j "ing_bufs s"]
    by (auto simp: owners_simp next_of_def release_job_def ac_simps)
next
  case (i_release s j js a ps)
  then show ?thesis using release_owners(1,2)[of j "ing_bufs s"]
    by (auto simp: owners_simp next_of_def release_job_def ac_simps)
next
  case (i_overflow j s s' ps)
  from append_owners[OF i_overflow(3)] i_overflow(1,2) show ?thesis
    by (auto simp: owners_simp next_of_def ac_simps)
next
  case (i_queued j s s' ps)
  from append_owners[OF i_queued(3)] i_queued(1,2) show ?thesis
    by (auto simp: owners_simp next_of_def ac_simps)
next
  case (i_start j s s' ps)
  from append_owners[OF i_start(3)] i_start(1,2) show ?thesis
    by (auto simp: owners_simp next_of_def ac_simps)
qed (auto simp: owners_simp next_of_def queueIngressOwned_job_def queueIngressOwned_fragments_def
      drain_jobs_def take_jobs_def ac_simps pool_bufs_def split: if_splits)


definition job_ok :: "ingressJob \<Rightarrow> bool" where
  "job_ok j \<longleftrightarrow> (case job_payload j of PoolSlice r off n \<Rightarrow> job_bufp j = Some r | OwnSlice bs \<Rightarrow> True)"

definition jobs_ok :: "ingress_sys \<Rightarrow> bool" where
  "jobs_ok x \<longleftrightarrow> (case x of (s, ps) \<Rightarrow>
     list_all job_ok (ing_queue s) \<and> (\<forall>p \<in># ps. list_all job_ok (go_jobs p)))"

definition ingress_owned :: "ingress_sys \<Rightarrow> bool" where
  "ingress_owned x \<longleftrightarrow> owned_once (owners x) (next_of x) \<and> jobs_ok x"

lemma job_ok_new [simp]: "job_ok (queueIngressOwned_job r off n)" "job_ok (queueIngressOwned_fragments bs)"
  by (simp_all add: job_ok_def queueIngressOwned_job_def queueIngressOwned_fragments_def)

lemma jobs_ok_step: "istep x y \<Longrightarrow> jobs_ok x \<Longrightarrow> jobs_ok y"
  by (induction rule: istep.induct)
     (auto simp: jobs_ok_def release_job_def ingress_append_def take_jobs_def drain_jobs_def Let_def split: if_splits)

lemma ingress_owned_step: "istep x y \<Longrightarrow> ingress_owned x \<Longrightarrow> ingress_owned y"
  unfolding ingress_owned_def using owners_step[of x y] jobs_ok_step[of x y]
  by (metis owned_once_less owned_once_new order_refl)

section \<open>Order\<close>

fun is_ingress_writer :: "igo \<Rightarrow> bool" where
  "is_ingress_writer GTake = True"
| "is_ingress_writer (GBatch js) = True"
| "is_ingress_writer (GWrite js) = True"
| "is_ingress_writer (GRelease js a) = (a \<noteq> ThenDone)"
| "is_ingress_writer (GStop cl) = True"
| "is_ingress_writer _ = False"

text \<open>What the writer has taken and will still write: of a batch, only while the stream is open.\<close>

fun flight :: "ingress \<Rightarrow> igo \<Rightarrow> bytes" where
  "flight s (GWrite js) = job_data s js"
| "flight s (GBatch js) = (if ing_open s then job_data s js else [])"
| "flight s _ = []"

definition wire_ok :: "ingress \<Rightarrow> bytes \<Rightarrow> bool" where
  "wire_ok s fl \<longleftrightarrow> (ing_intact s \<longrightarrow>
     (if ing_open s then ing_accepted s = ing_wire s @ fl @ job_data s (ing_queue s)
      else prefix (ing_wire s @ fl) (ing_accepted s)))"

fun stop_ok :: "ingress \<Rightarrow> igo \<Rightarrow> bool" where
  "stop_ok s (GRelease js (ThenStop cl)) = (if cl then \<not> ing_intact s else \<not> ing_open s)"
| "stop_ok s (GStop cl) = (if cl then \<not> ing_intact s else \<not> ing_open s)"
| "stop_ok s GDeactivate = (\<not> ing_open s)"
| "stop_ok s GDrain = (\<not> ing_open s)"
| "stop_ok s _ = True"

definition ingress_ordered :: "ingress_sys \<Rightarrow> bool" where
  "ingress_ordered x \<longleftrightarrow> (case x of (s, ps) \<Rightarrow>
     (\<forall>p \<in># ps. stop_ok s p) \<and>
     (if ing_writing s then \<exists>w. filter_mset is_ingress_writer ps = {#w#} \<and> wire_ok s (flight s w)
      else filter_mset is_ingress_writer ps = {#} \<and> wire_ok s [] \<and>
        (ing_intact s \<and> ing_open s \<longrightarrow> ing_queue s = [])))"

lemma job_data_mem:
  assumes "list_all job_ok js" "\<forall>r \<in># job_bufs js. buf_mem b r = buf_mem (ing_bufs s) r"
  shows "job_data (s\<lparr>ing_bufs := b\<rparr>) js = job_data s js"
  using assms
proof (induction js)
  case (Cons j js)
  then show ?case by (cases "job_payload j") (auto simp: job_data_def job_ok_def)
qed (simp add: job_data_def)

lemma flight_mem:
  assumes "list_all job_ok (go_jobs p)" "\<forall>r \<in># job_bufs (go_jobs p). buf_mem b r = buf_mem (ing_bufs s) r"
  shows "flight (s\<lparr>ing_bufs := b\<rparr>) p = flight s p"
  using assms by (cases p) (simp_all add: job_data_mem)

lemma stop_ok_bufs [simp]: "stop_ok (s\<lparr>ing_bufs := b\<rparr>) p = stop_ok s p"
  by (cases "(s, p)" rule: stop_ok.cases) simp_all

lemma ordered_mem:
  assumes "ingress_ordered (s, ps)" "jobs_ok (s, ps)"
    "\<forall>r \<in># job_bufs (ing_queue s) + (\<Sum>p\<in>#ps. job_bufs (go_jobs p)). buf_mem b r = buf_mem (ing_bufs s) r"
  shows "ingress_ordered (s\<lparr>ing_bufs := b\<rparr>, ps)"
proof -
  have q: "job_data (s\<lparr>ing_bufs := b\<rparr>) (ing_queue s) = job_data s (ing_queue s)"
    using assms(2,3) by (intro job_data_mem) (simp_all add: jobs_ok_def)
  have w: "flight (s\<lparr>ing_bufs := b\<rparr>) p = flight s p" if "filter_mset is_ingress_writer ps = {#p#}" for p
  proof -
    from that have "p \<in># ps" by (metis filter_mset_eq_conv multi_member_last mset_subset_eqD multiset_filter_subset)
    then show ?thesis using assms(2,3) by (intro flight_mem) (auto simp: jobs_ok_def)
  qed
  have k: "wire_ok (s\<lparr>ing_bufs := b\<rparr>) fl = wire_ok s fl" for fl by (simp add: wire_ok_def q)
  show ?thesis using assms(1) w by (auto simp: ingress_ordered_def k)
qed

lemma owned_once_member: "owned_once M n \<Longrightarrow> r \<in># M \<Longrightarrow> r < n"
  unfolding owned_once_def by (metis count_greater_zero_iff linorder_not_less)

lemma owned_once_apart:
  assumes "owned_once (add_mset r M) n"
  shows "r \<notin># M"
proof -
  have "count (add_mset r M) r \<le> (if r < n then 1 else 0)" using assms unfolding owned_once_def by blast
  then show ?thesis by (auto simp: not_in_iff split: if_splits)
qed

lemma stop_ok_mono:
  assumes "stop_ok s p" "ing_open s' \<longrightarrow> ing_open s" "ing_intact s' \<longrightarrow> ing_intact s"
  shows "stop_ok s' p"
  using assms by (cases "(s, p)" rule: stop_ok.cases) auto

lemma job_data_same: "buf_mem (ing_bufs s') = buf_mem (ing_bufs s) \<Longrightarrow> job_data s' js = job_data s js"
  by (simp add: job_data_def)

lemma flight_same:
  assumes "ing_open s' = ing_open s" "buf_mem (ing_bufs s') = buf_mem (ing_bufs s)"
  shows "flight s' p = flight s p"
  using assms by (cases "(s, p)" rule: flight.cases) (simp_all add: job_data_def)

lemma stop_ok_same: "ing_open s' = ing_open s \<Longrightarrow> ing_intact s' = ing_intact s \<Longrightarrow> stop_ok s' p = stop_ok s p"
  by (cases "(s, p)" rule: stop_ok.cases) simp_all

text \<open>Bookkeeping: what the steps leave alone.\<close>

lemma ingress_same [simp]:
  "job_data (s\<lparr>ing_queue := q\<rparr>) js = job_data s js" "job_data (s\<lparr>ing_bytes := n\<rparr>) js = job_data s js"
  "job_data (s\<lparr>ing_writing := w\<rparr>) js = job_data s js" "job_data (s\<lparr>ing_accepted := bs\<rparr>) js = job_data s js"
  "job_data (s\<lparr>ing_wire := bs\<rparr>) js = job_data s js" "job_data (s\<lparr>ing_intact := w\<rparr>) js = job_data s js"
  "job_data (s\<lparr>ing_open := w\<rparr>) js = job_data s js" "job_data (s\<lparr>ing_active := w\<rparr>) js = job_data s js"
  "flight (s\<lparr>ing_queue := q\<rparr>) p = flight s p" "flight (s\<lparr>ing_bytes := n\<rparr>) p = flight s p"
  "flight (s\<lparr>ing_writing := w\<rparr>) p = flight s p" "flight (s\<lparr>ing_accepted := bs\<rparr>) p = flight s p"
  "flight (s\<lparr>ing_wire := bs\<rparr>) p = flight s p" "flight (s\<lparr>ing_intact := w\<rparr>) p = flight s p"
  "flight (s\<lparr>ing_active := w\<rparr>) p = flight s p"
  "stop_ok (s\<lparr>ing_queue := q\<rparr>) p = stop_ok s p" "stop_ok (s\<lparr>ing_bytes := n\<rparr>) p = stop_ok s p"
  "stop_ok (s\<lparr>ing_writing := w\<rparr>) p = stop_ok s p" "stop_ok (s\<lparr>ing_accepted := bs\<rparr>) p = stop_ok s p"
  "stop_ok (s\<lparr>ing_wire := bs\<rparr>) p = stop_ok s p" "stop_ok (s\<lparr>ing_active := w\<rparr>) p = stop_ok s p"
  by (simp_all add: job_data_def) (rule flight_same stop_ok_same; simp)+

lemma release_same [simp]:
  "job_data (release_job j s) js = job_data s js" "flight (release_job j s) p = flight s p"
  "stop_ok (release_job j s) p = stop_ok s p" "ing_writing (release_job j s) = ing_writing s"
  "ing_open (release_job j s) = ing_open s" "ing_intact (release_job j s) = ing_intact s"
  "ing_queue (release_job j s) = ing_queue s" "ing_wire (release_job j s) = ing_wire s"
  "ing_accepted (release_job j s) = ing_accepted s" "ing_active (release_job j s) = ing_active s"
  by (simp_all add: release_job_def job_data_def release_owners(3)) (rule flight_same, simp_all add: release_owners(3))

lemma job_data_append [simp]: "job_data s (js @ js') = job_data s js @ job_data s js'" "job_data s [] = []"
  by (simp_all add: job_data_def)

lemma ordered_idle: "\<not> is_ingress_writer p \<Longrightarrow>
    ingress_ordered (s, add_mset p ps) \<longleftrightarrow> stop_ok s p \<and> ingress_ordered (s, ps)"
  by (auto simp: ingress_ordered_def)

lemma ordered_writer: "is_ingress_writer p \<Longrightarrow> ingress_ordered (s, add_mset p ps) \<longleftrightarrow>
    (\<forall>q \<in># add_mset p ps. stop_ok s q) \<and> ing_writing s \<and> filter_mset is_ingress_writer ps = {#} \<and> wire_ok s (flight s p)"
  by (auto simp: ingress_ordered_def)

lemma ordered_bufs:
  assumes "buf_mem b = buf_mem (ing_bufs s)"
  shows "ingress_ordered (s\<lparr>ing_bufs := b\<rparr>, ps) = ingress_ordered (s, ps)"
proof -
  have "flight (s\<lparr>ing_bufs := b\<rparr>) p = flight s p" "job_data (s\<lparr>ing_bufs := b\<rparr>) js = job_data s js" for p js
    using assms by (auto intro: flight_same simp: job_data_def)
  then show ?thesis by (simp add: ingress_ordered_def wire_ok_def)
qed

lemma ordered_release [simp]: "ingress_ordered (release_job j s, ps) = ingress_ordered (s, ps)"
  unfolding release_job_def by (rule ordered_bufs) (rule release_owners)

lemma jobs_owned: "job_bufs (ing_queue s) + (\<Sum>p\<in>#ps. job_bufs (go_jobs p)) \<subseteq># owners (s, ps)"
  by (simp add: owners_simp sum_mset.distrib)

lemma ordered_get:
  assumes "getWSPayloadBuf n pick (ing_bufs s) = (r, b)" "ingress_owned (s, ps)" "ingress_ordered (s, ps)"
  shows "ingress_ordered (s\<lparr>ing_bufs := b\<rparr>, add_mset (GHas r) ps)"
proof -
  have "q < next_buf (ing_bufs s)" if "q \<in># job_bufs (ing_queue s) + (\<Sum>p\<in>#ps. job_bufs (go_jobs p))" for q
    using assms(2) owned_once_member[OF _ mset_subset_eqD[OF jobs_owned that]]
    by (auto simp: ingress_owned_def next_of_def)
  moreover have "buf_mem b q = buf_mem (ing_bufs s) q" if "q < next_buf (ing_bufs s)" for q
    using get_owners[OF assms(1)] that by (elim disjE conjE) simp_all
  ultimately have "\<forall>q \<in># job_bufs (ing_queue s) + (\<Sum>p\<in>#ps. job_bufs (go_jobs p)). buf_mem b q = buf_mem (ing_bufs s) q"
    by blast
  then have "ingress_ordered (s\<lparr>ing_bufs := b\<rparr>, ps)"
    using assms(2,3) by (intro ordered_mem) (simp_all add: ingress_owned_def)
  then show ?thesis by (simp add: ordered_idle)
qed

lemma ordered_fill:
  assumes "ingress_owned (s, add_mset (GHas r) ps)" "ingress_ordered (s, add_mset (GHas r) ps)"
  shows "ingress_ordered (s\<lparr>ing_bufs := (ing_bufs s)\<lparr>buf_mem := (buf_mem (ing_bufs s))(r := bs)\<rparr>\<rparr>, add_mset (GHas r) ps)"
proof (rule ordered_mem[OF assms(2)])
  have "add_mset r (job_bufs (ing_queue s) + (\<Sum>p\<in>#ps. job_bufs (go_jobs p))) \<subseteq># owners (s, add_mset (GHas r) ps)"
    using jobs_owned[of s ps] by (simp add: owners_simp)
  then have "r \<notin># job_bufs (ing_queue s) + (\<Sum>p\<in>#ps. job_bufs (go_jobs p))"
    using assms(1) owned_once_apart owned_once_less unfolding ingress_owned_def by blast
  moreover have "(\<Sum>p\<in>#add_mset (GHas r) ps. job_bufs (go_jobs p)) = (\<Sum>p\<in>#ps. job_bufs (go_jobs p))" by simp
  ultimately show "\<forall>q\<in>#job_bufs (ing_queue s) + (\<Sum>p\<in>#add_mset (GHas r) ps. job_bufs (go_jobs p)).
      buf_mem ((ing_bufs s)\<lparr>buf_mem := (buf_mem (ing_bufs s))(r := bs)\<rparr>) q = buf_mem (ing_bufs s) q"
    by (metis (no_types, lifting) buf_pools.select_convs(1) buf_pools.surjective buf_pools.update_convs(1) fun_upd_other)
qed (use assms(1) in \<open>simp add: ingress_owned_def\<close>)

lemma ordered_close:
  assumes "ing_open s" "ingress_ordered (s, ps)"
  shows "ingress_ordered (s\<lparr>ing_open := False\<rparr>, ps)"
proof -
  have k: "stop_ok (s\<lparr>ing_open := False\<rparr>) p" if "stop_ok s p" for p
    using that by (rule stop_ok_mono) (simp_all add: assms(1))
  have "wire_ok (s\<lparr>ing_open := False\<rparr>) (flight (s\<lparr>ing_open := False\<rparr>) p)" if "wire_ok s (flight s p)" for p
    using that assms(1) by (cases "(s, p)" rule: flight.cases) (auto simp: wire_ok_def)
  moreover have "wire_ok (s\<lparr>ing_open := False\<rparr>) []" if "wire_ok s []"
    using that assms(1) by (auto simp: wire_ok_def)
  ultimately show ?thesis using assms(2) k by (auto simp: ingress_ordered_def)
qed


lemma ordered_append:
  assumes "ingress_append j s = (res, s')" "ingress_ordered (s, ps)"
  shows "ingress_ordered (s', (if res = IngressStart then {#GTake#} else {#}) + ps)"
proof (cases "ing_max s < ing_bytes s + job_weight j")
  case True
  then show ?thesis using assms by (auto simp: ingress_append_def release_job_def[symmetric])
next
  case False
  let ?s = "s\<lparr>ing_queue := ing_queue s @ [j], ing_bytes := ing_bytes s + job_weight j,
              ing_accepted := ing_accepted s @ job_data s [j]\<rparr>"
  have w: "wire_ok ?s fl" if "wire_ok s fl" for fl
    using that by (auto simp: wire_ok_def intro: prefix_prefix)
  show ?thesis
  proof (cases "ing_writing s")
    case writing: True
    then have "res = IngressQueued" "s' = ?s" using assms(1) False by (simp_all add: ingress_append_def Let_def)
    then show ?thesis using writing assms(2) w by (auto simp: ingress_ordered_def)
  next
    case idle: False
    then have "res = IngressStart" "s' = ?s\<lparr>ing_writing := True\<rparr>"
      using assms(1) False by (simp_all add: ingress_append_def Let_def)
    then show ?thesis using idle assms(2) w[of "[]"] by (auto simp: ingress_ordered_def wire_ok_def)
  qed
qed

lemma ordered_step: "istep x y \<Longrightarrow> ingress_owned x \<Longrightarrow> ingress_ordered x \<Longrightarrow> ingress_ordered y"
proof (induction rule: istep.induct)
  case (i_get n pick s r b ps)
  then show ?case by (rule ordered_get)
next
  case (i_fill bs s r ps)
  then show ?case by (intro ordered_fill)
next
  case (i_close_won s ps)
  then show ?case by (simp add: ordered_idle ordered_close)
next
  case (i_overflow j s s' ps)
  then show ?case using ordered_append[OF i_overflow(1)] by (simp add: ordered_idle)
next
  case (i_queued j s s' ps)
  then show ?case using ordered_append[OF i_queued(1)] by (simp add: ordered_idle)
next
  case (i_start j s s' ps)
  then show ?case using ordered_append[OF i_start(1)] by (simp add: ordered_idle)
next
  case (i_drain s js s' ps)
  then show ?case by (auto simp: ordered_idle drain_jobs_def ingress_ordered_def wire_ok_def)
next
  case (i_stop s cl ps)
  then show ?case by (auto simp: ordered_writer ordered_idle)
      (auto simp: ingress_ordered_def wire_ok_def split: if_splits)
next
  case (i_release s j js a ps)
  then show ?case
    by (cases "a = ThenDone"; cases a) (auto simp: ordered_idle ordered_writer wire_ok_def)
next
  case (i_deactivate s ps)
  then show ?case by (auto simp: ingress_ordered_def wire_ok_def)
next
  case (i_exit s s' ps)
  then show ?case
    by (auto simp: ordered_writer take_jobs_def split: if_splits) (auto simp: ingress_ordered_def wire_ok_def)
next
  case (i_write_error s js ps n)
  then show ?case
    by (auto simp: ordered_writer wire_ok_def intro: stop_ok_mono)
qed (auto simp: ordered_idle ordered_writer ordered_bufs put_owners(3) wire_ok_def take_jobs_def split: if_splits)


lemma ireach_inv: "ireach mx x \<Longrightarrow> ingress_owned x \<and> ingress_ordered x"
proof (induction rule: ireach.induct)
  case ireach_start
  show ?case by (simp add: ingress_start_def ingress_owned_def owners_simp pool_bufs_def owned_once_def jobs_ok_def
      ingress_ordered_def wire_ok_def job_data_def)
qed (auto intro: ingress_owned_step ordered_step)

lemma counted_release: "iq.counted (s\<lparr>ing_bufs := b\<rparr>) = iq.counted s"
  by (simp add: iq.counted_def)

section \<open>A run\<close>

text \<open>A payload of two bytes in a pooled buffer is queued, and the writer that it starts writes it.\<close>

definition queued_job :: ingressJob where "queued_job = queueIngressOwned_job 0 5 2"

definition one_buffer :: buf_pools where
  "one_buffer = snd (getWSPayloadBuf 7 0 (ing_bufs (ingress_start 100)))"

definition queued_ingress :: ingress where
  "queued_ingress = snd (ingress_append queued_job ((ingress_start 100)\<lparr>ing_bufs := one_buffer\<rparr>))"

definition written_ingress :: ingress where
  "written_ingress = (snd (take_jobs queued_ingress))\<lparr>ing_wire := [0, 0]\<rparr>"

lemma queued_job_fields:
  "job_payload queued_job = PoolSlice 0 5 2" "job_bufp queued_job = Some 0" "job_weight queued_job = 2"
  by (simp_all add: queued_job_def queueIngressOwned_job_def job_weight_def)

lemma one_buffer: "getWSPayloadBuf 7 0 (ing_bufs (ingress_start 100)) = (0, one_buffer)"
  "buf_mem one_buffer 0 = replicate 262144 0" "wsPayloadPool one_buffer = []"
  by (simp_all add: one_buffer_def getWSPayloadBuf_def new_buf_def ingress_start_def wsPayloadPoolSize_def)

lemma queued_ingress:
  "ingress_append queued_job ((ingress_start 100)\<lparr>ing_bufs := one_buffer\<rparr>) = (IngressStart, queued_ingress)"
  "ing_queue queued_ingress = [queued_job]" "ing_open queued_ingress" "ing_intact queued_ingress"
  "ing_accepted queued_ingress = [0, 0]" "ing_wire queued_ingress = []" "ing_bufs queued_ingress = one_buffer"
proof -
  let ?s = "(ingress_start 100)\<lparr>ing_bufs := one_buffer\<rparr>"
  have d: "job_data ?s [queued_job] = [0, 0]"
    by (simp add: job_data_def queued_job_fields one_buffer numeral_2_eq_2)
  have f: "ing_max ?s = 100" "ing_bytes ?s = 0" "ing_queue ?s = []" "ing_accepted ?s = []" "\<not> ing_writing ?s"
    "ing_open ?s" "ing_intact ?s" "ing_wire ?s = []" "ing_bufs ?s = one_buffer"
    by (simp_all add: ingress_start_def)
  note e = ingress_append_def[of queued_job ?s, unfolded f d queued_job_fields, simplified]
  show "ingress_append queued_job ?s = (IngressStart, queued_ingress)" "ing_queue queued_ingress = [queued_job]"
    "ing_open queued_ingress" "ing_intact queued_ingress" "ing_accepted queued_ingress = [0, 0]"
    "ing_wire queued_ingress = []" "ing_bufs queued_ingress = one_buffer"
    using f by (simp_all add: queued_ingress_def e)
qed

lemma queued_data: "job_data queued_ingress [queued_job] = [0, 0]"
  by (simp add: job_data_def queued_job_fields queued_ingress one_buffer numeral_2_eq_2)

lemma ireach_queued: "ireach 100 (queued_ingress, {#GTake#})"
proof -
  let ?s = "(ingress_start 100)\<lparr>ing_bufs := one_buffer\<rparr>"
  have ready: "ingress_ready ?s" by (simp add: ingress_ready_def ingress_start_def)
  have 1: "ireach 100 (?s, {#GHas 0#})"
    using ireach_step[OF ireach_start i_get[OF one_buffer(1)]] .
  have 2: "ireach 100 (?s, {#GSubmit queued_job#})"
    unfolding queued_job_def by (rule ireach_step[OF 1 i_owned]) (use ready one_buffer(2) in simp_all)
  have 3: "ireach 100 (?s, {#GAppend queued_job#})"
    by (rule ireach_step[OF 2 i_checked[OF ready]])
  from ireach_step[OF 3 i_start[OF queued_ingress(1)]] show ?thesis .
qed

lemma ireach_written: "ireach 100 (written_ingress, {#GRelease [queued_job] ThenTake#})"
proof -
  let ?s = "snd (take_jobs queued_ingress)"
  have t: "take_jobs queued_ingress = (Some [queued_job], ?s)"
    by (simp add: take_jobs_def queued_ingress)
  have o: "ing_open ?s" and w: "ing_wire ?s @ job_data ?s [queued_job] = [0, 0]"
    by (simp_all add: take_jobs_def queued_ingress queued_data)
  have 1: "ireach 100 (?s, {#GWrite [queued_job]#})"
    using ireach_step[OF ireach_step[OF ireach_queued i_take[OF t]] i_batch_open[OF o]] .
  from ireach_step[OF 1 i_written[of ?s "[queued_job]" "{#}"]] show ?thesis
    unfolding w written_ingress_def .
qed

section \<open>The coarse operations\<close>

text \<open>
  \<open>Streams\<close> models the queue with payloads as values and \<^verbatim>\<open>submitIngress\<close> as one step.
  Run without interruption, the parts above do the same.
\<close>

definition ingress_models :: "ingress \<Rightarrow> wispStream \<Rightarrow> bool" where
  "ingress_models i s \<longleftrightarrow> ing_open i = isOpen s \<and> ing_active i = ingressActive s \<and> ing_bytes i = pendingIngBytes s \<and>
     ing_writing i = ingressWriting s \<and>
     pendingIngress s = map (\<lambda>j. slice_bytes (buf_mem (ing_bufs i)) (job_payload j)) (ing_queue i)"

lemma submitIngress_refused:
  assumes "heap c r = Some s" "ingress_models i s" "\<not> ingress_ready i"
  shows "submitIngress r payload c = (False, c)"
  using assms by (auto simp: submitIngress_def ingress_models_def ingress_ready_def)

lemma submitIngress_refines:
  assumes "heap c r = Some s" "ingress_models i s" "ingress_ready i" "ing_max i = maxPendingQueueBytes c"
    "slice_bytes (buf_mem (ing_bufs i)) (job_payload j) = payload" "slice_len (job_payload j) = length payload"
    "ingress_append j i = (res, i')"
  shows "fst (submitIngress r payload c) = (res \<noteq> IngressOverflow)"
    "res \<noteq> IngressOverflow \<Longrightarrow> \<exists>s'. heap (snd (submitIngress r payload c)) r = Some s' \<and> ingress_models i' s'"
    "res \<noteq> IngressOverflow \<Longrightarrow> spawned (snd (submitIngress r payload c)) =
       spawned c @ (if res = IngressStart then [GoIngressWriter r] else [])"
  using assms
  by (auto simp: submitIngress_def ingress_models_def ingress_ready_def ingress_append_def job_weight_def
      upd_stream_def spawn_def Let_def split: if_splits)

lemma ingress_take_refines:
  assumes "heap c r = Some s" "ingress_models i s" "take_jobs i = (batch, i')"
    "\<forall>j \<in> set (ing_queue i). slice_len (job_payload j) = length (slice_bytes (buf_mem (ing_bufs i)) (job_payload j))"
  shows "fst (ingress_take r c) = map_option (map (\<lambda>j. slice_bytes (buf_mem (ing_bufs i)) (job_payload j))) batch"
    "\<exists>s'. heap (snd (ingress_take r c)) r = Some s' \<and> ingress_models i' s'"
proof -
  have w: "job_bytes (pendingIngress s) = sum_list (map job_weight (ing_queue i))"
    using assms(2,4) by (simp add: ingress_models_def job_bytes_def job_weight_def o_def cong: map_cong)
  show "fst (ingress_take r c) = map_option (map (\<lambda>j. slice_bytes (buf_mem (ing_bufs i)) (job_payload j))) batch"
    "\<exists>s'. heap (snd (ingress_take r c)) r = Some s' \<and> ingress_models i' s'"
    using assms(1-3) w by (auto simp: ingress_take_def take_jobs_def ingress_models_def upd_stream_def split: if_splits)
qed

section \<open>Properties\<close>



text \<open>
  C9: Under every interleaving, as long as no write to the target fails, its bytes are a prefix of the
  payloads in the order they were queued, with the bytes they had then, although the buffers are
  reused; there is at most one writer; and when an open stream has none, everything has been written.
\<close>

theorem ingress_wire_order:
  assumes "ireach mx (s, ps)" and "ing_intact s"
  shows "prefix (ing_wire s) (ing_accepted s) \<and> size (filter_mset is_ingress_writer ps) = (if ing_writing s then 1 else 0) \<and>
    (if ing_open s \<and> \<not> ing_writing s then ing_wire s = ing_accepted s \<and> ing_queue s = [] else True)"
  using ireach_inv[OF assms(1)] assms(2)
  by (auto simp: ingress_ordered_def wire_ok_def append_prefixD split: if_splits)

theorem ingress_wire_order_witness:
  "prefix (ing_wire written_ingress) [0, 0] \<and> ing_wire written_ingress = [0, 0]"
  using ingress_wire_order[OF ireach_written]
  by (simp add: written_ingress_def take_jobs_def queued_ingress)

end
