(* ===== verification/Wisp_V2.thy ===== *)
theory Wisp_V2
  imports Constants Server_Config
begin

text \<open>
  \<^verbatim>\<open>wisp/v2.go\<close>: passwords, the extension lists of the two INFO packets, and what a
  client's INFO makes of the handshake. bcrypt is code outside the repository: its comparison is
  the argument \<open>bcrypt_ok\<close> (stored hash, provided password).
\<close>

section \<open>Passwords\<close>

definition checkPassword :: "(string \<Rightarrow> string \<Rightarrow> bool) \<Rightarrow> string \<Rightarrow> string \<Rightarrow> bool" where
  "checkPassword bcrypt_ok stored provided =
     (if has_prefix stored ''$2a$'' \<or> has_prefix stored ''$2b$'' \<or> has_prefix stored ''$2y$''
      then bcrypt_ok stored provided
      else length stored = length provided \<and> stored = provided)"

section \<open>The server's INFO packet\<close>

definition addExtension :: "bytes \<Rightarrow> byte \<Rightarrow> bytes \<Rightarrow> bytes" where
  "addExtension buf eid meta = buf @ (eid # put_uint32_le (of_nat (length meta))) @ meta"

definition buildServerInfoPacket :: "Config \<Rightarrow> bytes" where
  "buildServerInfoPacket cfg =
     (let e0 = [];
          e1 = (if AllowUDP cfg then addExtension e0 extensionUDP [] else e0);
          e2 = (if PasswordAuth cfg
                then addExtension e1 extensionPasswordAuth [if PasswordAuthRequired cfg then 1 else 0] else e1);
          e3 = (if Motd cfg \<noteq> [] then addExtension e2 extensionMotd (bytes_of_string (Motd cfg)) else e2)
      in [packetTypeInfo, 0, 0, 0, 0, wispMajorVersion, wispMinorVersion] @ e3)"

section \<open>The client's INFO packet\<close>

record Extensions =
  ext_udp :: bool
  ext_streamConfirm :: bool
  passwordUsername :: string
  passwordPassword :: string
  certificateUsername :: string
  certificateSelected :: byte
  certificatePubkeyHash :: bytes
  certificateSig :: bytes

definition no_extensions :: Extensions where
  "no_extensions =
     \<lparr>ext_udp = False, ext_streamConfirm = False, passwordUsername = [], passwordPassword = [],
      certificateUsername = [], certificateSelected = 0, certificatePubkeyHash = replicate 32 0,
      certificateSig = []\<rparr>"

text \<open>The \<^verbatim>\<open>switch\<close> on one extension; \<open>None\<close> is \<^verbatim>\<open>errorInvalid\<close>.\<close>

definition apply_extension :: "byte \<Rightarrow> bytes \<Rightarrow> Extensions \<Rightarrow> Extensions option" where
  "apply_extension extID meta exts =
     (if extID = extensionUDP then Some (exts\<lparr>ext_udp := True\<rparr>)
      else if extID = extensionPasswordAuth then
        (if length meta < 1 then None
         else (let usernameLen = unat (meta ! 0) in
               if length meta < 1 + usernameLen then None
               else Some (exts\<lparr>passwordUsername := string_of_bytes (take usernameLen (drop 1 meta)),
                               passwordPassword := string_of_bytes (drop (1 + usernameLen) meta)\<rparr>)))
      else if extID = extensionCertificateAuth then
        (if length meta < 1 then None
         else (let usernameLen = unat (meta ! 0); pos = 1 + usernameLen in
               if length meta < 1 + usernameLen + 1 + 32 then None
               else (let e = exts\<lparr>certificateUsername := string_of_bytes (take usernameLen (drop 1 meta)),
                                  certificateSelected := meta ! pos,
                                  certificatePubkeyHash := take 32 (drop (pos + 1) meta)\<rparr>
                     in if pos + 33 < length meta then Some (e\<lparr>certificateSig := drop (pos + 33) meta\<rparr>)
                        else Some e)))
      else if extID = extensionStreamConfirm then Some (exts\<lparr>ext_streamConfirm := True\<rparr>)
      else Some exts)"

function parse_extensions :: "bytes \<Rightarrow> Extensions \<Rightarrow> Extensions option" where
  "parse_extensions data exts =
     (if 5 \<le> length data then
        (let extID = data ! 0; extLen = uint32_le (take 4 (drop 1 data)); rest = drop 5 data in
         if (of_nat (length rest) :: u32) < extLen then None
         else (case apply_extension extID (take (unat extLen) rest) exts of
                 None \<Rightarrow> None
               | Some exts' \<Rightarrow> parse_extensions (drop (unat extLen) rest) exts'))
      else if length data \<noteq> 0 then None
      else Some exts)"
  by pat_completeness auto
termination
  by (relation "measure (\<lambda>(data, _). length data)") auto

declare parse_extensions.simps [simp del]

definition parseClientInfo :: "bytes \<Rightarrow> Extensions option" where
  "parseClientInfo payload =
     (if length payload < 2 then None else parse_extensions (drop 2 payload) no_extensions)"

section \<open>Authentication\<close>

text \<open>What \<^verbatim>\<open>handleInfo\<close> decides about a well-addressed INFO packet.\<close>

datatype info_verdict = InfoReject byte | InfoAccept bool bool

definition info_verdict :: "(string \<Rightarrow> string \<Rightarrow> bool) \<Rightarrow> Config \<Rightarrow> bytes \<Rightarrow> info_verdict" where
  "info_verdict bcrypt_ok cfg payload =
     (if length payload < 2 \<or> payload ! 0 \<noteq> wispMajorVersion then InfoReject closeReasonIncompatible
      else (case parseClientInfo payload of
              None \<Rightarrow> InfoReject closeReasonIncompatible
            | Some exts \<Rightarrow>
                if PasswordAuth cfg \<and> passwordUsername exts \<noteq> [] then
                  (case map_of (PasswordUsers cfg) (passwordUsername exts) of
                     None \<Rightarrow> InfoReject closeReasonAuthBadPassword
                   | Some expected \<Rightarrow>
                       if checkPassword bcrypt_ok expected (passwordPassword exts)
                       then InfoAccept True (ext_streamConfirm exts)
                       else InfoReject closeReasonAuthBadPassword)
                else if PasswordAuthRequired cfg then InfoReject closeReasonAuthRequired
                else InfoAccept False (ext_streamConfirm exts)))"

section \<open>Encoded extension lists\<close>

definition encode_extensions :: "(byte \<times> bytes) list \<Rightarrow> bytes" where
  "encode_extensions es = concat (map (\<lambda>(eid, meta). addExtension [] eid meta) es)"

fun apply_all :: "(byte \<times> bytes) list \<Rightarrow> Extensions \<Rightarrow> Extensions option" where
  "apply_all [] exts = Some exts"
| "apply_all ((eid, meta) # es) exts =
     (case apply_extension eid meta exts of None \<Rightarrow> None | Some exts' \<Rightarrow> apply_all es exts')"

lemma addExtension_append: "addExtension buf eid meta = buf @ addExtension [] eid meta"
  by (simp add: addExtension_def)

lemma parse_extensions_Cons:
  assumes "length meta < 2 ^ 32" "length meta + length rest < 2 ^ 32"
  shows "parse_extensions (addExtension [] eid meta @ rest) exts =
    (case apply_extension eid meta exts of None \<Rightarrow> None | Some exts' \<Rightarrow> parse_extensions rest exts')"
proof -
  have u: "unat (of_nat (length meta) :: u32) = length meta" using assms(1) by (simp add: unat_of_nat)
  moreover have "unat (of_nat (length meta + length rest) :: u32) = length meta + length rest"
    using assms(2) by (subst unat_of_nat) simp
  ultimately have "\<not> (of_nat (length meta + length rest) :: u32) < of_nat (length meta)"
    by (simp add: word_less_nat_alt)
  moreover have "uint32_le (take 4 (drop 1 (addExtension [] eid meta @ rest))) = of_nat (length meta)"
    by (simp add: addExtension_def codec_simps)
  ultimately show ?thesis using u
    by (subst parse_extensions.simps) (simp add: addExtension_def Let_def split: option.split)
qed

lemma parse_extensions_encode:
  "length (encode_extensions es) < 2 ^ 32 \<Longrightarrow> parse_extensions (encode_extensions es) exts = apply_all es exts"
proof (induction es arbitrary: exts)
  case Nil
  then show ?case by (subst parse_extensions.simps) (simp add: encode_extensions_def)
next
  case (Cons e es)
  obtain eid meta where e: "e = (eid, meta)" by (cases e)
  have "length (addExtension [] eid meta) = 5 + length meta" by (simp add: addExtension_def)
  then have len: "length meta < 2 ^ 32" "length meta + length (encode_extensions es) < 2 ^ 32"
    "length (encode_extensions es) < 2 ^ 32"
    using Cons.prems e by (simp_all add: encode_extensions_def)
  have "encode_extensions (e # es) = addExtension [] eid meta @ encode_extensions es"
    by (simp add: encode_extensions_def e)
  then show ?case using parse_extensions_Cons[OF len(1,2)] Cons.IH[OF len(3)] e
    by (simp split: option.splits)
qed

text \<open>The extensions that the server announces.\<close>

definition server_extensions :: "Config \<Rightarrow> (byte \<times> bytes) list" where
  "server_extensions cfg =
     (if AllowUDP cfg then [(extensionUDP, [])] else []) @
     (if PasswordAuth cfg then [(extensionPasswordAuth, [if PasswordAuthRequired cfg then 1 else 0])] else []) @
     (if Motd cfg \<noteq> [] then [(extensionMotd, bytes_of_string (Motd cfg))] else [])"

lemma buildServerInfoPacket_eq:
  "buildServerInfoPacket cfg =
     [packetTypeInfo, 0, 0, 0, 0, wispMajorVersion, wispMinorVersion] @ encode_extensions (server_extensions cfg)"
  by (simp add: buildServerInfoPacket_def server_extensions_def encode_extensions_def addExtension_def Let_def)

text \<open>An extension list cut into its items, for a reader of the server's packet.\<close>

function split_extensions :: "bytes \<Rightarrow> (byte \<times> bytes) list option" where
  "split_extensions data =
     (if data = [] then Some []
      else if length data < 5 \<or> length data - 5 < unat (uint32_le (take 4 (drop 1 data))) then None
      else (let n = unat (uint32_le (take 4 (drop 1 data)))
            in map_option (\<lambda>es. (data ! 0, take n (drop 5 data)) # es) (split_extensions (drop n (drop 5 data)))))"
  by pat_completeness auto
termination
  by (relation "measure length") auto

declare split_extensions.simps [simp del]

lemma split_extensions_encode:
  "length (encode_extensions es) < 2 ^ 32 \<Longrightarrow> split_extensions (encode_extensions es) = Some es"
proof (induction es)
  case Nil
  then show ?case by (subst split_extensions.simps) (simp add: encode_extensions_def)
next
  case (Cons e es)
  obtain eid meta where e: "e = (eid, meta)" by (cases e)
  have enc: "encode_extensions (e # es) = addExtension [] eid meta @ encode_extensions es"
    by (simp add: encode_extensions_def e)
  then have len: "length meta < 2 ^ 32" "length (encode_extensions es) < 2 ^ 32"
    using Cons.prems by (simp_all add: addExtension_def)
  then have u: "unat (of_nat (length meta) :: u32) = length meta" by (simp add: unat_of_nat)
  have get: "uint32_le (take 4 (drop 1 (addExtension [] eid meta @ encode_extensions es))) = of_nat (length meta)"
    by (simp add: addExtension_def codec_simps)
  show ?case
    using u get Cons.IH[OF len(2)] unfolding enc
    by (subst split_extensions.simps) (simp add: addExtension_def Let_def e del: drop_drop)
qed

text \<open>The INFO payload of a client that authenticates by password.\<close>

definition password_extension :: "string \<Rightarrow> string \<Rightarrow> byte \<times> bytes" where
  "password_extension user password =
     (extensionPasswordAuth, of_nat (length user) # bytes_of_string user @ bytes_of_string password)"

definition client_info :: "byte \<Rightarrow> (byte \<times> bytes) list \<Rightarrow> bytes" where
  "client_info minor es = [wispMajorVersion, minor] @ encode_extensions es"

lemma apply_password_extension:
  assumes "length user < 256"
  shows "apply_extension (fst (password_extension user password)) (snd (password_extension user password)) exts =
    Some (exts\<lparr>passwordUsername := user, passwordPassword := password\<rparr>)"
proof -
  have "unat (of_nat (length user) :: byte) = length user" using assms by (simp add: unat_of_nat)
  then show ?thesis
    by (simp add: apply_extension_def password_extension_def extension_defs Let_def)
qed

text \<open>A client that authenticates, as a concrete example.\<close>

lemma ann_verdict:
  assumes "PasswordAuth cfg" "PasswordUsers cfg = [(''ann'', ''pw'')]"
  shows "info_verdict bcrypt_ok cfg (client_info 1 [password_extension ''ann'' ''pw'']) = InfoAccept True False"
proof -
  let ?p = "client_info 1 [password_extension ''ann'' ''pw'']"
  have len: "length (encode_extensions [password_extension ''ann'' ''pw'']) < 2 ^ 32"
    by (simp add: encode_extensions_def addExtension_def password_extension_def)
  have "parseClientInfo ?p = Some (no_extensions\<lparr>passwordUsername := ''ann'', passwordPassword := ''pw''\<rparr>)"
    using parse_extensions_encode[OF len] apply_password_extension[of "''ann''" "''pw''"]
    by (cases "password_extension ''ann'' ''pw''") (simp add: parseClientInfo_def client_info_def)
  moreover have "2 \<le> length ?p" "?p ! 0 = wispMajorVersion" by (simp_all add: client_info_def)
  ultimately show ?thesis using assms by (simp add: info_verdict_def checkPassword_def no_extensions_def)
qed

section \<open>Properties\<close>

text \<open>
  The parser of a client's INFO reads back exactly the extensions that were written: it
  never skips, merges or misaligns an item, and it fails exactly when an item is malformed.
\<close>

theorem parseClientInfo_encoded:
  assumes "length (encode_extensions es) < 2 ^ 32"
  shows "parseClientInfo (client_info minor es) = apply_all es no_extensions"
  by (simp add: parseClientInfo_def client_info_def parse_extensions_encode[OF assms])

theorem parseClientInfo_encoded_witness:
  "parseClientInfo (client_info 1 [(extensionUDP, []), password_extension ''ann'' ''pw'']) =
     Some (no_extensions\<lparr>ext_udp := True, passwordUsername := ''ann'', passwordPassword := ''pw''\<rparr>)"
proof -
  have len: "length (encode_extensions [(extensionUDP, []), password_extension ''ann'' ''pw'']) < 2 ^ 32"
    by (simp add: encode_extensions_def addExtension_def password_extension_def)
  show ?thesis
    using parseClientInfo_encoded[OF len, of 1] apply_password_extension[of "''ann''" "''pw''"]
    by (cases "password_extension ''ann'' ''pw''") (simp add: apply_extension_def extension_defs)
qed

text \<open>
  A client that reads the server's INFO packet item by item finds the protocol version and
  the extensions that the configuration enables, in order, and nothing else.
\<close>

theorem buildServerInfoPacket_readable:
  assumes "length (Motd cfg) < 2 ^ 31"
  shows "take 7 (buildServerInfoPacket cfg) = [packetTypeInfo, 0, 0, 0, 0, wispMajorVersion, wispMinorVersion] \<and>
         split_extensions (drop 7 (buildServerInfoPacket cfg)) = Some (server_extensions cfg)"
proof -
  have "length (encode_extensions (server_extensions cfg)) < 2 ^ 32"
    using assms by (simp add: server_extensions_def encode_extensions_def addExtension_def)
  then show ?thesis by (simp add: buildServerInfoPacket_eq split_extensions_encode)
qed

theorem buildServerInfoPacket_readable_witness:
  "split_extensions (drop 7 (buildServerInfoPacket (DefaultConfig\<lparr>Motd := ''hi''\<rparr>))) =
     Some [(extensionUDP, []), (extensionMotd, bytes_of_string ''hi'')]"
  using buildServerInfoPacket_readable[of "DefaultConfig\<lparr>Motd := ''hi''\<rparr>"]
  by (simp add: server_extensions_def DefaultConfig_def)

text \<open>
  C22: The handshake accepts a client as authenticated only with the password of a configured
  user, and where a password is required it accepts no client without one.
\<close>

theorem info_verdict_sound:
  assumes "info_verdict bcrypt_ok cfg payload = InfoAccept authenticated confirm"
  shows "(authenticated \<longrightarrow> PasswordAuth cfg \<and>
           (\<exists>exts stored. parseClientInfo payload = Some exts \<and>
              map_of (PasswordUsers cfg) (passwordUsername exts) = Some stored \<and>
              checkPassword bcrypt_ok stored (passwordPassword exts))) \<and>
         (PasswordAuthRequired cfg \<longrightarrow> authenticated)"
  using assms by (auto simp: info_verdict_def split: if_splits option.splits)

theorem info_verdict_sound_witness:
  "info_verdict (\<lambda>_ _. False) (DefaultConfig\<lparr>PasswordAuth := True, PasswordAuthRequired := True,
      PasswordUsers := [(''ann'', ''pw'')]\<rparr>) (client_info 1 [password_extension ''ann'' ''pw'']) = InfoAccept True False \<and>
   (\<exists>exts. parseClientInfo (client_info 1 [password_extension ''ann'' ''pw'']) = Some exts \<and>
      map_of [(''ann'', ''pw'')] (passwordUsername exts) \<noteq> None)"
proof -
  let ?cfg = "DefaultConfig\<lparr>PasswordAuth := True, PasswordAuthRequired := True, PasswordUsers := [(''ann'', ''pw'')]\<rparr>"
  let ?p = "client_info 1 [password_extension ''ann'' ''pw'']"
  have v: "info_verdict (\<lambda>_ _. False) ?cfg ?p = InfoAccept True False" by (rule ann_verdict) simp_all
  from info_verdict_sound[OF v] v show ?thesis by fastforce
qed

end
