(* ===== verification/Ws_Mask.thy ===== *)
theory Ws_Mask
  imports Go_Bytes
begin

unbundle bit_operations_syntax

text \<open>
  \<^verbatim>\<open>maskXOR\<close> of \<^verbatim>\<open>wisp/wsreader.go\<close>: removing the client's mask eight machine
  words at a time, then one word at a time, then byte by byte. The 64-bit loads and stores go
  through \<^verbatim>\<open>unsafe.Pointer\<close> in the machine's byte order; the model fixes it to little
  endian, the order of the platforms the server is built for.
\<close>

section \<open>The code\<close>

text \<open>\<^verbatim>\<open>*(*uint64)(p) ^= key64\<close> on the eight bytes at \<open>p\<close>.\<close>

definition xor_u64 :: "u64 \<Rightarrow> bytes \<Rightarrow> bytes" where
  "xor_u64 key64 b = put_uint64_le (uint64_le b XOR key64)"

text \<open>The eight words of one turn of the unrolled loop, in the order of the statements.\<close>

definition xor_block :: "u64 \<Rightarrow> bytes \<Rightarrow> bytes" where
  "xor_block key64 b =
     xor_u64 key64 (take 8 b) @ xor_u64 key64 (take 8 (drop 8 b)) @
     xor_u64 key64 (take 8 (drop 16 b)) @ xor_u64 key64 (take 8 (drop 24 b)) @
     xor_u64 key64 (take 8 (drop 32 b)) @ xor_u64 key64 (take 8 (drop 40 b)) @
     xor_u64 key64 (take 8 (drop 48 b)) @ xor_u64 key64 (take 8 (drop 56 b))"

text \<open>\<^verbatim>\<open>for i := range b { b[i] ^= key[i&3] }\<close>\<close>

definition mask_tail :: "bytes \<Rightarrow> bytes \<Rightarrow> bytes" where
  "mask_tail key b = map (\<lambda>i. b ! i XOR key ! (i mod 4)) [0..<length b]"

function mask_words :: "u64 \<Rightarrow> bytes \<Rightarrow> bytes \<Rightarrow> bytes" where
  "mask_words key64 key b =
     (if 8 \<le> length b then xor_u64 key64 (take 8 b) @ mask_words key64 key (drop 8 b)
      else mask_tail key b)"
  by pat_completeness auto
termination
  by (relation "measure (\<lambda>(_, _, b). length b)") auto

function mask_blocks :: "u64 \<Rightarrow> bytes \<Rightarrow> bytes \<Rightarrow> bytes" where
  "mask_blocks key64 key b =
     (if 64 \<le> length b then xor_block key64 (take 64 b) @ mask_blocks key64 key (drop 64 b)
      else mask_words key64 key b)"
  by pat_completeness auto
termination
  by (relation "measure (\<lambda>(_, _, b). length b)") auto

declare mask_words.simps [simp del] mask_blocks.simps [simp del]

definition key64_of :: "bytes \<Rightarrow> u64" where
  "key64_of key = (let maskKey = uint32_le key in push_bit 32 (ucast maskKey) OR ucast maskKey)"

definition maskXOR :: "bytes \<Rightarrow> bytes \<Rightarrow> bytes" where
  "maskXOR b key = mask_blocks (key64_of key) key b"

section \<open>The reference: RFC 6455, one byte at a time\<close>

fun mask_spec :: "bytes \<Rightarrow> bytes \<Rightarrow> bytes" where
  "mask_spec [k0, k1, k2, k3] (b # bs) = (b XOR k0) # mask_spec [k1, k2, k3, k0] bs"
| "mask_spec _ bs = bs"

lemma length_mask_spec [simp]: "length (mask_spec key b) = length b"
  by (induction key b rule: mask_spec.induct) simp_all

lemma mask_spec_nth:
  "i < length b \<Longrightarrow> mask_spec [k0, k1, k2, k3] b ! i = b ! i XOR [k0, k1, k2, k3] ! (i mod 4)"
proof (induction b arbitrary: i k0 k1 k2 k3)
  case Nil
  then show ?case by simp
next
  case (Cons x b)
  show ?case
  proof (cases i)
    case 0
    then show ?thesis by simp
  next
    case (Suc j)
    have rot: "[k1, k2, k3, k0] ! (j mod 4) = [k0, k1, k2, k3] ! (Suc j mod 4)"
    proof -
      have "j mod 4 \<in> {0, 1, 2, 3}" by auto
      then show ?thesis by (auto simp: mod_Suc)
    qed
    show ?thesis using Cons Suc by (simp add: rot del: nth_Cons_numeral)
  qed
qed

lemma mod4_shift: "4 * k \<le> i \<Longrightarrow> (i - 4 * k) mod 4 = i mod (4 :: nat)"
  by (drule le_Suc_ex) (auto simp: mod_mult_self1)

lemma mask_spec_append:
  "length a mod 4 = 0 \<Longrightarrow>
   mask_spec [k0, k1, k2, k3] (a @ b) = mask_spec [k0, k1, k2, k3] a @ mask_spec [k0, k1, k2, k3] b"
  by (rule nth_equalityI) (auto simp: mask_spec_nth nth_append mod4_shift elim!: dvdE)

text \<open>Masking twice is the identity.\<close>

lemma mask_spec_involution: "length key = 4 \<Longrightarrow> mask_spec key (mask_spec key b) = b"
proof -
  assume "length key = 4"
  then obtain k0 k1 k2 k3 where key: "key = [k0, k1, k2, k3]"
    by (auto simp: length_Suc_conv eval_nat_numeral)
  show ?thesis
    by (rule nth_equalityI) (simp_all add: key mask_spec_nth xor.assoc)
qed

section \<open>The unrolled loop computes the reference\<close>

lemma mask_tail_spec:
  assumes "length key = 4" shows "mask_tail key b = mask_spec key b"
proof -
  obtain k0 k1 k2 k3 where key: "key = [k0, k1, k2, k3]"
    using assms by (auto simp: length_Suc_conv eval_nat_numeral)
  show ?thesis
    by (rule nth_equalityI) (simp_all add: mask_tail_def key mask_spec_nth)
qed

lemma xor_u64_spec:
  assumes "length key = 4" and "length b = 8"
  shows "xor_u64 (key64_of key) b = mask_spec key b"
proof -
  obtain k0 k1 k2 k3 where key: "key = [k0, k1, k2, k3]"
    using assms by (auto simp: length_Suc_conv eval_nat_numeral)
  obtain b0 b1 b2 b3 b4 b5 b6 b7 where b: "b = [b0, b1, b2, b3, b4, b5, b6, b7]"
    using assms by (auto simp: length_Suc_conv eval_nat_numeral)
  show ?thesis
    by (simp add: key b xor_u64_def put_uint64_le_def key64_of_def Let_def)
       (intro conjI; rule bit_word_eqI; simp add: bit_simps)
qed

text \<open>One word step of the reference: the shared lemma of both loops.\<close>

lemma mask_spec_word_step:
  assumes "length key = 4" and "8 \<le> length b"
  shows "mask_spec key b = xor_u64 (key64_of key) (take 8 b) @ mask_spec key (drop 8 b)"
proof -
  obtain k0 k1 k2 k3 where key: "key = [k0, k1, k2, k3]"
    using assms(1) by (auto simp: length_Suc_conv eval_nat_numeral)
  have "mask_spec key (take 8 b @ drop 8 b) = mask_spec key (take 8 b) @ mask_spec key (drop 8 b)"
    unfolding key by (rule mask_spec_append) (use assms(2) in \<open>simp add: min_def\<close>)
  then show ?thesis using assms by (simp add: xor_u64_spec min_def)
qed

lemma mask_words_spec:
  "length key = 4 \<Longrightarrow> mask_words (key64_of key) key b = mask_spec key b"
proof (induction b rule: length_induct)
  case (1 b)
  then show ?case
    by (subst mask_words.simps) (auto simp: mask_spec_word_step[of key b] mask_tail_spec)
qed

lemma mask_spec_block_step:
  assumes "length key = 4" and "64 \<le> length b"
  shows "mask_spec key b = xor_block (key64_of key) (take 64 b) @ mask_spec key (drop 64 b)"
  using assms(2) mask_spec_word_step[OF assms(1), of b]
    mask_spec_word_step[OF assms(1), of "drop 8 b"] mask_spec_word_step[OF assms(1), of "drop 16 b"]
    mask_spec_word_step[OF assms(1), of "drop 24 b"] mask_spec_word_step[OF assms(1), of "drop 32 b"]
    mask_spec_word_step[OF assms(1), of "drop 40 b"] mask_spec_word_step[OF assms(1), of "drop 48 b"]
    mask_spec_word_step[OF assms(1), of "drop 56 b"]
  by (simp add: xor_block_def drop_take min_def)

lemma mask_blocks_spec:
  "length key = 4 \<Longrightarrow> mask_blocks (key64_of key) key b = mask_spec key b"
proof (induction b rule: length_induct)
  case (1 b)
  then show ?case
    by (subst mask_blocks.simps) (auto simp: mask_spec_block_step[of key b] mask_words_spec)
qed

lemma maskXOR_mask_spec: "length key = 4 \<Longrightarrow> maskXOR b key = mask_spec key b"
  by (simp add: maskXOR_def mask_blocks_spec)

end
