(* ===== verification/Ws_Reader.thy ===== *)
theory Ws_Reader
  imports Ws_Mask Frames
begin

unbundle bit_operations_syntax

text \<open>
  \<^verbatim>\<open>wisp/wsreader.go\<close>: the buffered \<^verbatim>\<open>frameReader\<close> and the WebSocket read loop.
  The peer's byte stream reaches the reader cut into arbitrary pieces; the section on the
  reference decoder states what the loop must make of the stream as a whole, and the refinement
  lemmas show that the cuts do not matter.
\<close>

section \<open>The network side: net.Conn.Read and io.ReadFull\<close>

text \<open>
  A connection delivers the peer's bytes in the pieces \<open>chunks\<close>, then an error (end of stream,
  reset or deadline) for ever. A read returns at most the room it is given. The last piece may
  come together with the error, as \<^verbatim>\<open>io.Reader\<close> permits.
\<close>

record net_conn =
  chunks :: "bytes list"
  err_with_data :: bool

definition conn_Read :: "nat \<Rightarrow> net_conn \<Rightarrow> bytes \<times> bool \<times> net_conn" where
  "conn_Read room c =
     (case chunks c of
        [] \<Rightarrow> ([], True, c)
      | d # ds \<Rightarrow>
          (let ds' = (if length d \<le> room then ds else drop room d # ds)
           in (take room d, err_with_data c \<and> ds' = [], c\<lparr>chunks := ds'\<rparr>)))"

definition conn_size :: "net_conn \<Rightarrow> nat" where
  "conn_size c = total_length (chunks c) + length (chunks c)"

lemma conn_Read_bytes:
  "conn_Read room c = (d, err, c') \<Longrightarrow> concat (chunks c) = d @ concat (chunks c')"
  by (auto simp: conn_Read_def Let_def split: list.splits if_splits)

lemma conn_Read_total:
  "conn_Read room c = (d, err, c') \<Longrightarrow> total_length (chunks c) = length d + total_length (chunks c')"
  by (metis conn_Read_bytes length_append length_concat_total)

lemma conn_Read_room: "conn_Read room c = (d, err, c') \<Longrightarrow> length d \<le> room"
  by (auto simp: conn_Read_def Let_def split: list.splits if_splits)

lemma conn_Read_err: "conn_Read room c = (d, True, c') \<Longrightarrow> chunks c' = []"
  by (auto simp: conn_Read_def Let_def split: list.splits if_splits)

lemma conn_Read_progress:
  "conn_Read room c = (d, False, c') \<Longrightarrow> 0 < room \<Longrightarrow> conn_size c' < conn_size c"
  by (auto simp: conn_Read_def Let_def conn_size_def split: list.splits if_splits)

function read_full :: "nat \<Rightarrow> net_conn \<Rightarrow> bytes \<times> bool \<times> net_conn" where
  "read_full n c =
     (if n = 0 then ([], True, c)
      else (case conn_Read n c of (d, err, c') \<Rightarrow>
              if err then (d, n \<le> length d, c')
              else (case read_full (n - length d) c' of (d2, ok, c'') \<Rightarrow> (d @ d2, ok, c''))))"
  by pat_completeness auto
termination
  by (relation "measure (\<lambda>(_, c). conn_size c)") (auto intro: conn_Read_progress[OF sym])

declare read_full.simps [simp del]

lemma read_full_spec:
  "read_full n c = (d, ok, c') \<Longrightarrow>
     concat (chunks c) = d @ concat (chunks c') \<and>
     total_length (chunks c) = length d + total_length (chunks c') \<and> length d \<le> n \<and>
     (ok \<longleftrightarrow> n \<le> total_length (chunks c)) \<and> (ok \<longrightarrow> length d = n)"
proof (induction n c arbitrary: d ok c' rule: read_full.induct)
  case (1 n c)
  obtain e err c1 where R: "conn_Read n c = (e, err, c1)" by (cases "conn_Read n c")
  show ?case
  proof (cases "n = 0 \<or> err")
    case True
    then show ?thesis
      using "1.prems" R conn_Read_bytes[OF R] conn_Read_total[OF R] conn_Read_room[OF R] conn_Read_err[of n c e c1]
      by (subst (asm) read_full.simps) (auto split: if_splits)
  next
    case False
    obtain e2 ok2 c2 where F: "read_full (n - length e) c1 = (e2, ok2, c2)"
      by (cases "read_full (n - length e) c1")
    have "d = e @ e2" "ok = ok2" "c' = c2"
      using "1.prems" False R F by (subst (asm) read_full.simps, auto)+
    moreover have "concat (chunks c1) = e2 @ concat (chunks c2)" "length e2 \<le> n - length e"
      "total_length (chunks c1) = length e2 + total_length (chunks c2)"
      "ok2 \<longleftrightarrow> n - length e \<le> total_length (chunks c1)" "ok2 \<longrightarrow> length e2 = n - length e"
      using "1.IH"[OF _ R[symmetric] refl _ F] False by auto
    ultimately show ?thesis
      using conn_Read_bytes[OF R] conn_Read_total[OF R] conn_Read_room[OF R] by auto
  qed
qed

section \<open>The frame reader\<close>

definition readFrameBufSize :: nat where "readFrameBufSize = 14"

record frame_reader =
  fr_conn :: net_conn
  fr_buf :: bytes
  fr_r :: nat
  fr_w :: nat

definition newFrameReader :: "net_conn \<Rightarrow> frame_reader" where
  "newFrameReader c = \<lparr>fr_conn = c, fr_buf = replicate readFrameBufSize 0, fr_r = 0, fr_w = 0\<rparr>"

text \<open>The first part of \<^verbatim>\<open>fill\<close>: moving the unread bytes to the front.\<close>

definition fill_compact :: "frame_reader \<Rightarrow> frame_reader" where
  "fill_compact f =
     (if 0 < fr_r f then
        f\<lparr>fr_buf := take (fr_w f - fr_r f) (drop (fr_r f) (fr_buf f)) @
                    drop (fr_w f - fr_r f) (fr_buf f),
          fr_w := fr_w f - fr_r f, fr_r := 0\<rparr>
      else f)"

text \<open>
  The loop of \<^verbatim>\<open>fill\<close>. It would not end for a \<open>minimum\<close> above the buffer's size, so it is
  a partial function; \<open>Some (True, f)\<close> is a return with a nil error.
\<close>

partial_function (option) fill_loop :: "nat \<Rightarrow> frame_reader \<Rightarrow> (bool \<times> frame_reader) option" where
  "fill_loop minimum f =
     (if fr_w f - fr_r f < minimum then
        (case conn_Read (length (fr_buf f) - fr_w f) (fr_conn f) of (d, err, c') \<Rightarrow>
           (let f' = f\<lparr>fr_conn := c',
                       fr_buf := take (fr_w f) (fr_buf f) @ d @ drop (fr_w f + length d) (fr_buf f),
                       fr_w := fr_w f + length d\<rparr>
            in if err then Some (minimum \<le> fr_w f' - fr_r f', f') else fill_loop minimum f'))
      else Some (True, f))"

definition fill :: "nat \<Rightarrow> frame_reader \<Rightarrow> (bool \<times> frame_reader) option" where
  "fill minimum f =
     (if minimum \<le> fr_w f - fr_r f then Some (True, f) else fill_loop minimum (fill_compact f))"

definition peek :: "nat \<Rightarrow> frame_reader \<Rightarrow> (bytes option \<times> frame_reader) option" where
  "peek n f =
     (case fill n f of
        None \<Rightarrow> None
      | Some (False, f') \<Rightarrow> Some (None, f')
      | Some (True, f') \<Rightarrow> Some (Some (take n (drop (fr_r f') (fr_buf f'))), f'))"

definition fr_consume :: "nat \<Rightarrow> frame_reader \<Rightarrow> frame_reader" where
  "fr_consume n f =
     (if fr_r f + n = fr_w f then f\<lparr>fr_r := 0, fr_w := 0\<rparr> else f\<lparr>fr_r := fr_r f + n\<rparr>)"

text \<open>\<^verbatim>\<open>readPayload(dst)\<close> for a \<^verbatim>\<open>dst\<close> of length \<open>n\<close>; \<open>None\<close> is the error.\<close>

definition readPayload :: "nat \<Rightarrow> frame_reader \<Rightarrow> bytes option \<times> frame_reader" where
  "readPayload n f =
     (let buffered = fr_w f - fr_r f in
      if 0 < buffered \<and> n \<le> buffered then
        (Some (take n (drop (fr_r f) (fr_buf f))), fr_consume n f)
      else
        (let (head, f1) =
               (if 0 < buffered then (take buffered (drop (fr_r f) (fr_buf f)), f\<lparr>fr_r := 0, fr_w := 0\<rparr>)
                else ([], f))
         in case read_full (n - length head) (fr_conn f1) of (d, ok, c') \<Rightarrow>
              (if ok then Some (head @ d) else None, f1\<lparr>fr_conn := c'\<rparr>)))"

section \<open>The reader against the byte stream\<close>

text \<open>The bytes the reader has still to hand out: what it buffered, then what will arrive.\<close>

definition unread :: "frame_reader \<Rightarrow> bytes" where
  "unread f = take (fr_w f - fr_r f) (drop (fr_r f) (fr_buf f)) @ concat (chunks (fr_conn f))"

definition fr_ok :: "frame_reader \<Rightarrow> bool" where
  "fr_ok f \<longleftrightarrow> length (fr_buf f) = readFrameBufSize \<and> fr_r f \<le> fr_w f \<and> fr_w f \<le> readFrameBufSize"

lemma newFrameReader_ok [inv_intros]: "fr_ok (newFrameReader c)"
  by (simp add: fr_ok_def newFrameReader_def)

lemma unread_new [simp]: "unread (newFrameReader c) = concat (chunks c)"
  by (simp add: unread_def newFrameReader_def)

lemma fill_compact_spec:
  assumes "fr_ok f"
  shows "fr_ok (fill_compact f)" "unread (fill_compact f) = unread f"
    "fr_r (fill_compact f) = 0" "fr_w (fill_compact f) = fr_w f - fr_r f"
  using assms by (auto simp: fill_compact_def fr_ok_def unread_def)

lemma fill_loop_spec:
  assumes "fr_ok f" "fr_r f = 0" "minimum \<le> readFrameBufSize"
  shows "\<exists>ok f'. fill_loop minimum f = Some (ok, f') \<and> fr_ok f' \<and> unread f' = unread f \<and>
           ok = (minimum \<le> length (unread f)) \<and> (ok \<longrightarrow> minimum \<le> fr_w f' - fr_r f')"
  using assms
proof (induction "conn_size (fr_conn f)" arbitrary: f rule: less_induct)
  case less
  show ?case
  proof (cases "fr_w f < minimum")
    case False
    then show ?thesis using less.prems
      by (subst fill_loop.simps) (auto simp: unread_def fr_ok_def)
  next
    case True
    obtain d err c' where R: "conn_Read (length (fr_buf f) - fr_w f) (fr_conn f) = (d, err, c')"
      by (metis prod_cases3)
    define g where "g = f\<lparr>fr_conn := c',
        fr_buf := take (fr_w f) (fr_buf f) @ d @ drop (fr_w f + length d) (fr_buf f),
        fr_w := fr_w f + length d\<rparr>"
    have room: "length d \<le> readFrameBufSize - fr_w f"
      using conn_Read_room[OF R] less.prems by (simp add: fr_ok_def)
    have g: "fr_ok g" "fr_r g = 0" "unread g = unread f"
      using less.prems True room conn_Read_bytes[OF R]
      by (auto simp: g_def fr_ok_def unread_def min_def)
    have step: "fill_loop minimum f =
        (if err then Some (minimum \<le> fr_w g - fr_r g, g) else fill_loop minimum g)"
      using True less.prems(2) R by (subst fill_loop.simps) (simp add: g_def Let_def)
    show ?thesis
    proof (cases err)
      case True
      have "chunks (fr_conn g) = []"
        using conn_Read_err[of _ "fr_conn f" d c'] R True by (simp add: g_def)
      then have "length (unread g) = fr_w g"
        using g(1,2) by (simp add: unread_def fr_ok_def)
      then show ?thesis using step True g by simp
    next
      case False
      have "conn_size (fr_conn g) < conn_size (fr_conn f)"
        using conn_Read_progress[of _ "fr_conn f" d c'] R False True less.prems
        by (simp add: g_def fr_ok_def)
      from less.hyps[OF this g(1,2) less.prems(3)] show ?thesis
        using step False g(3) by simp
    qed
  qed
qed

lemma fill_spec:
  assumes "fr_ok f" "minimum \<le> readFrameBufSize"
  shows "\<exists>ok f'. fill minimum f = Some (ok, f') \<and> fr_ok f' \<and> unread f' = unread f \<and>
           ok = (minimum \<le> length (unread f)) \<and> (ok \<longrightarrow> minimum \<le> fr_w f' - fr_r f')"
proof (cases "minimum \<le> fr_w f - fr_r f")
  case True
  then show ?thesis using assms(1) by (auto simp: fill_def unread_def fr_ok_def)
next
  case False
  then show ?thesis
    using fill_loop_spec[OF fill_compact_spec(1,3)[OF assms(1)] assms(2)]
    by (simp add: fill_def fill_compact_spec(2)[OF assms(1)])
qed

lemma peek_spec:
  assumes "fr_ok f" "n \<le> readFrameBufSize"
  shows "\<exists>f'. peek n f = Some (if n \<le> length (unread f) then Some (take n (unread f)) else None, f') \<and>
           fr_ok f' \<and> unread f' = unread f \<and> (n \<le> length (unread f) \<longrightarrow> n \<le> fr_w f' - fr_r f')"
proof -
  obtain ok f' where F: "fill n f = Some (ok, f')" "fr_ok f'" "unread f' = unread f"
      "ok = (n \<le> length (unread f))" "ok \<longrightarrow> n \<le> fr_w f' - fr_r f'"
    using fill_spec[OF assms] by auto
  have "ok \<Longrightarrow> take n (drop (fr_r f') (fr_buf f')) = take n (unread f)"
    using F(2,5) unfolding F(3)[symmetric] by (auto simp: unread_def fr_ok_def)
  then show ?thesis using F by (auto simp: peek_def split: bool.splits)
qed

lemma fr_consume_spec:
  assumes "fr_ok f" "n \<le> fr_w f - fr_r f"
  shows "fr_ok (fr_consume n f)" "unread (fr_consume n f) = drop n (unread f)"
  using assms by (auto simp: fr_ok_def fr_consume_def unread_def drop_take add.commute)

lemma readPayload_spec:
  assumes "fr_ok f" and "readPayload n f = (res, f')"
  shows "fr_ok f' \<and>
    (if n \<le> length (unread f) then res = Some (take n (unread f)) \<and> unread f' = drop n (unread f)
     else res = None)"
proof (cases "0 < fr_w f - fr_r f \<and> n \<le> fr_w f - fr_r f")
  case True
  then have "res = Some (take n (drop (fr_r f) (fr_buf f)))" "f' = fr_consume n f"
    using assms(2) by (simp_all add: readPayload_def Let_def)
  moreover have "take n (drop (fr_r f) (fr_buf f)) = take n (unread f)" "n \<le> length (unread f)"
    using True assms(1) by (auto simp: unread_def fr_ok_def min_def)
  ultimately show ?thesis using fr_consume_spec[OF assms(1)] True by simp
next
  case False
  define head where "head = take (fr_w f - fr_r f) (drop (fr_r f) (fr_buf f))"
  define f1 where "f1 = (if 0 < fr_w f - fr_r f then f\<lparr>fr_r := 0, fr_w := 0\<rparr> else f)"
  obtain d ok c' where F: "read_full (n - length head) (fr_conn f) = (d, ok, c')"
    by (metis prod_cases3)
  have R: "res = (if ok then Some (head @ d) else None)" "f' = f1\<lparr>fr_conn := c'\<rparr>"
    using assms(2) False F by (auto simp: readPayload_def Let_def head_def f1_def split: if_splits)
  have len: "length head = fr_w f - fr_r f" "length head \<le> n"
    using assms(1) False by (auto simp: head_def fr_ok_def)
  have U: "unread f = head @ concat (chunks (fr_conn f))" by (simp add: unread_def head_def)
  have ok: "fr_ok f'" "unread f' = concat (chunks c')"
    using assms(1) by (auto simp: R(2) f1_def fr_ok_def unread_def)
  from read_full_spec[OF F] show ?thesis
    using R(1) U ok len by (auto simp: le_diff_conv)
qed

end
