(* ===== verification/Ws_Loop.thy ===== *)
theory Ws_Loop
  imports Ws_Reader
begin

unbundle bit_operations_syntax

text \<open>
  The loop of \<^verbatim>\<open>readLoop\<close> (\<^verbatim>\<open>wisp/wsreader.go\<close>): header checks, unmasking,
  fragmentation and control frames. The effects of a turn of the loop are the list of its calls
  into the connection, in order; what those calls do is modelled by the connection's theories.
\<close>

section \<open>The actions of the loop and its state\<close>

text \<open>
  \<open>WsFrame p pooled\<close> is \<^verbatim>\<open>handleWispFrame\<close>, with the pooled buffer (an unfragmented
  message) or with \<^verbatim>\<open>nil\<close> (a reassembled one); \<open>WsClose c\<close> is \<^verbatim>\<open>sendWSClose(c)\<close>
  and \<open>WsPong p\<close> is \<^verbatim>\<open>writeRawPong(p)\<close>.
\<close>

datatype ws_action = WsFrame bytes bool | WsClose u16 | WsPong bytes

record read_state =
  rs_reader :: frame_reader
  rs_fragmentedOpcode :: byte
  rs_fragmented :: bytes

section \<open>Reading one frame\<close>

text \<open>The loop's view of one frame: the connection failed, a protocol error, or a frame.\<close>

datatype frame_result =
    FrameEof
  | FrameBad u16
  | FrameOk bool byte bytes

definition hdr_fin :: "byte \<Rightarrow> bool" where "hdr_fin b0 = (b0 AND 0x80 \<noteq> 0)"
definition hdr_rsv :: "byte \<Rightarrow> byte" where "hdr_rsv b0 = b0 AND 0x70"
definition hdr_opcode :: "byte \<Rightarrow> byte" where "hdr_opcode b0 = b0 AND 0x0F"
definition hdr_masked :: "byte \<Rightarrow> bool" where "hdr_masked b1 = (b1 AND 0x80 \<noteq> 0)"
definition hdr_lengthCode :: "byte \<Rightarrow> byte" where "hdr_lengthCode b1 = b1 AND 0x7F"

definition headerLen :: "byte \<Rightarrow> nat" where
  "headerLen lengthCode =
     2 + (if lengthCode = 126 then 2 else if lengthCode = 127 then 8 else 0) + 4"

text \<open>
  The payload length from a complete header; \<open>None\<close> for the 64-bit form with its top bit set.
\<close>

definition payloadLen :: "byte \<Rightarrow> bytes \<Rightarrow> nat option" where
  "payloadLen lengthCode hdr =
     (if lengthCode \<le> 125 then Some (unat lengthCode)
      else if lengthCode = 126 then Some (unat (uint16_be (take 2 (drop 2 hdr))))
      else if hdr ! 2 AND 0x80 \<noteq> 0 then None
      else Some (unat (uint64_be (take 8 (drop 2 hdr)))))"

definition isControlFrame :: "byte \<Rightarrow> bool" where "isControlFrame opcode = (0x8 \<le> opcode)"

definition read_frame :: "nat \<Rightarrow> frame_reader \<Rightarrow> (frame_result \<times> frame_reader) option" where
  "read_frame maxPayload f0 =
     (case peek 2 f0 of
        None \<Rightarrow> None
      | Some (None, f1) \<Rightarrow> Some (FrameEof, f1)
      | Some (Some hdr, f1) \<Rightarrow>
          (let b0 = hdr ! 0; b1 = hdr ! 1; lengthCode = hdr_lengthCode b1; opcode = hdr_opcode b0 in
           if hdr_rsv b0 \<noteq> 0 \<or> \<not> hdr_masked b1 then Some (FrameBad 1002, f1)
           else (case peek (headerLen lengthCode) f1 of
                   None \<Rightarrow> None
                 | Some (None, f2) \<Rightarrow> Some (FrameEof, f2)
                 | Some (Some hdr, f2) \<Rightarrow>
                     (case payloadLen lengthCode hdr of
                        None \<Rightarrow> Some (FrameBad 1002, f2)
                      | Some n \<Rightarrow>
                          if isControlFrame opcode \<and> (\<not> hdr_fin b0 \<or> 125 < n)
                          then Some (FrameBad 1002, f2)
                          else
                            (let maskKey = drop (headerLen lengthCode - 4) hdr;
                                 f3 = fr_consume (headerLen lengthCode) f2
                             in if maxPayload < n then Some (FrameBad 1009, f3)
                                else if 0 < n then
                                  (case readPayload n f3 of
                                     (None, f4) \<Rightarrow> Some (FrameEof, f4)
                                   | (Some payload, f4) \<Rightarrow>
                                       Some (FrameOk (hdr_fin b0) opcode (maskXOR payload maskKey), f4))
                                else Some (FrameOk (hdr_fin b0) opcode [], f3))))))"

section \<open>The switch on the opcode\<close>

text \<open>
  The calls of the frame and, unless the loop returns, the new \<^verbatim>\<open>fragmentedOpcode\<close> and
  \<^verbatim>\<open>fragmented\<close>.
\<close>

definition dispatch_frame ::
  "nat \<Rightarrow> byte \<Rightarrow> bytes \<Rightarrow> bool \<Rightarrow> byte \<Rightarrow> bytes \<Rightarrow> ws_action list \<times> (byte \<times> bytes) option" where
  "dispatch_frame maxPayload fragmentedOpcode fragmented fin opcode payload =
     (if opcode = 0x0 then
        if fragmentedOpcode = 0 then ([WsClose 1002], None)
        else if maxPayload < (length fragmented + length payload) mod 2 ^ 64
        then ([WsClose 1009], None)
        else if fin then ([WsFrame (fragmented @ payload) False], Some (0, []))
        else ([], Some (fragmentedOpcode, fragmented @ payload))
      else if opcode = 0x2 then
        if fragmentedOpcode \<noteq> 0 then ([WsClose 1002], None)
        else if \<not> fin then ([], Some (opcode, payload))
        else ([WsFrame payload True], Some (fragmentedOpcode, fragmented))
      else if opcode = 0x1 then ([WsClose 1003], None)
      else if opcode = 0x9 then ([WsPong payload], Some (fragmentedOpcode, fragmented))
      else if opcode = 0xA then ([], Some (fragmentedOpcode, fragmented))
      else if opcode = 0x8 then
        if length payload = 1 then ([WsClose 1002], None)
        else if 2 \<le> length payload then ([WsClose (uint16_be (take 2 payload))], None)
        else ([WsClose 1000], None)
      else ([WsClose 1002], None))"

section \<open>The loop\<close>

definition read_iter :: "nat \<Rightarrow> read_state \<Rightarrow> (ws_action list \<times> read_state option) option" where
  "read_iter maxPayload s =
     (case read_frame maxPayload (rs_reader s) of
        None \<Rightarrow> None
      | Some (FrameEof, f) \<Rightarrow> Some ([], None)
      | Some (FrameBad code, f) \<Rightarrow> Some ([WsClose code], None)
      | Some (FrameOk fin opcode payload, f) \<Rightarrow>
          (case dispatch_frame maxPayload (rs_fragmentedOpcode s) (rs_fragmented s) fin opcode payload of
             (acts, None) \<Rightarrow> Some (acts, None)
           | (acts, Some (opc, frag)) \<Rightarrow>
               Some (acts, Some \<lparr>rs_reader = f, rs_fragmentedOpcode = opc, rs_fragmented = frag\<rparr>)))"

partial_function (option) read_loop :: "nat \<Rightarrow> read_state \<Rightarrow> ws_action list option" where
  "read_loop maxPayload s =
     (case read_iter maxPayload s of
        None \<Rightarrow> None
      | Some (acts, None) \<Rightarrow> Some acts
      | Some (acts, Some s') \<Rightarrow>
          Option.bind (read_loop maxPayload s') (\<lambda>rest. Some (acts @ rest)))"

definition read_start :: "net_conn \<Rightarrow> read_state" where
  "read_start c = \<lparr>rs_reader = newFrameReader c, rs_fragmentedOpcode = 0, rs_fragmented = []\<rparr>"

text \<open>\<^verbatim>\<open>readLoop\<close> on a connection: its calls up to its return.\<close>

definition readLoop :: "nat \<Rightarrow> net_conn \<Rightarrow> ws_action list option" where
  "readLoop maxPayload c = read_loop maxPayload (read_start c)"

section \<open>The reference: decoding the stream as a whole\<close>

datatype parsed = ParsedEof | ParsedBad u16 | ParsedFrame bool byte bytes bytes

definition parse_frame :: "nat \<Rightarrow> bytes \<Rightarrow> parsed" where
  "parse_frame maxPayload s =
     (if length s < 2 then ParsedEof
      else if hdr_rsv (s ! 0) \<noteq> 0 \<or> \<not> hdr_masked (s ! 1) then ParsedBad 1002
      else
        (let lengthCode = hdr_lengthCode (s ! 1); h = headerLen lengthCode in
         if length s < h then ParsedEof
         else (case payloadLen lengthCode (take h s) of
                 None \<Rightarrow> ParsedBad 1002
               | Some n \<Rightarrow>
                   if isControlFrame (hdr_opcode (s ! 0)) \<and> (\<not> hdr_fin (s ! 0) \<or> 125 < n)
                   then ParsedBad 1002
                   else if maxPayload < n then ParsedBad 1009
                   else if length s < h + n then ParsedEof
                   else ParsedFrame (hdr_fin (s ! 0)) (hdr_opcode (s ! 0))
                          (mask_spec (take 4 (drop (h - 4) s)) (take n (drop h s)))
                          (drop (h + n) s))))"

lemma parse_frame_shorter:
  "parse_frame maxPayload s = ParsedFrame fin opc p rest \<Longrightarrow> length rest < length s"
  by (auto simp: parse_frame_def Let_def headerLen_def split: if_splits option.splits)

function decode_stream :: "nat \<Rightarrow> byte \<Rightarrow> bytes \<Rightarrow> bytes \<Rightarrow> ws_action list" where
  "decode_stream maxPayload opc frag s =
     (case parse_frame maxPayload s of
        ParsedEof \<Rightarrow> []
      | ParsedBad code \<Rightarrow> [WsClose code]
      | ParsedFrame fin opcode payload rest \<Rightarrow>
          (case dispatch_frame maxPayload opc frag fin opcode payload of
             (acts, None) \<Rightarrow> acts
           | (acts, Some (opc', frag')) \<Rightarrow> acts @ decode_stream maxPayload opc' frag' rest))"
  by pat_completeness auto
termination
  by (relation "measure (\<lambda>(_, _, _, s). length s)") (auto dest: parse_frame_shorter)

declare decode_stream.simps [simp del]

section \<open>The loop refines the reference\<close>

lemma headerLen_bounds: "6 \<le> headerLen lc" "headerLen lc \<le> readFrameBufSize"
  by (simp_all add: headerLen_def readFrameBufSize_def)

lemma mask_spec_Nil [simp]: "mask_spec key [] = []"
  using length_mask_spec[of key "[]"] by simp

definition frame_agrees :: "parsed \<Rightarrow> frame_result \<Rightarrow> frame_reader \<Rightarrow> bool" where
  "frame_agrees p res f' =
     (case p of
        ParsedEof \<Rightarrow> res = FrameEof
      | ParsedBad code \<Rightarrow> res = FrameBad code
      | ParsedFrame fin opcode payload rest \<Rightarrow> res = FrameOk fin opcode payload \<and> fr_ok f' \<and> unread f' = rest)"

text \<open>A header whose length of payload could be read.\<close>

lemma read_frame_body:
  fixes f :: frame_reader and s :: bytes
  defines "lc \<equiv> hdr_lengthCode (s ! Suc 0)"
  defines "h \<equiv> headerLen lc"
  assumes P1: "peek 2 f = Some (Some (take 2 s), f1)"
    and P2: "peek h f1 = Some (Some (take h s), f2)" "fr_ok f2" "unread f2 = s" "h \<le> fr_w f2 - fr_r f2"
    and True: "2 \<le> length s" "hdr_rsv (s ! 0) = 0" "hdr_masked (s ! 1)" "h \<le> length s"
    and h: "6 \<le> h" and Some: "payloadLen lc (take h s) = Some n"
  shows "\<exists>res f'. read_frame m f = Some (res, f') \<and> frame_agrees (parse_frame m s) res f'"
proof -
  define fin where "fin = hdr_fin (s ! 0)"
  define opc where "opc = hdr_opcode (s ! 0)"
  have hd: "take 2 s ! 0 = s ! 0" "take 2 s ! Suc 0 = s ! Suc 0" by simp_all
  define f3 where "f3 = fr_consume h f2"
  have f3: "fr_ok f3" "unread f3 = drop h s"
    using fr_consume_spec[OF P2(2)] P2(3,4) True by (auto simp: f3_def)
  obtain res4 f4 where R: "readPayload n f3 = (res4, f4)" by fastforce
  note rp = readPayload_spec[OF f3(1) R]
  have key: "drop (h - 4) (take h s) = take 4 (drop (h - 4) s)" "length (take 4 (drop (h - 4) s)) = 4"
    using h True by (auto simp: drop_take)
  have len: "n \<le> length (drop h s) \<longleftrightarrow> \<not> length s < h + n" using True by auto
  define bad where "bad = (isControlFrame opc \<and> (\<not> fin \<or> 125 < n))"
  have C: "read_frame m f =
      (if bad then Some (FrameBad 1002, f2)
       else if m < n then Some (FrameBad 1009, f3)
       else if 0 < n then
         (case (res4, f4) of
            (None, f4) \<Rightarrow> Some (FrameEof, f4)
          | (Some payload, f4) \<Rightarrow>
              Some (FrameOk fin opc (maskXOR payload (drop (h - 4) (take h s))), f4))
       else Some (FrameOk fin opc [], f3))"
    using True P1 P2(1) hd Some
    by (simp add: read_frame_def Let_def lc_def[symmetric] h_def[symmetric] f3_def[symmetric]
        fin_def opc_def bad_def R split: option.split)
  have P: "parse_frame m s =
      (if bad then ParsedBad 1002
       else if m < n then ParsedBad 1009
       else if length s < h + n then ParsedEof
       else ParsedFrame fin opc (mask_spec (take 4 (drop (h - 4) s)) (take n (drop h s)))
              (drop (h + n) s))"
    using True Some
    by (simp add: parse_frame_def Let_def lc_def[symmetric] h_def[symmetric]
        fin_def opc_def bad_def)
  consider "bad \<or> m < n" | "\<not> bad" "\<not> m < n" "n = 0" | "\<not> bad" "\<not> m < n" "0 < n" "length s < h + n"
    | "\<not> bad" "\<not> m < n" "0 < n" "\<not> length s < h + n" by linarith
  then show ?thesis
  proof cases
    case 1
    then show ?thesis by (auto simp: C P frame_agrees_def)
  next
    case 2
    then show ?thesis using f3 True by (simp add: C P frame_agrees_def)
  next
    case 3
    then have "res4 = None" using rp f3(2) len by auto
    then show ?thesis using 3 by (simp add: C P frame_agrees_def)
  next
    case 4
    then have "res4 = Some (take n (drop h s))" "unread f4 = drop (h + n) s" "fr_ok f4"
      using rp f3(2) len by (auto simp: add.commute)
    then show ?thesis using 4 key by (simp add: C P frame_agrees_def maskXOR_mask_spec)
  qed
qed

lemma read_frame_spec:
  assumes "fr_ok f"
  shows "\<exists>res f'. read_frame m f = Some (res, f') \<and> frame_agrees (parse_frame m (unread f)) res f'"
proof -
  let ?s = "unread f"
  obtain f1 where P1: "peek 2 f = Some (if 2 \<le> length ?s then Some (take 2 ?s) else None, f1)"
      "fr_ok f1" "unread f1 = ?s"
    using peek_spec[OF assms, of 2] by (auto simp: readFrameBufSize_def)
  define lc where "lc = hdr_lengthCode (?s ! Suc 0)"
  define h where "h = headerLen lc"
  have h: "6 \<le> h" "h \<le> readFrameBufSize" using headerLen_bounds by (auto simp: h_def)
  obtain f2 where P2: "peek h f1 = Some (if h \<le> length ?s then Some (take h ?s) else None, f2)"
      "fr_ok f2" "unread f2 = ?s" "h \<le> length ?s \<longrightarrow> h \<le> fr_w f2 - fr_r f2"
    using peek_spec[OF P1(2) h(2)] P1(3) by auto
  show ?thesis
  proof (cases "2 \<le> length ?s \<and> hdr_rsv (?s ! 0) = 0 \<and> hdr_masked (?s ! 1) \<and> h \<le> length ?s")
    case False
    then show ?thesis
      using P1(1) P2(1)
      by (auto simp: read_frame_def parse_frame_def frame_agrees_def Let_def lc_def h_def)
  next
    case True
    note ok = True[THEN conjunct1] True[THEN conjunct2, THEN conjunct1]
      True[THEN conjunct2, THEN conjunct2, THEN conjunct1] True[THEN conjunct2, THEN conjunct2, THEN conjunct2]
    have hd: "take 2 ?s ! 0 = ?s ! 0" "take 2 ?s ! Suc 0 = ?s ! Suc 0" by simp_all
    show ?thesis
    proof (cases "payloadLen lc (take h ?s)")
      case None
      then show ?thesis using True P1(1) P2(1) hd
        by (auto simp: read_frame_def parse_frame_def frame_agrees_def Let_def lc_def h_def)
    next
      case (Some n)
      then show ?thesis
        using read_frame_body[of f ?s f1 f2 n m] P1(1) P2 ok h(1) unfolding lc_def h_def by simp
    qed
  qed
qed

lemma read_loop_refines:
  assumes "fr_ok (rs_reader s)"
  shows "read_loop m s = Some (decode_stream m (rs_fragmentedOpcode s) (rs_fragmented s) (unread (rs_reader s)))"
  using assms
proof (induction "length (unread (rs_reader s))" arbitrary: s rule: less_induct)
  case less
  obtain res f' where F: "read_frame m (rs_reader s) = Some (res, f')"
      "frame_agrees (parse_frame m (unread (rs_reader s))) res f'"
    using read_frame_spec[OF less.prems] by blast
  show ?case
  proof (cases "parse_frame m (unread (rs_reader s))")
    case ParsedEof
    then show ?thesis using F
      by (subst read_loop.simps, subst decode_stream.simps) (simp add: read_iter_def frame_agrees_def)
  next
    case (ParsedBad c)
    then show ?thesis using F
      by (subst read_loop.simps, subst decode_stream.simps) (simp add: read_iter_def frame_agrees_def)
  next
    case (ParsedFrame fin opcode payload rest)
    then have R: "res = FrameOk fin opcode payload" "fr_ok f'" "unread f' = rest"
      using F by (simp_all add: frame_agrees_def)
    have shorter: "length (unread f') < length (unread (rs_reader s))"
      using parse_frame_shorter[OF ParsedFrame] R by simp
    obtain acts nxt where D: "dispatch_frame m (rs_fragmentedOpcode s) (rs_fragmented s) fin opcode payload = (acts, nxt)"
      by fastforce
    show ?thesis
    proof (cases nxt)
      case None
      then show ?thesis using F R D ParsedFrame
        by (subst read_loop.simps, subst decode_stream.simps) (simp add: read_iter_def)
    next
      case (Some p)
      obtain opc frag where p: "p = (opc, frag)" by fastforce
      define s' where "s' = \<lparr>rs_reader = f', rs_fragmentedOpcode = opc, rs_fragmented = frag\<rparr>"
      have "read_loop m s' = Some (decode_stream m opc frag rest)"
        using less.hyps[of s'] shorter R by (simp add: s'_def)
      then show ?thesis using F R D ParsedFrame Some p
        by (subst read_loop.simps, subst decode_stream.simps) (simp add: read_iter_def s'_def)
    qed
  qed
qed

lemma readLoop_decode_stream: "readLoop m c = Some (decode_stream m 0 [] (concat (chunks c)))"
  by (simp add: readLoop_def read_start_def read_loop_refines newFrameReader_ok)

end
