(* ===== verification/Ws_Client.thy ===== *)
theory Ws_Client
  imports Ws_Loop
begin

unbundle bit_operations_syntax

text \<open>
  What a client may send, as RFC 6455 prescribes it (masked frames, fragmented messages with
  control frames between the fragments), and the properties of the read loop against it. The
  definitions of this theory are specifications, not code of the server.
\<close>

section \<open>Client frames\<close>

definition client_header :: "bool \<Rightarrow> byte \<Rightarrow> nat \<Rightarrow> bytes" where
  "client_header fin opcode n =
     ((if fin then 0x80 else 0) OR opcode) #
     (if n \<le> 125 then [0x80 OR of_nat n]
      else if n \<le> 65535 then (0x80 OR 126) # put_uint16_be (of_nat n)
      else (0x80 OR 127) # put_uint64_be (of_nat n))"

definition client_frame :: "bool \<Rightarrow> byte \<Rightarrow> bytes \<Rightarrow> bytes \<Rightarrow> bytes" where
  "client_frame fin opcode key payload =
     client_header fin opcode (length payload) @ key @ mask_spec key payload"

lemma low7: "(b :: byte) < 128 \<Longrightarrow> b AND 0x7F = b"
  using less_mask_eq[of b 7] by (simp add: mask_eq_exp_minus_1)

lemma low4: "(b :: byte) < 16 \<Longrightarrow> b AND 0x0F = b"
  using less_mask_eq[of b 4] by (simp add: mask_eq_exp_minus_1)

lemma length_byte:
  assumes "b < 128"
  shows "hdr_lengthCode (0x80 OR b) = b" "hdr_masked (0x80 OR b)"
proof -
  show "hdr_lengthCode (0x80 OR b) = b"
    using low7[OF assms] by (simp add: hdr_lengthCode_def bit.conj_disj_distrib2)
  show "hdr_masked (0x80 OR b)"
    by (simp add: hdr_masked_def word_ao_absorbs)
qed

lemma opcode_byte:
  assumes "opcode < 16"
  shows "hdr_opcode ((if fin then 0x80 else 0) OR opcode) = opcode"
    "hdr_fin ((if fin then 0x80 else 0) OR opcode) = fin"
    "hdr_rsv ((if fin then 0x80 else 0) OR opcode) = 0"
proof -
  have op: "opcode AND 0x0F = opcode" by (rule low4[OF assms])
  have "opcode AND 0x80 = (opcode AND 0x0F) AND 0x80" "opcode AND 0x70 = (opcode AND 0x0F) AND 0x70"
    by (simp_all only: op)
  then have z: "opcode AND 0x80 = 0" "opcode AND 0x70 = 0"
    by (simp_all add: and.assoc)
  show "hdr_opcode ((if fin then 0x80 else 0) OR opcode) = opcode"
    using op by (simp add: hdr_opcode_def bit.conj_disj_distrib2)
  show "hdr_fin ((if fin then 0x80 else 0) OR opcode) = fin"
    using z by (simp add: hdr_fin_def bit.conj_disj_distrib2)
  show "hdr_rsv ((if fin then 0x80 else 0) OR opcode) = 0"
    using z by (simp add: hdr_rsv_def bit.conj_disj_distrib2)
qed

lemma length_client_header:
  "length (client_header fin opcode n) + 4 =
     headerLen (if n \<le> 125 then of_nat n else if n \<le> 65535 then 126 else 127)"
proof -
  have "n \<le> 125 \<Longrightarrow> (of_nat n :: byte) \<noteq> 126 \<and> (of_nat n :: byte) \<noteq> 127"
    by (auto simp: word_eq_iff_unsigned[where 'a = nat] unat_of_nat)
  then show ?thesis by (auto simp: client_header_def headerLen_def)
qed

lemma payloadLen_client:
  assumes "n < 2 ^ 63"
  shows "payloadLen (if n \<le> 125 then of_nat n else if n \<le> 65535 then 126 else 127)
           (client_header fin opcode n @ key) = Some n"
proof -
  consider "n \<le> 125" | "\<not> n \<le> 125" "n \<le> 65535" | "\<not> n \<le> 65535" by linarith
  then show ?thesis
  proof cases
    case 1
    then have "unat (of_nat n :: byte) = n" by (simp add: unat_of_nat)
    then show ?thesis using 1 by (simp add: payloadLen_def word_le_nat_alt)
  next
    case 2
    then have "unat (of_nat n :: u16) = n" by (simp add: unat_of_nat)
    then show ?thesis using 2 be16.take_put[of "of_nat n" key]
      by (simp add: payloadLen_def client_header_def codec_simps)
  next
    case 3
    have n: "unat (of_nat n :: u64) = n" using assms by (simp add: unat_of_nat)
    have "byte_shr n 56 < 128"
      using assms by (simp add: byte_shr_def word_less_nat_alt unat_of_nat)
    then have "byte_shr n 56 AND 0x80 = (byte_shr n 56 AND 0x7F) AND 0x80" by (simp add: low7)
    then have "put_uint64_be (of_nat n) ! 0 AND 0x80 = 0"
      using assms by (simp add: put_uint64_be_of_nat and.assoc)
    then have "(client_header fin opcode n @ key) ! 2 AND 0x80 = 0"
      using 3 by (simp add: client_header_def nth_append)
    then show ?thesis using 3 n be64.take_put[of "of_nat n" key]
      by (simp add: payloadLen_def client_header_def codec_simps)
  qed
qed

lemma parse_client_frame:
  assumes "opcode < 16" "length key = 4" "length p \<le> m" "length p < 2 ^ 63"
    and "isControlFrame opcode \<longrightarrow> fin \<and> length p \<le> 125"
  shows "parse_frame m (client_frame fin opcode key p @ rest) = ParsedFrame fin opcode p rest"
proof -
  define lc :: byte where
    "lc = (if length p \<le> 125 then of_nat (length p) else if length p \<le> 65535 then 126 else 127)"
  define hd where "hd = client_header fin opcode (length p)"
  define s where "s = client_frame fin opcode key p @ rest"
  have s: "s = (hd @ key) @ mask_spec key p @ rest" by (simp add: s_def client_frame_def hd_def)
  have h: "headerLen lc = length (hd @ key)"
    using length_client_header[of fin opcode "length p"] assms(2) by (simp add: lc_def hd_def)
  have small: "length p \<le> 125 \<Longrightarrow> (of_nat (length p) :: byte) < 128"
    by (simp add: word_less_nat_alt unat_of_nat)
  have b0: "s ! 0 = (if fin then 0x80 else 0) OR opcode"
    by (simp add: s hd_def client_header_def)
  have b1: "s ! Suc 0 = 0x80 OR lc"
    by (simp add: s hd_def client_header_def lc_def nth_append)
  have lc128: "lc < 128" using small by (auto simp: lc_def)
  have pl: "payloadLen lc (hd @ key) = Some (length p)"
    using payloadLen_client[OF assms(4)] by (simp add: lc_def hd_def)
  have len: "headerLen lc + length p \<le> length s" using h by (simp add: s)
  have dr: "take (headerLen lc) s = hd @ key" "drop (headerLen lc) s = mask_spec key p @ rest"
    "drop (headerLen lc - 4) s = key @ mask_spec key p @ rest" using h assms(2) by (simp_all add: s)
  have "drop (headerLen lc + length p) s = drop (length p) (drop (headerLen lc) s)"
    by (simp add: add.commute)
  then have rest: "drop (headerLen lc + length p) s = rest" using dr by simp
  show ?thesis
    unfolding s_def[symmetric]
    using len headerLen_bounds(1)[of lc] pl assms(3,5) mask_spec_involution[OF assms(2)]
    by (simp add: parse_frame_def Let_def b0 b1 opcode_byte[OF assms(1)] length_byte[OF lc128] dr rest
        assms(2)) auto
qed

section \<open>Client messages\<close>

text \<open>
  A message in one frame, a ping, or a message in fragments: the first fragment, then pings
  (\<open>True\<close>) and continuations (\<open>False\<close>) in any order, then the last fragment. Each frame has a
  masking key of its own.
\<close>

datatype client_item =
    Whole bytes bytes
  | Ping bytes bytes
  | Fragmented bytes bytes "(bool \<times> bytes \<times> bytes) list" bytes bytes

fun mid_frames :: "(bool \<times> bytes \<times> bytes) list \<Rightarrow> bytes" where
  "mid_frames [] = []"
| "mid_frames ((ping, k, p) # ms) =
     (if ping then client_frame True 0x9 k p else client_frame False 0x0 k p) @ mid_frames ms"

fun mid_payload :: "(bool \<times> bytes \<times> bytes) list \<Rightarrow> bytes" where
  "mid_payload [] = []"
| "mid_payload ((ping, k, p) # ms) = (if ping then [] else p) @ mid_payload ms"

fun mid_pongs :: "(bool \<times> bytes \<times> bytes) list \<Rightarrow> ws_action list" where
  "mid_pongs [] = []"
| "mid_pongs ((ping, k, p) # ms) = (if ping then [WsPong p] else []) @ mid_pongs ms"

fun item_bytes :: "client_item \<Rightarrow> bytes" where
  "item_bytes (Whole k p) = client_frame True 0x2 k p"
| "item_bytes (Ping k p) = client_frame True 0x9 k p"
| "item_bytes (Fragmented k p ms k' p') =
     client_frame False 0x2 k p @ mid_frames ms @ client_frame True 0x0 k' p'"

fun item_actions :: "client_item \<Rightarrow> ws_action list" where
  "item_actions (Whole k p) = [WsFrame p True]"
| "item_actions (Ping k p) = [WsPong p]"
| "item_actions (Fragmented k p ms k' p') = mid_pongs ms @ [WsFrame (p @ mid_payload ms @ p') False]"

text \<open>The frames respect the protocol and the server's limit \<open>m\<close>.\<close>

definition ping_ok :: "nat \<Rightarrow> bytes \<Rightarrow> bool" where
  "ping_ok m p \<longleftrightarrow> length p \<le> 125 \<and> length p \<le> m"

definition mids_ok :: "nat \<Rightarrow> (bool \<times> bytes \<times> bytes) list \<Rightarrow> bool" where
  "mids_ok m = list_all (\<lambda>(ping, k, p). length k = 4 \<and> (ping \<longrightarrow> ping_ok m p))"

fun item_ok :: "nat \<Rightarrow> client_item \<Rightarrow> bool" where
  "item_ok m (Whole k p) \<longleftrightarrow> length k = 4 \<and> length p \<le> m"
| "item_ok m (Ping k p) \<longleftrightarrow> length k = 4 \<and> ping_ok m p"
| "item_ok m (Fragmented k p ms k' p') \<longleftrightarrow>
     length k = 4 \<and> length k' = 4 \<and> mids_ok m ms \<and> length (p @ mid_payload ms @ p') \<le> m"

section \<open>The reference decodes them\<close>

lemma decode_client_frame:
  assumes "opcode < 16" "length key = 4" "length p \<le> m" "m < 2 ^ 63"
    and "isControlFrame opcode \<longrightarrow> fin \<and> length p \<le> 125"
    and "dispatch_frame m opc frag fin opcode p = (acts, Some (opc', frag'))"
  shows "decode_stream m opc frag (client_frame fin opcode key p @ rest) =
           acts @ decode_stream m opc' frag' rest"
  by (subst decode_stream.simps)
     (use assms parse_client_frame[of opcode key p m fin rest] in simp)

lemmas opcode_simps = isControlFrame_def dispatch_frame_def ping_ok_def

lemma decode_mids:
  assumes "mids_ok m ms" "length (frag @ mid_payload ms) \<le> m" "m < 2 ^ 63"
  shows "decode_stream m 0x2 frag (mid_frames ms @ rest) =
           mid_pongs ms @ decode_stream m 0x2 (frag @ mid_payload ms) rest"
  using assms(1,2)
proof (induction ms arbitrary: frag)
  case Nil
  then show ?case by simp
next
  case (Cons x ms)
  obtain ping k p where x: "x = (ping, k, p)" by (cases x)
  have ok: "length k = 4" "mids_ok m ms" "ping \<Longrightarrow> ping_ok m p"
    using Cons.prems(1) by (auto simp: x mids_ok_def)
  show ?case
  proof (cases ping)
    case True
    then show ?thesis
      using Cons.IH[OF ok(2), of frag] Cons.prems(2) ok assms(3)
      by (simp add: x decode_client_frame[where acts = "[WsPong p]" and opc' = 2 and frag' = frag] opcode_simps)
  next
    case False
    then have "(length frag + length p) mod 2 ^ 64 \<le> m"
      using Cons.prems(2) assms(3) by (simp add: x)
    then show ?thesis
      using False Cons.IH[OF ok(2), of "frag @ p"] Cons.prems(2) ok assms(3)
      by (simp add: x decode_client_frame[where acts = "[]" and opc' = 2 and frag' = "frag @ p"] opcode_simps)
  qed
qed

lemma decode_item:
  assumes "item_ok m i" "m < 2 ^ 63"
  shows "decode_stream m 0 [] (item_bytes i @ rest) = item_actions i @ decode_stream m 0 [] rest"
proof (cases i)
  case (Whole k p)
  then show ?thesis using assms
    by (simp add: decode_client_frame[where acts = "[WsFrame p True]" and opc' = 0 and frag' = "[]"] opcode_simps)
next
  case (Ping k p)
  then show ?thesis using assms
    by (simp add: decode_client_frame[where acts = "[WsPong p]" and opc' = 0 and frag' = "[]"] opcode_simps)
next
  case (Fragmented k p ms k' p')
  have len: "(length (p @ mid_payload ms) + length p') mod 2 ^ 64 \<le> m"
    using assms Fragmented by simp
  have "decode_stream m 0 [] (item_bytes i @ rest) =
      decode_stream m 2 p (mid_frames ms @ client_frame True 0x0 k' p' @ rest)"
    using assms
    by (simp add: Fragmented decode_client_frame[where acts = "[]" and opc' = 2 and frag' = p] opcode_simps)
  also have "\<dots> = mid_pongs ms @
      decode_stream m 2 (p @ mid_payload ms) (client_frame True 0x0 k' p' @ rest)"
    using assms by (intro decode_mids) (simp_all add: Fragmented)
  also have "decode_stream m 2 (p @ mid_payload ms) (client_frame True 0x0 k' p' @ rest) =
      [WsFrame (p @ mid_payload ms @ p') False] @ decode_stream m 0 [] rest"
    using assms len
    by (intro decode_client_frame) (simp_all add: Fragmented opcode_simps)
  finally show ?thesis by (simp add: Fragmented)
qed

lemma decode_items:
  assumes "list_all (item_ok m) items" "m < 2 ^ 63"
  shows "decode_stream m 0 [] (concat (map item_bytes items)) = concat (map item_actions items)"
  using assms(1)
proof (induction items)
  case Nil
  then show ?case by (subst decode_stream.simps) (simp add: parse_frame_def)
next
  case (Cons i items)
  then show ?case using decode_item[OF _ assms(2)] by simp
qed

section \<open>Limits on what the loop hands on\<close>

lemma parse_frame_limits:
  assumes "parse_frame m s = ParsedFrame fin opc p rest"
  shows "length p \<le> m" "isControlFrame opc \<Longrightarrow> length p \<le> 125"
  using assms by (auto simp: parse_frame_def Let_def split: if_splits option.splits)

definition action_ok :: "nat \<Rightarrow> ws_action \<Rightarrow> bool" where
  "action_ok m a = (case a of WsFrame p _ \<Rightarrow> length p \<le> m | WsPong p \<Rightarrow> length p \<le> 125 | WsClose _ \<Rightarrow> True)"

definition is_WsClose :: "ws_action \<Rightarrow> bool" where
  "is_WsClose a = (case a of WsClose _ \<Rightarrow> True | _ \<Rightarrow> False)"

lemma dispatch_frame_limits:
  assumes "dispatch_frame m opc frag fin opcode p = (acts, nxt)"
    and "length frag \<le> m" "length p \<le> m" "isControlFrame opcode \<longrightarrow> length p \<le> 125" "m < 2 ^ 63"
  shows "list_all (action_ok m) acts" "\<And>opc' frag'. nxt = Some (opc', frag') \<Longrightarrow> length frag' \<le> m"
    "nxt \<noteq> None \<Longrightarrow> \<not> list_ex is_WsClose acts" "nxt = None \<Longrightarrow> \<exists>c. acts = [WsClose c]"
  using assms
  by (auto simp: dispatch_frame_def isControlFrame_def action_ok_def is_WsClose_def split: if_splits)

lemma decode_stream_limits:
  assumes "length frag \<le> m" "m < 2 ^ 63"
  shows "list_all (action_ok m) (decode_stream m opc frag s) \<and>
         \<not> list_ex is_WsClose (butlast (decode_stream m opc frag s))"
  using assms
proof (induction "length s" arbitrary: opc frag s rule: less_induct)
  case less
  show ?case
  proof (cases "parse_frame m s")
    case (ParsedFrame fin opcode p rest)
    obtain acts nxt where D: "dispatch_frame m opc frag fin opcode p = (acts, nxt)" by fastforce
    note lim = dispatch_frame_limits[OF D less.prems(1) parse_frame_limits(1)[OF ParsedFrame]
        impI[OF parse_frame_limits(2)[OF ParsedFrame]] less.prems(2)]
    show ?thesis
    proof (cases nxt)
      case None
      then obtain c where "acts = [WsClose c]" using lim(4) by blast
      then show ?thesis using ParsedFrame D None
        by (subst (1 2) decode_stream.simps) (simp add: action_ok_def)
    next
      case (Some q)
      obtain opc' frag' where q: "q = (opc', frag')" by fastforce
      have "length frag' \<le> m" using lim(2) Some q by simp
      from less.hyps[OF parse_frame_shorter[OF ParsedFrame] this less.prems(2), of opc']
      have "list_all (action_ok m) (decode_stream m opc' frag' rest)"
        "\<not> list_ex is_WsClose (butlast (decode_stream m opc' frag' rest))" by auto
      then show ?thesis using ParsedFrame D Some q lim(1,3)
        by (subst (1 2) decode_stream.simps) (auto simp: butlast_append list_ex_iff dest: in_set_butlastD)
    qed
  qed (subst (1 2) decode_stream.simps, simp add: action_ok_def)+
qed

section \<open>Properties\<close>

text \<open>
  C1: The read loop always returns, and what it does depends on the peer's byte stream only: it
  makes the same calls however the network cuts the stream into reads, and whether or not the
  final error comes together with data.
\<close>

theorem readLoop_independent_of_chunking:
  "\<exists>acts. readLoop m \<lparr>chunks = cs, err_with_data = b\<rparr> = Some acts \<and>
          readLoop m \<lparr>chunks = [concat cs], err_with_data = b'\<rparr> = Some acts"
  by (simp add: readLoop_decode_stream)

text \<open>
  C2: A stream of well-formed client messages within the size limit (single frames, pings, and
  fragmented messages with pings between their fragments, each frame under a key of its own) is
  delivered exactly: one frame per message, unmasked and reassembled, and one pong per ping, in
  order.
\<close>

theorem readLoop_delivers_client_messages:
  assumes "list_all (item_ok m) items" and "m < 2 ^ 63"
    and "concat (chunks c) = concat (map item_bytes items)"
  shows "readLoop m c = Some (concat (map item_actions items))"
  using decode_items[OF assms(1,2)] assms(3) by (simp add: readLoop_decode_stream)

theorem readLoop_delivers_client_messages_witness:
  "readLoop 256 \<lparr>chunks = [[0x02, 0x82, 1], [2, 3, 4, 0x60, 0x60, 0x80, 0x82, 9, 9, 9, 9], [], [0x40, 0x40]],
                err_with_data = True\<rparr>
   = Some [WsFrame [0x61, 0x62, 0x49, 0x49] False]"
proof -
  have "readLoop 256 \<lparr>chunks = [[0x02, 0x82, 1], [2, 3, 4, 0x60, 0x60, 0x80, 0x82, 9, 9, 9, 9], [], [0x40, 0x40]],
                err_with_data = True\<rparr>
      = Some (concat (map item_actions [Fragmented [1, 2, 3, 4] [0x61, 0x62] [] [9, 9, 9, 9] [0x49, 0x49]]))"
    by (rule readLoop_delivers_client_messages)
       (simp_all add: mids_ok_def client_frame_def client_header_def)
  then show ?thesis by simp
qed

text \<open>
  Every message the loop hands to the Wisp layer is at most as long as the payload limit, also
  when it was reassembled from fragments; a pong carries at most 125 bytes; and nothing follows
  a close.
\<close>

theorem readLoop_respects_limits:
  assumes "m < 2 ^ 63" and "readLoop m c = Some acts"
  shows "(\<forall>p pooled. WsFrame p pooled \<in> set acts \<longrightarrow> length p \<le> m) \<and>
         (\<forall>p. WsPong p \<in> set acts \<longrightarrow> length p \<le> 125) \<and>
         (\<forall>code. WsClose code \<notin> set (butlast acts))"
proof -
  have acts: "acts = decode_stream m 0 [] (concat (chunks c))"
    using assms(2) by (simp add: readLoop_decode_stream)
  from decode_stream_limits[OF _ assms(1), of "[]" 0 "concat (chunks c)"]
  show ?thesis
    by (fastforce simp: acts list_all_iff list_ex_iff action_ok_def is_WsClose_def)
qed

theorem readLoop_respects_limits_witness:
  "WsClose 1009 \<notin> set (butlast [WsPong [], WsClose 1009]) \<and>
   readLoop 1 \<lparr>chunks = [[0x89, 0x80, 0, 0, 0, 0, 0x82, 0x82, 0, 0, 0, 0, 7, 7]], err_with_data = False\<rparr> =
     Some [WsPong [], WsClose 1009]"
proof -
  have m: "maskXOR [] k = []" for k by (simp add: maskXOR_def mask_blocks.simps mask_words.simps mask_tail_def)
  have r: "readLoop 1 \<lparr>chunks = [[0x89, 0x80, 0, 0, 0, 0, 0x82, 0x82, 0, 0, 0, 0, 7, 7]], err_with_data = False\<rparr> =
      Some [WsPong [], WsClose 1009]"
    by (simp add: readLoop_decode_stream decode_stream.simps parse_frame_def headerLen_def payloadLen_def
        hdr_rsv_def hdr_masked_def hdr_lengthCode_def hdr_opcode_def hdr_fin_def isControlFrame_def Let_def
        dispatch_frame_def m)
  show ?thesis using r readLoop_respects_limits[OF _ r] by simp
qed

text \<open>
  C25: The unrolled 64-bit unmasking computes the RFC 6455 mask, byte \<open>i\<close> with byte \<open>i mod 4\<close> of
  the key, and masking twice gives the data back.
\<close>

theorem maskXOR_correct:
  assumes "length key = 4"
  shows "maskXOR b key = map (\<lambda>i. b ! i XOR key ! (i mod 4)) [0..<length b] \<and>
         maskXOR (maskXOR b key) key = b"
proof -
  have "mask_spec key b = map (\<lambda>i. b ! i XOR key ! (i mod 4)) [0..<length b]"
    using mask_tail_spec[OF assms, of b] by (simp add: mask_tail_def)
  moreover have "mask_spec key (mask_spec key b) = b" by (rule mask_spec_involution[OF assms])
  ultimately show ?thesis unfolding maskXOR_mask_spec[OF assms] by (rule conjI)
qed

theorem maskXOR_correct_witness:
  "maskXOR (maskXOR [5, 6, 7, 8, 9, 10, 11, 12, 13] [1, 2, 3, 4]) [1, 2, 3, 4] = [5, 6, 7, 8, 9, 10, 11, 12, 13]"
proof -
  have "length ([1, 2, 3, 4] :: bytes) = 4" by simp
  from maskXOR_correct[OF this] show ?thesis by blast
qed

end
