(* ===== verification/Connection.thy ===== *)
theory Connection
  imports Streams Wisp_V2 Ws_Client
begin

text \<open>
  The packet handlers of a connection (\<^verbatim>\<open>wisp/wisp-connection.go\<close>, \<^verbatim>\<open>handleInfo\<close> of
  \<^verbatim>\<open>wisp/v2.go\<close>, \<^verbatim>\<open>handleWispFrame\<close> of \<^verbatim>\<open>wisp/wsreader.go\<close>) as functions on
  the connection's state. They all run on the goroutine of the read loop; what they start is
  appended to \<open>spawned\<close>.
\<close>

section \<open>CONNECT\<close>

definition twispAuthorized :: "wispConnection \<Rightarrow> bool" where
  [simp]: "twispAuthorized c \<longleftrightarrow> isV2 c \<and> authenticated c"

definition handleTwispConnect :: "gotime \<Rightarrow> u32 \<Rightarrow> string \<Rightarrow> wispConnection \<Rightarrow> wispConnection" where
  "handleTwispConnect now streamId command c =
     (if \<not> EnableTwisp (config c) then sendClosePacket streamId closeReasonBlocked c
      else if \<not> isV2 c then
        sendClosePacket streamId closeReasonBlocked (repAddSource now ''twispNoAuth'' c)
      else if \<not> PasswordAuth (config c) then
        sendClosePacket streamId closeReasonBlocked (repAddSource now ''twispNoAuth'' c)
      else if \<not> twispAuthorized c then
        sendClosePacket streamId closeReasonBlocked (repAddSource now ''twispNoAuth'' c)
      else spawn (GoTwisp streamId command) c)"

definition new_stream :: "(nat \<Rightarrow> nat) \<Rightarrow> u32 \<Rightarrow> u16 \<Rightarrow> string \<Rightarrow> wispStream" where
  "new_stream ulow streamId port hostname =
     \<lparr>st_streamId = streamId, st_streamType = 0, st_conn = NoConn, bufferRemaining = 0,
      st_hostname = to_lower ulow (trim_space hostname), st_portNum = int (unat port),
      connReadyDone = False, isOpen = True, pendingData = [], st_pendingBytes = 0,
      ingressActive = False, pendingIngress = [], pendingIngBytes = 0, ingressWriting = False,
      st_written = []\<rparr>"

text \<open>The admission of a CONNECT before its stream exists: the connection-wide caps.\<close>

definition too_many_streams :: "wispConnection \<Rightarrow> bool" where
  "too_many_streams c =
     (case FloodProtection (config c) of
        None \<Rightarrow> False
      | Some fp \<Rightarrow> 0 < MaxConcurrentStreamsPerConnection fp \<and>
                   wrap32 (MaxConcurrentStreamsPerConnection fp) \<le> streamCount c)"

definition source_allowed :: "gotime \<Rightarrow> wispConnection \<Rightarrow> bool \<times> wispConnection" where
  "source_allowed now c =
     (case globals c of
        None \<Rightarrow> (True, c)
      | Some g \<Rightarrow>
          (case SlidingWindow_Allow now (remoteIP c) (g_PerSource g) of
             (ok, w) \<Rightarrow> (ok, c\<lparr>globals := Some (g\<lparr>g_PerSource := w\<rparr>)\<rparr>)))"

text \<open>\<^verbatim>\<open>c.streams.LoadOrStore\<close> of a new stream object and the start of its goroutine.\<close>

definition open_stream :: "(nat \<Rightarrow> nat) \<Rightarrow> u32 \<Rightarrow> byte \<Rightarrow> u16 \<Rightarrow> string \<Rightarrow> wispConnection \<Rightarrow> wispConnection" where
  "open_stream ulow streamId streamType port hostname c =
     (let r = next_ref c in
      if streams c streamId \<noteq> None then sendClosePacket streamId closeReasonInvalidInfo c
      else spawn (GoConnect r streamType (dec_digits (unat port)) hostname)
             (c\<lparr>heap := (heap c)(r \<mapsto> new_stream ulow streamId port hostname), next_ref := Suc r,
                streams := (streams c)(streamId \<mapsto> r), streamCount := wrap32 (streamCount c + 1)\<rparr>))"

text \<open>\<open>clk\<close> gives the clock at the per-source window and at the reputation event.\<close>

definition handleConnectPacket ::
  "(nat \<Rightarrow> nat) \<Rightarrow> (nat \<Rightarrow> gotime) \<Rightarrow> u32 \<Rightarrow> bytes \<Rightarrow> wispConnection \<Rightarrow> wispConnection" where
  "handleConnectPacket ulow clk streamId payload c =
     (if length payload < 3 then sendClosePacket streamId closeReasonInvalidInfo c
      else
        (let streamType = payload ! 0; port = uint16_le (take 2 (drop 1 payload));
             hostname = string_of_bytes (drop 3 payload)
         in if streamId = 0 \<or> (port = 0 \<and> streamType \<noteq> streamTypeTerm) \<or> hostname = [] \<or>
               \<not> valid_string hostname
            then sendClosePacket streamId closeReasonInvalidInfo c
            else if too_many_streams c then sendClosePacket streamId closeReasonThrottled (violation c)
            else (case source_allowed (clk 0) c of
                    (False, c1) \<Rightarrow>
                      sendClosePacket streamId closeReasonThrottled
                        (repAddSource (clk 1) ''burstRate'' (violation c1))
                  | (True, c1) \<Rightarrow>
                      if streamType = streamTypeTerm then handleTwispConnect (clk 1) streamId hostname c1
                      else open_stream ulow streamId streamType port hostname c1)))"

section \<open>CLOSE\<close>

definition handleClosePacket :: "u32 \<Rightarrow> bytes \<Rightarrow> wispConnection \<Rightarrow> wispConnection" where
  "handleClosePacket streamId payload c =
     (if length payload < 1 then c
      else if streamId = 0 then conn_close c
      else (case streams c streamId of
              Some r \<Rightarrow> spawn (GoStreamClose r closeReasonVoluntary) c
            | None \<Rightarrow> (case twisp_get streamId (twispStreams c) of
                        None \<Rightarrow> c
                      | Some t \<Rightarrow> spawn (GoTwispClose t closeReasonVoluntary) c)))"

section \<open>Terminal streams\<close>

definition upd_twisp :: "nat \<Rightarrow> (twispStream \<Rightarrow> twispStream) \<Rightarrow> wispConnection \<Rightarrow> wispConnection" where
  "upd_twisp t f c = (case twisp_heap c t of None \<Rightarrow> c | Some s \<Rightarrow> c\<lparr>twisp_heap := (twisp_heap c)(t \<mapsto> f s)\<rparr>)"

definition twisp_close :: "nat \<Rightarrow> byte \<Rightarrow> wispConnection \<Rightarrow> wispConnection" where
  "twisp_close t reason c =
     (case twisp_heap c t of
        None \<Rightarrow> c
      | Some s \<Rightarrow>
          if \<not> tw_isOpen s then c
          else sendClosePacket (tw_streamId s) reason
                 ((upd_twisp t (\<lambda>s. s\<lparr>tw_isOpen := False\<rparr>) c)
                    \<lparr>twispStreams := twisp_remove (tw_streamId s) (twispStreams c)\<rparr>))"

text \<open>The resize request, packet type \<^verbatim>\<open>twispExtensionID\<close>.\<close>

definition handleResize :: "u32 \<Rightarrow> bytes \<Rightarrow> wispConnection \<Rightarrow> wispConnection" where
  "handleResize streamId payload c =
     (if EnableTwisp (config c) \<and> 4 \<le> length payload then
        (case twisp_get streamId (twispStreams c) of
           None \<Rightarrow> c
         | Some t \<Rightarrow> upd_twisp t (\<lambda>s. s\<lparr>tw_size := (uint16_le (take 2 payload), uint16_le (take 2 (drop 2 payload)))\<rparr>) c)
      else c)"

section \<open>INFO\<close>

text \<open>\<open>d\<close> is the channel that \<^verbatim>\<open>sendClosePacketAndWait\<close> waits on.\<close>

definition handleInfo ::
  "(string \<Rightarrow> string \<Rightarrow> bool) \<Rightarrow> nat \<Rightarrow> u32 \<Rightarrow> bytes \<Rightarrow> wispConnection \<Rightarrow> wispConnection" where
  "handleInfo bcrypt_ok d streamId payload c =
     (if streamId \<noteq> 0 then c
      else if \<not> handshakePending c then c
      else (case info_verdict bcrypt_ok (config c) payload of
              InfoReject reason \<Rightarrow> conn_close (sendClosePacketAndWait d 0 reason c)
            | InfoAccept ok confirm \<Rightarrow>
                (sendPacket 0 (BufferRemainingLength (config c)) (c\<lparr>authenticated := ok, streamConfirm := confirm\<rparr>))
                  \<lparr>handshakePending := False\<rparr>))"

section \<open>DATA\<close>

text \<open>
  Up to the check of \<^verbatim>\<open>isOpen\<close>: the lookup through the cache. \<open>pty_ok\<close> is the
  outcome of a write to a terminal. \<open>DataReturn keep\<close> has returned; \<open>DataGo r\<close> goes on with the
  stream \<open>r\<close>; \<open>DataPanic\<close> is the panic of a call on a nil connection.
\<close>

datatype data_outcome = DataReturn bool | DataGo nat | DataPanic

definition cached_stream :: "u32 \<Rightarrow> wispConnection \<Rightarrow> nat option" where
  "cached_stream streamId c =
     (case streamCache c (cache_slot streamId) of
        None \<Rightarrow> None
      | Some r \<Rightarrow> (case heap c r of
                    None \<Rightarrow> None
                  | Some s \<Rightarrow> if st_streamId s = streamId then Some r else None))"

definition data_unknown :: "bool \<Rightarrow> u32 \<Rightarrow> bytes \<Rightarrow> wispConnection \<Rightarrow> wispConnection" where
  "data_unknown pty_ok streamId payload c =
     (case Option.bind (twisp_get streamId (twispStreams c)) (\<lambda>t. map_option (\<lambda>s. (t, s)) (twisp_heap c t)) of
        Some (t, s) \<Rightarrow>
          if tw_isOpen s then
            (if pty_ok then upd_twisp t (\<lambda>s. s\<lparr>tw_written := tw_written s @ [payload]\<rparr>) c
             else twisp_close t closeReasonNetworkError c)
          else sendClosePacket streamId closeReasonInvalidInfo c
      | None \<Rightarrow> sendClosePacket streamId closeReasonInvalidInfo c)"

definition cache_store :: "u32 \<Rightarrow> nat \<Rightarrow> wispConnection \<Rightarrow> wispConnection" where
  "cache_store streamId r c = c\<lparr>streamCache := (streamCache c)(cache_slot streamId \<mapsto> r)\<rparr>"

definition data_check_open :: "nat \<Rightarrow> wispConnection \<Rightarrow> data_outcome" where
  "data_check_open r c =
     (case heap c r of None \<Rightarrow> DataReturn False | Some s \<Rightarrow> if isOpen s then DataGo r else DataReturn False)"

definition handleData_lookup ::
  "bool \<Rightarrow> u32 \<Rightarrow> bytes \<Rightarrow> wispConnection \<Rightarrow> data_outcome \<times> wispConnection" where
  "handleData_lookup pty_ok streamId payload c0 =
     (let c = c0\<lparr>ingressBytes := ingressBytes c0 + of_nat (length payload)\<rparr> in
      case cached_stream streamId c of
        Some r \<Rightarrow> (data_check_open r c, c)
      | None \<Rightarrow>
          (case streams c streamId of
             None \<Rightarrow> (DataReturn False, data_unknown pty_ok streamId payload c)
           | Some r \<Rightarrow> (let c1 = cache_store streamId r c in (data_check_open r c1, c1))))"

text \<open>The wait for bandwidth, with its two readings of the clock.\<close>

definition handleData_wait ::
  "gotime \<Rightarrow> gotime \<Rightarrow> bool \<Rightarrow> bytes \<Rightarrow> wispConnection \<Rightarrow> bool \<times> wispConnection" where
  "handleData_wait now now' stopped payload c =
     (case globals c of
        None \<Rightarrow> (True, c)
      | Some g \<Rightarrow>
          (case BandwidthLimiter_Wait now now' stopped (remoteIP c) (int (length payload)) (g_Bandwidth g) of
             (ok, l) \<Rightarrow> (ok, c\<lparr>globals := Some (g\<lparr>g_Bandwidth := l\<rparr>)\<rparr>)))"

text \<open>One unit of the client's credit is used up; at zero it is renewed and announced.\<close>

definition use_credit :: "u32 \<Rightarrow> nat \<Rightarrow> wispConnection \<Rightarrow> wispConnection" where
  "use_credit streamId r c =
     (case heap c r of
        None \<Rightarrow> c
      | Some s \<Rightarrow>
          (let n = bufferRemaining s - 1 in
           if n = 0 then
             sendPacket streamId (BufferRemainingLength (config c))
               (upd_stream r (\<lambda>s. s\<lparr>bufferRemaining := BufferRemainingLength (config c)\<rparr>) c)
           else upd_stream r (\<lambda>s. s\<lparr>bufferRemaining := n\<rparr>) c))"

text \<open>What follows the wait; \<open>ok\<close> is the outcome of a direct write to the target.\<close>

definition handleData_finish ::
  "bool \<Rightarrow> u32 \<Rightarrow> bytes \<Rightarrow> nat \<Rightarrow> wispConnection \<Rightarrow> data_outcome \<times> wispConnection" where
  "handleData_finish ok streamId payload r c =
     (case heap c r of
        None \<Rightarrow> (DataReturn False, c)
      | Some s \<Rightarrow>
          if \<not> connReadyDone s then
            (if 16 * 1024 * 1024 < st_pendingBytes s + int (length payload)
             then (DataReturn False, stream_close r closeReasonThrottled c)
             else (DataReturn False, upd_stream r (\<lambda>s. s\<lparr>pendingData := pendingData s @ [payload],
                      st_pendingBytes := st_pendingBytes s + int (length payload)\<rparr>) c))
          else if st_streamType s = streamTypeTCP \<and> ingressActive s then
            (case queueIngressOwned r payload c of
               (False, c1) \<Rightarrow> (DataReturn True, c1)
             | (True, c1) \<Rightarrow> (DataReturn True, use_credit streamId r c1))
          else if st_conn s = NoConn \<and> payload \<noteq> [] then (DataPanic, c)
          else if payload \<noteq> [] \<and> \<not> ok then (DataReturn False, stream_close r closeReasonNetworkError c)
          else (let c1 = (if payload = [] then c else upd_stream r (target_written payload) c)
                in (DataReturn False, if st_streamType s = streamTypeTCP then use_credit streamId r c1 else c1)))"

text \<open>What the world answers to a packet: clocks, and the outcomes of its blocking calls.\<close>

record packet_env =
  pe_ulower :: "nat \<Rightarrow> nat"
  pe_bcrypt :: "string \<Rightarrow> string \<Rightarrow> bool"
  pe_clock :: "nat \<Rightarrow> gotime"
  pe_stopped :: bool
  pe_write_ok :: bool
  pe_done :: nat

definition handleDataPacket ::
  "packet_env \<Rightarrow> u32 \<Rightarrow> bytes \<Rightarrow> wispConnection \<Rightarrow> data_outcome \<times> wispConnection" where
  "handleDataPacket env streamId payload c =
     (case handleData_lookup (pe_write_ok env) streamId payload c of
        (DataGo r, c1) \<Rightarrow>
          (case handleData_wait (pe_clock env 2) (pe_clock env 3) (pe_stopped env) payload c1 of
             (False, c2) \<Rightarrow> (DataReturn False, c2)
           | (True, c2) \<Rightarrow> handleData_finish (pe_write_ok env) streamId payload r c2)
      | (res, c1) \<Rightarrow> (res, c1))"

section \<open>Dispatch\<close>

definition handlePacket :: "packet_env \<Rightarrow> byte \<Rightarrow> u32 \<Rightarrow> bytes \<Rightarrow> wispConnection \<Rightarrow> wispConnection" where
  "handlePacket env packetType streamId payload c =
     (if packetType = packetTypeInfo then
        (if isV2 c then handleInfo (pe_bcrypt env) (pe_done env) streamId payload c else c)
      else if packetType = packetTypeConnect then
        handleConnectPacket (pe_ulower env) (pe_clock env) streamId payload c
      else if packetType = packetTypeClose then handleClosePacket streamId payload c
      else if packetType = twispExtensionID then handleResize streamId payload c
      else c)"

text \<open>The outcome is whether the payload buffer was kept, or a panic.\<close>

definition handleWispFrame :: "packet_env \<Rightarrow> bytes \<Rightarrow> wispConnection \<Rightarrow> data_outcome \<times> wispConnection" where
  "handleWispFrame env packet c =
     (if length packet < 5 then (DataReturn False, c)
      else
        (let packetType = packet ! 0; streamId = uint32_le (take 4 (drop 1 packet)); payload = drop 5 packet in
         if isV2 c \<and> handshakePending c then
           (if packetType = packetTypeInfo then (DataReturn False, handlePacket env packetType streamId payload c)
            else if packetType = packetTypeClose \<and> streamId = 0
            then (DataReturn False, handlePacket env packetType streamId payload c)
            else (DataReturn False, c))
         else if packetType = packetTypeData then handleDataPacket env streamId payload c
         else (DataReturn False, handlePacket env packetType streamId payload c)))"

text \<open>The bound on a message of the read loop, \<^verbatim>\<open>maxPayloadSize\<close>.\<close>

definition maxPayloadSize :: "Config \<Rightarrow> nat" where
  "maxPayloadSize cfg = (if 0 < MaxMessageSize cfg then nat (MaxMessageSize cfg) else 256 * 1024)"

section \<open>The end of a connection\<close>

text \<open>
  \<^verbatim>\<open>deleteAllWispStreams\<close>: \<open>refs\<close> and \<open>trefs\<close> are the orders in which the two maps
  are visited.
\<close>

definition deleteAllWispStreams :: "nat list \<Rightarrow> nat list \<Rightarrow> wispConnection \<Rightarrow> wispConnection" where
  "deleteAllWispStreams refs trefs c0 =
     (let c1 = conn_close c0;
          c2 = fold (\<lambda>r. stream_close r closeReasonUnspecified) refs c1;
          c3 = fold (\<lambda>t. twisp_close t closeReasonUnspecified) trefs c2
      in upd_globals (\<lambda>g. g\<lparr>g_active := removeAll (connID c3) (g_active g),
                            g_totalIngressBytes := g_totalIngressBytes g + ingressBytes c3,
                            g_totalEgressBytes := g_totalEgressBytes g + egressBytes c3,
                            g_Connections := Semaphore_Release (g_Connections g),
                            g_Signature := Forget (connID c3) (g_Signature g)\<rparr>) c3)"

end
