(* ===== verification/Stream_Life.thy ===== *)
theory Stream_Life
  imports Streams
begin

text \<open>
  The life of one stream object, as the contract that all operations on a connection keep: the
  moves that an operation may make on it, and what follows for its flags and buffers. \<open>cap\<close> is
  the bound of its queue towards the target.
\<close>

section \<open>Moves\<close>

definition maxPendingData :: int where "maxPendingData = 16 * 1024 * 1024"

inductive stream_move :: "int \<Rightarrow> wispStream \<Rightarrow> wispStream \<Rightarrow> bool" for cap where
  mv_hostname: "stream_move cap s (s\<lparr>st_hostname := h\<rparr>)"
| mv_type: "stream_move cap s (s\<lparr>st_streamType := t, bufferRemaining := n\<rparr>)"
| mv_credit: "stream_move cap s (s\<lparr>bufferRemaining := n\<rparr>)"
| mv_conn: "stream_move cap s (s\<lparr>st_conn := k\<rparr>)"
| mv_pending: "\<not> connReadyDone s \<Longrightarrow> st_pendingBytes s + int (length p) \<le> maxPendingData \<Longrightarrow>
     stream_move cap s (s\<lparr>pendingData := pendingData s @ [p], st_pendingBytes := st_pendingBytes s + int (length p)\<rparr>)"
| mv_take: "stream_move cap s (s\<lparr>pendingData := [], st_pendingBytes := 0\<rparr>)"
| mv_ready: "stream_move cap s (s\<lparr>connReadyDone := True\<rparr>)"
| mv_activate: "stream_move cap s (s\<lparr>ingressActive := True\<rparr>)"
| mv_ingress: "ingressActive s \<Longrightarrow> isOpen s \<Longrightarrow> pendingIngBytes s + int (length p) \<le> cap \<Longrightarrow>
     stream_move cap s (s\<lparr>pendingIngress := pendingIngress s @ [p], pendingIngBytes := pendingIngBytes s + int (length p)\<rparr>)"
| mv_batch: "stream_move cap s
     (s\<lparr>pendingIngBytes := pendingIngBytes s - job_bytes (pendingIngress s), pendingIngress := []\<rparr>)"
| mv_writing: "stream_move cap s (s\<lparr>ingressWriting := b\<rparr>)"
| mv_written: "stream_move cap s (s\<lparr>st_written := st_written s @ ps\<rparr>)"

text \<open>What \<open>stream_close\<close> makes of an open stream.\<close>

definition closed_stream :: "wispStream \<Rightarrow> wispStream" where
  "closed_stream s =
     (let s1 = s\<lparr>isOpen := False, connReadyDone := True, st_conn := (if st_conn s = NoConn then NoConn else ConnClosed)\<rparr>
      in if ingressActive s1 then s1\<lparr>ingressActive := False, pendingIngress := [], pendingIngBytes := 0\<rparr> else s1)"

definition stream_step :: "int \<Rightarrow> wispStream \<Rightarrow> wispStream \<Rightarrow> bool" where
  "stream_step cap s s' \<longleftrightarrow> stream_move cap s s' \<or> (isOpen s \<and> s' = closed_stream s)"

lemma closed_stream_simps [simp]:
  "\<not> isOpen (closed_stream s)" "st_streamId (closed_stream s) = st_streamId s" "connReadyDone (closed_stream s)"
  "st_pendingBytes (closed_stream s) = st_pendingBytes s" "pendingData (closed_stream s) = pendingData s"
  by (simp_all add: closed_stream_def Let_def)

lemmas stream_moves = stream_move.intros[THEN r_into_rtranclp[where r = "stream_move cap" for cap]]

lemma stream_move_written: "stream_move cap s (target_written p s)"
  unfolding target_written_def by (rule mv_written)

lemma stream_move_keeps:
  "stream_move cap s s' \<Longrightarrow> isOpen s' = isOpen s \<and> st_streamId s' = st_streamId s"
  by (induction rule: stream_move.induct) simp_all

lemma stream_moves_keep:
  "(stream_move cap)\<^sup>*\<^sup>* s s' \<Longrightarrow> isOpen s' = isOpen s \<and> st_streamId s' = st_streamId s"
  by (induction rule: rtranclp_induct) (auto dest: stream_move_keeps)

section \<open>What a stream keeps\<close>

lemma job_bytes_simps [simp]:
  "job_bytes [] = 0" "job_bytes (js @ ks) = job_bytes js + job_bytes ks" "job_bytes [p] = int (length p)"
  by (simp_all add: job_bytes_def)

text \<open>The two buffers are counted exactly and bounded.\<close>

definition buffers_ok :: "int \<Rightarrow> wispStream \<Rightarrow> bool" where
  "buffers_ok cap s \<longleftrightarrow>
     st_pendingBytes s = job_bytes (pendingData s) \<and> st_pendingBytes s \<le> maxPendingData \<and>
     pendingIngBytes s = job_bytes (pendingIngress s) \<and> pendingIngBytes s \<le> cap"

lemma stream_move_buffers: "stream_move cap s s' \<Longrightarrow> 0 \<le> cap \<Longrightarrow> buffers_ok cap s \<Longrightarrow> buffers_ok cap s'"
  by (induction rule: stream_move.induct) (auto simp: buffers_ok_def maxPendingData_def)

lemma closed_buffers: "0 \<le> cap \<Longrightarrow> buffers_ok cap s \<Longrightarrow> buffers_ok cap (closed_stream s)"
  by (simp add: buffers_ok_def closed_stream_def Let_def)

lemma stream_steps_buffers:
  "(stream_step cap)\<^sup>*\<^sup>* s s' \<Longrightarrow> 0 \<le> cap \<Longrightarrow> buffers_ok cap s \<Longrightarrow> buffers_ok cap s'"
  by (induction rule: rtranclp_induct) (auto simp: stream_step_def stream_move_buffers closed_buffers)

text \<open>The flags only go one way: a closed stream stays closed, a ready one ready.\<close>

definition flags_le :: "wispStream \<Rightarrow> wispStream \<Rightarrow> bool" where
  "flags_le s s' \<longleftrightarrow> (isOpen s' \<longrightarrow> isOpen s) \<and> (connReadyDone s \<longrightarrow> connReadyDone s') \<and>
     st_streamId s' = st_streamId s \<and> (\<exists>ws. st_written s' = st_written s @ ws)"

lemma stream_move_flags: "stream_move cap s s' \<Longrightarrow> flags_le s s'"
  by (induction rule: stream_move.induct) (auto simp: flags_le_def)

lemma closed_flags: "flags_le s (closed_stream s)"
  by (simp add: flags_le_def closed_stream_def Let_def)

lemma stream_steps_flags: "(stream_step cap)\<^sup>*\<^sup>* s s' \<Longrightarrow> flags_le s s'"
proof (induction rule: rtranclp_induct)
  case (step t u)
  then have "flags_le t u" by (auto simp: stream_step_def stream_move_flags closed_flags)
  then show ?case using step.IH by (auto simp: flags_le_def)
qed (simp add: flags_le_def)

end
