(* ===== verification/Client_Side.thy ===== *)
theory Client_Side
  imports Frames
begin

text \<open>
  The other end of the wire: how a client reads the server's frames (RFC 6455, without masking), and
  that the frames of \<open>Frames\<close> are read back one by one from their concatenation.
\<close>

section \<open>Reading frames\<close>

text \<open>The first byte, the payload and what follows; \<open>None\<close> when the frame is not complete.\<close>

definition decode_frame :: "bytes \<Rightarrow> (byte \<times> bytes \<times> bytes) option" where
  "decode_frame f =
     (case f of
        b0 # b1 # rest \<Rightarrow>
          (let (n, body) =
             (if b1 \<le> 125 then (unat b1, rest)
              else if b1 = 126 then (unat (uint16_be rest), drop 2 rest)
              else (unat (uint64_be rest), drop 8 rest));
             header = (if b1 \<le> 125 then 0 else if b1 = 126 then 2 else 8)
           in if 127 < b1 \<or> length rest < header + n then None
              else Some (b0, take n body, drop n body))
      | _ \<Rightarrow> None)"

lemma decode_frame_shorter: "decode_frame f = Some (op, p, rest) \<Longrightarrow> length rest < length f"
  by (auto simp: decode_frame_def Let_def split: list.splits if_splits)

function decode_frames :: "bytes \<Rightarrow> (byte \<times> bytes) list \<times> bytes" where
  "decode_frames f =
     (case decode_frame f of
        None \<Rightarrow> ([], f)
      | Some (op, p, rest) \<Rightarrow> (case decode_frames rest of (ms, r) \<Rightarrow> ((op, p) # ms, r)))"
  by pat_completeness auto
termination by (relation "measure length") (auto dest: decode_frame_shorter)

declare decode_frames.simps [simp del]

section \<open>What the server may send\<close>

text \<open>
  A Wisp packet as a client expects it: DATA with any payload, CONTINUE with its four bytes, CLOSE with
  its reason, INFO with at least a version.
\<close>

definition server_packet :: "bytes \<Rightarrow> bool" where
  "server_packet p \<longleftrightarrow> 5 \<le> length p \<and>
     (p ! 0 = packetTypeData \<or> p ! 0 = packetTypeContinue \<and> length p = 9 \<or>
      p ! 0 = packetTypeClose \<and> length p = 6 \<or> p ! 0 = packetTypeInfo \<and> 7 \<le> length p)"

text \<open>A binary message with a packet, a pong, or a close with its code.\<close>

definition server_message :: "byte \<Rightarrow> bytes \<Rightarrow> bool" where
  "server_message op p \<longleftrightarrow>
     op = 0x82 \<and> server_packet p \<or> op = 0x8A \<and> length p \<le> 125 \<or> op = 0x88 \<and> length p = 2"

definition server_frame :: "bytes \<Rightarrow> bool" where
  "server_frame f \<longleftrightarrow> (case decode_frame f of None \<Rightarrow> False | Some (op, p, rest) \<Rightarrow> rest = [] \<and> server_message op p)"

definition frame_message :: "bytes \<Rightarrow> byte \<times> bytes" where
  "frame_message f = (case decode_frame f of None \<Rightarrow> (0, []) | Some (op, p, rest) \<Rightarrow> (op, p))"

text \<open>A DATA packet, in either direction.\<close>

definition data_packet :: "u32 \<Rightarrow> bytes \<Rightarrow> bytes" where
  "data_packet i d = packetTypeData # put_uint32_le i @ d"

section \<open>Lemmas\<close>

lemma uint16_be_append: "2 \<le> length f \<Longrightarrow> uint16_be (f @ g) = uint16_be f"
  by (cases f rule: uint16_be.cases) simp_all

lemma uint64_be_append: "8 \<le> length f \<Longrightarrow> uint64_be (f @ g) = uint64_be f"
  by (simp add: uint64_be_def)

lemma decode_frame_append:
  assumes "decode_frame f = Some (op, p, rest)"
  shows "decode_frame (f @ g) = Some (op, p, rest @ g)"
proof -
  obtain b0 b1 r where f: "f = b0 # b1 # r"
    using assms by (auto simp: decode_frame_def split: list.splits)
  show ?thesis
  proof (cases "b1 \<le> 125")
    case True
    then show ?thesis using assms by (auto simp: f decode_frame_def split: if_splits)
  next
    case big: False
    show ?thesis
    proof (cases "b1 = 126")
      case True
      then show ?thesis using assms
        by (auto simp: f decode_frame_def uint16_be_append Let_def split: if_splits)
    next
      case False
      then show ?thesis using assms big
        by (auto simp: f decode_frame_def uint64_be_append Let_def split: if_splits)
    qed
  qed
qed

lemma small_byte:
  assumes "n \<le> 125"
  shows "unat (of_nat n :: byte) = n" "(of_nat n :: byte) \<le> 125" "\<not> 127 < (of_nat n :: byte)"
proof -
  show u: "unat (of_nat n :: byte) = n" using assms by (simp add: unat_of_nat)
  show "(of_nat n :: byte) \<le> 125" "\<not> 127 < (of_nat n :: byte)"
    using assms by (simp_all add: word_le_nat_alt word_less_nat_alt u)
qed

lemma decode_short:
  assumes "length p \<le> 125"
  shows "decode_frame (op # of_nat (length p) # p) = Some (op, p, [])"
  using small_byte[OF assms] by (simp add: decode_frame_def)

lemma decode_sendRawFrame:
  assumes "length packet < 2 ^ 64"
  shows "decode_frame (sendRawFrame_frame packet) = Some (0x82, packet, [])"
proof (cases "length packet \<le> 125")
  case True
  then show ?thesis by (simp add: sendRawFrame_frame_def byte_shr_0 decode_short)
next
  case big: False
  show ?thesis
  proof (cases "length packet \<le> 65535")
    case True
    have "uint16_be (put_uint16_be (of_nat (length packet)) @ packet) = of_nat (length packet)"
      by (rule be16.get_put_append)
    then have "uint16_be ([byte_shr (length packet) 8, byte_shr (length packet) 0] @ packet) = of_nat (length packet)"
      using put_uint16_be_of_nat[of "length packet"] True by simp
    moreover have "unat (of_nat (length packet) :: u16) = length packet" using True by (simp add: unat_of_nat)
    ultimately show ?thesis using True big by (simp add: sendRawFrame_frame_def decode_frame_def Let_def)
  next
    case False
    have "unat (of_nat (length packet) :: u64) = length packet" using assms by (simp add: unat_of_nat)
    then show ?thesis using False
      by (simp add: sendRawFrame_frame_def decode_frame_def codec_simps Let_def)
  qed
qed

lemma decode_frames_append:
  assumes "server_frame f"
  shows "decode_frames (f @ g) = (case decode_frames g of (ms, r) \<Rightarrow> (frame_message f # ms, r))"
proof -
  obtain op p where "decode_frame f = Some (op, p, [])"
    using assms by (auto simp: server_frame_def split: option.splits)
  then show ?thesis
    using decode_frame_append[of f op p "[]" g]
    by (subst decode_frames.simps) (simp add: frame_message_def)
qed

text \<open>Of a prefix of a sequence of frames a client reads a prefix of the messages.\<close>

lemma decode_frames_concat:
  assumes "list_all server_frame fs"
  shows "decode_frames (concat fs @ g) = (case decode_frames g of (ms, r) \<Rightarrow> (map frame_message fs @ ms, r))"
  using assms by (induction fs) (auto simp: decode_frames_append split: prod.splits)

lemma decode_frames_all:
  assumes "list_all server_frame fs"
  shows "decode_frames (concat fs) = (map frame_message fs, [])"
  using decode_frames_concat[OF assms, of "[]"] by (simp add: decode_frames.simps[of "[]"] decode_frame_def)

lemma decode_frame_prefix:
  assumes "decode_frame (f @ g) = Some (op, p, rest)" "decode_frame f = Some (op', p', rest')"
  shows "op' = op" "p' = p"
  using decode_frame_append[OF assms(2), of g] assms(1) by simp_all

text \<open>
  \<open>read_so_far fs k r\<close>: of the frames \<open>fs\<close> the first \<open>k\<close> have arrived, and of the next one no more
  than the proper prefix \<open>r\<close>.
\<close>

definition read_so_far :: "bytes list \<Rightarrow> nat \<Rightarrow> bytes \<Rightarrow> bool" where
  "read_so_far fs k r \<longleftrightarrow>
     (if k < length fs then length r < length (fs ! k) \<and> r = take (length r) (fs ! k) else k = length fs \<and> r = [])"

lemma decode_incomplete:
  assumes "server_frame (w @ u)" "u \<noteq> []"
  shows "decode_frames w = ([], w)"
proof -
  have "decode_frame w = None"
  proof (rule ccontr)
    assume "decode_frame w \<noteq> None"
    then obtain op p r where "decode_frame w = Some (op, p, r)" by auto
    from decode_frame_append[OF this, of u] assms show False by (simp add: server_frame_def)
  qed
  then show ?thesis by (subst decode_frames.simps) simp
qed

lemma decode_frames_prefix:
  assumes "list_all server_frame fs" "concat fs = w @ g"
  shows "\<exists>k r. w = concat (take k fs) @ r \<and> read_so_far fs k r \<and>
    decode_frames w = (map frame_message (take k fs), r)"
  using assms
proof (induction fs arbitrary: w)
  case Nil
  then show ?case by (simp add: read_so_far_def decode_frames.simps[of "[]"] decode_frame_def)
next
  case (Cons f fs)
  show ?case
  proof (cases "length f \<le> length w")
    case True
    then obtain w' where w: "w = f @ w'" "concat fs = w' @ g"
      using Cons.prems(2) by (metis append_eq_append_conv_if concat.simps(2) append_take_drop_id append.assoc same_append_eq)
    then obtain k r where "w' = concat (take k fs) @ r" "read_so_far fs k r"
        "decode_frames w' = (map frame_message (take k fs), r)"
      using Cons.IH[of w'] Cons.prems(1) by auto
    then show ?thesis
      using Cons.prems(1) w(1)
      by (intro exI[of _ "Suc k"] exI[of _ r]) (simp add: decode_frames_append read_so_far_def)
  next
    case False
    then obtain u where u: "f = w @ u" "u \<noteq> []"
      using Cons.prems(2) by (auto simp: append_eq_append_conv2)
    then show ?thesis
      using Cons.prems(1) decode_incomplete[of w u]
      by (intro exI[of _ 0] exI[of _ w]) (simp add: read_so_far_def)
  qed
qed

section \<open>The server's frames\<close>

lemma packet_frame: "server_packet p \<Longrightarrow> length p < 2 ^ 64 \<Longrightarrow> server_frame (sendRawFrame_frame p)"
  by (simp add: server_frame_def decode_sendRawFrame server_message_def)

lemma server_frames:
  "server_frame (buildClosePacket i b)" "server_frame (sendPacket_frame i n)" "server_frame (sendWSClose_frame code)"
  "length p \<le> 125 \<Longrightarrow> server_frame (writeRawPong_frame p)"
proof -
  show "server_frame (buildClosePacket i b)" "server_frame (sendPacket_frame i n)"
    unfolding buildClosePacket_eq sendPacket_frame_eq by (intro packet_frame; simp add: server_packet_def)+
  show "server_frame (sendWSClose_frame code)"
    using decode_short[where p = "put_uint16_be code" and op = "0x88"] by (simp add: server_frame_def sendWSClose_frame_def server_message_def)
  show "server_frame (writeRawPong_frame p)" if "length p \<le> 125"
    using decode_short[OF that, where op = "0x8A"] that
    by (simp add: server_frame_def writeRawPong_frame_def byte_shr_0 server_message_def)
qed

lemma data_frame:
  assumes "maxHeaderLen + length d \<le> length buf" "length buf < 2 ^ 63"
  shows "server_frame (frame_in_place (read_behind_header buf d) i (length d))"
    "frame_message (frame_in_place (read_behind_header buf d) i (length d)) = (0x82, data_packet i d)"
proof -
  have eq: "frame_in_place (read_behind_header buf d) i (length d) = sendRawFrame_frame (packetTypeData # put_uint32_le i @ d)"
    unfolding read_behind_header_def
    using assms by (subst frame_in_place_eq) (simp_all add: streamId_bytes_put)
  have l: "length (packetTypeData # put_uint32_le i @ d) < 2 ^ 64" using assms by simp
  show "server_frame (frame_in_place (read_behind_header buf d) i (length d))"
    unfolding eq by (rule packet_frame[OF _ l]) (simp add: server_packet_def)
  show "frame_message (frame_in_place (read_behind_header buf d) i (length d)) = (0x82, data_packet i d)"
    unfolding eq frame_message_def decode_sendRawFrame[OF l] by (simp add: data_packet_def)
qed

end
