(* ===== verification/Conn_Invariants.thy ===== *)
theory Conn_Invariants
  imports Connection Stream_Life Client_Side
begin

text \<open>
  The invariant of a connection's streams, and that every operation of the read loop and of the
  streams' goroutines keeps it, in whatever order the operations run.
\<close>

section \<open>The parts of the state\<close>

text \<open>The bookkeeping of streams, and the facts that authentication decides.\<close>

definition conn_core ::
  "wispConnection \<Rightarrow> (u32 \<rightharpoonup> nat) \<times> (nat \<rightharpoonup> wispStream) \<times> nat \<times> (nat \<rightharpoonup> nat) \<times> int" where
  "conn_core c = (streams c, heap c, next_ref c, streamCache c, streamCount c)"

definition conn_auth :: "wispConnection \<Rightarrow> Config \<times> bool \<times> bool \<times> bool" where
  "conn_auth c = (config c, isV2 c, handshakePending c, authenticated c)"

lemma conn_core_eq:
  "conn_core c' = conn_core c \<longleftrightarrow> streams c' = streams c \<and> heap c' = heap c \<and> next_ref c' = next_ref c \<and>
     streamCache c' = streamCache c \<and> streamCount c' = streamCount c"
  by (simp add: conn_core_def)

lemma conn_auth_eq:
  "conn_auth c' = conn_auth c \<longleftrightarrow> config c' = config c \<and> isV2 c' = isV2 c \<and>
     handshakePending c' = handshakePending c \<and> authenticated c' = authenticated c"
  by (simp add: conn_auth_def)

lemmas write_defs = send_done_def close_drain_def conn_close_def enqueue_def submitWrite_def
  queueWrite_def queueWritePooled_def submitAndWait_def sendPacket_def sendClosePacket_def
  sendClosePacketAndWait_def writeRawPong_def sendRawFrame_def sendWSClose_def

lemma write_frame [frame_simps]:
  "conn_core (conn_close c) = conn_core c" "conn_auth (conn_close c) = conn_auth c"
  "conn_core (queueWrite d c) = conn_core c" "conn_auth (queueWrite d c) = conn_auth c"
  "conn_core (queueWritePooled d c) = conn_core c" "conn_auth (queueWritePooled d c) = conn_auth c"
  "conn_core (sendPacket i n c) = conn_core c" "conn_auth (sendPacket i n c) = conn_auth c"
  "conn_core (sendClosePacket i b c) = conn_core c" "conn_auth (sendClosePacket i b c) = conn_auth c"
  "conn_core (sendClosePacketAndWait k i b c) = conn_core c" "conn_auth (sendClosePacketAndWait k i b c) = conn_auth c"
  by (auto simp: write_defs conn_core_def conn_auth_def Let_def split: prod.splits submit_outcome.splits if_splits)

lemma write_frame_more [frame_simps]:
  "conn_core (writeRawPong p c) = conn_core c" "conn_auth (writeRawPong p c) = conn_auth c"
  "conn_core (sendWSClose k w c) = conn_core c" "conn_auth (sendWSClose k w c) = conn_auth c"
  "conn_core (sendRawFrame f c) = conn_core c" "conn_auth (sendRawFrame f c) = conn_auth c"
  "conn_core (snd (take_batch c)) = conn_core c" "conn_auth (snd (take_batch c)) = conn_auth c"
  "conn_core (writer_stop c) = conn_core c" "conn_auth (writer_stop c) = conn_auth c"
  by (auto simp: write_defs take_batch_def writer_stop_def conn_core_def conn_auth_def Let_def
      split: prod.splits submit_outcome.splits if_splits)

text \<open>The terminals and the goroutines that were started.\<close>

definition conn_rest :: "wispConnection \<Rightarrow> (u32 \<rightharpoonup> nat) \<times> (nat \<rightharpoonup> twispStream) \<times> goroutine list" where
  "conn_rest c = (twispStreams c, twisp_heap c, spawned c)"

lemma write_frame_rest [frame_simps]:
  "conn_rest (conn_close c) = conn_rest c" "conn_rest (queueWrite d c) = conn_rest c"
  "conn_rest (queueWritePooled d c) = conn_rest c" "conn_rest (sendPacket i n c) = conn_rest c"
  "conn_rest (sendClosePacket i b c) = conn_rest c" "conn_rest (sendClosePacketAndWait k i b c) = conn_rest c"
  "conn_rest (writeRawPong p c) = conn_rest c" "conn_rest (sendWSClose k w c) = conn_rest c"
  "conn_rest (sendRawFrame f c) = conn_rest c" "conn_rest (snd (take_batch c)) = conn_rest c"
  "conn_rest (writer_stop c) = conn_rest c"
  by (auto simp: write_defs take_batch_def writer_stop_def conn_rest_def Let_def
      split: prod.splits submit_outcome.splits if_splits)

lemma spawn_frame [frame_simps]:
  "conn_core (spawn g c) = conn_core c" "conn_auth (spawn g c) = conn_auth c"
  by (simp_all add: spawn_def conn_core_def conn_auth_def)

lemma globals_frame [frame_simps]:
  "conn_core (upd_globals f c) = conn_core c" "conn_auth (upd_globals f c) = conn_auth c" "conn_rest (upd_globals f c) = conn_rest c"
  "conn_rest (violation c) = conn_rest c" "conn_rest (repAddSource t w c) = conn_rest c"
  "conn_rest (repAddDest t ip p w c) = conn_rest c" "conn_rest (releaseSyn b c) = conn_rest c"
  "conn_core (violation c) = conn_core c" "conn_auth (violation c) = conn_auth c"
  "conn_core (repAddSource t w c) = conn_core c" "conn_auth (repAddSource t w c) = conn_auth c"
  "conn_core (repAddDest t ip p w c) = conn_core c" "conn_auth (repAddDest t ip p w c) = conn_auth c"
  "conn_core (releaseSyn b c) = conn_core c" "conn_auth (releaseSyn b c) = conn_auth c"
proof -
  show 1: "conn_core (upd_globals f c) = conn_core c" "conn_auth (upd_globals f c) = conn_auth c"
    "conn_rest (upd_globals f c) = conn_rest c" for f c
    by (simp_all add: upd_globals_def conn_core_def conn_auth_def conn_rest_def)
  have v: "conn_core (c\<lparr>violations := n\<rparr>) = conn_core c" "conn_auth (c\<lparr>violations := n\<rparr>) = conn_auth c"
    "conn_rest (c\<lparr>violations := n\<rparr>) = conn_rest c" for n
    by (simp_all add: conn_core_def conn_auth_def conn_rest_def)
  show "conn_core (violation c) = conn_core c" "conn_auth (violation c) = conn_auth c" "conn_rest (violation c) = conn_rest c"
    by (auto simp: violation_def Let_def write_frame write_frame_rest v split: option.splits)
  show "conn_core (repAddSource t w c) = conn_core c" "conn_auth (repAddSource t w c) = conn_auth c"
    "conn_core (repAddDest t ip p w c) = conn_core c" "conn_auth (repAddDest t ip p w c) = conn_auth c"
    "conn_core (releaseSyn b c) = conn_core c" "conn_auth (releaseSyn b c) = conn_auth c"
    "conn_rest (repAddSource t w c) = conn_rest c" "conn_rest (repAddDest t ip p w c) = conn_rest c"
    "conn_rest (releaseSyn b c) = conn_rest c"
    by (simp_all add: repAddSource_def repAddDest_def releaseSyn_def 1)
qed

lemma auth_frame [frame_simps]:
  "conn_auth (upd_stream r f c) = conn_auth c" "conn_auth (signalConnReady r c) = conn_auth c"
  "conn_auth (deleteWispStream i c) = conn_auth c" "conn_auth (upd_twisp t g c) = conn_auth c"
  by (auto simp: upd_stream_def signalConnReady_def deleteWispStream_def upd_twisp_def conn_auth_def Let_def
      split: option.splits)

lemma stream_close_auth [frame_simps]: "conn_auth (stream_close r reason c) = conn_auth c"
  by (auto simp: stream_close_def Let_def frame_simps split: option.splits)

section \<open>The invariant\<close>

text \<open>The stream object at a reference is open under a stream id.\<close>

definition open_as :: "wispConnection \<Rightarrow> nat \<Rightarrow> u32 \<Rightarrow> bool" where
  "open_as c r i \<longleftrightarrow> (case heap c r of None \<Rightarrow> False | Some s \<Rightarrow> isOpen s \<and> st_streamId s = i)"

definition conn_inv :: "wispConnection \<Rightarrow> bool" where
  "conn_inv c \<longleftrightarrow>
     finite (dom (streams c)) \<and> streamCount c = wrap32 (int (card (dom (streams c)))) \<and>
     (\<forall>i r. streams c i = Some r \<longleftrightarrow> open_as c r i) \<and>
     (\<forall>r. next_ref c \<le> r \<longrightarrow> heap c r = None) \<and>
     (\<forall>k r. streamCache c k = Some r \<longrightarrow> (\<exists>i. open_as c r i \<and> cache_slot i = k))"

lemma conn_inv_core: "conn_inv c \<Longrightarrow> conn_core c' = conn_core c \<Longrightarrow> conn_inv c'"
  by (simp add: conn_core_eq conn_inv_def open_as_def)

lemma conn_inv_heap:
  assumes "conn_inv c" "open_as c' = open_as c" "\<And>r. heap c' r = None \<longleftrightarrow> heap c r = None"
    "streams c' = streams c" "next_ref c' = next_ref c" "streamCache c' = streamCache c" "streamCount c' = streamCount c"
  shows "conn_inv c'"
  using assms unfolding conn_inv_def by simp

lemma upd_stream_frame [frame_simps]:
  "streams (upd_stream r f c) = streams c" "next_ref (upd_stream r f c) = next_ref c"
  "streamCache (upd_stream r f c) = streamCache c" "streamCount (upd_stream r f c) = streamCount c"
  "globals (upd_stream r f c) = globals c" "config (upd_stream r f c) = config c"
  "DNSCache (upd_stream r f c) = DNSCache c" "spawned (upd_stream r f c) = spawned c"
  "isClosed (upd_stream r f c) = isClosed c" "isV2 (upd_stream r f c) = isV2 c"
  by (auto simp: upd_stream_def split: option.splits)

lemma heap_upd_stream:
  "heap (upd_stream r f c) r' = (if r' = r then map_option f (heap c r) else heap c r')"
  by (auto simp: upd_stream_def split: option.splits)

text \<open>A change of the object at \<open>r\<close> by moves.\<close>

definition moves :: "wispConnection \<Rightarrow> nat \<Rightarrow> (wispStream \<Rightarrow> wispStream) \<Rightarrow> bool" where
  "moves c r f \<longleftrightarrow> (\<forall>s. heap c r = Some s \<longrightarrow> (stream_move (maxPendingQueueBytes c))\<^sup>*\<^sup>* s (f s))"

lemma open_as_upd: "moves c r f \<Longrightarrow> open_as (upd_stream r f c) = open_as c"
  by (intro ext) (auto simp: open_as_def heap_upd_stream moves_def dest!: stream_moves_keep split: option.splits)

lemma conn_inv_upd: "moves c r f \<Longrightarrow> conn_inv c \<Longrightarrow> conn_inv (upd_stream r f c)"
  by (rule conn_inv_heap) (auto simp: open_as_upd frame_simps heap_upd_stream)

lemma conn_inv_signal [inv_intros]: "conn_inv c \<Longrightarrow> conn_inv (signalConnReady r c)"
  unfolding signalConnReady_def by (rule conn_inv_upd) (simp add: moves_def stream_moves)

lemma conn_inv_write [inv_intros]:
  "conn_inv c \<Longrightarrow> conn_inv (conn_close c)" "conn_inv c \<Longrightarrow> conn_inv (queueWritePooled d c)"
  "conn_inv c \<Longrightarrow> conn_inv (sendPacket i n c)" "conn_inv c \<Longrightarrow> conn_inv (sendClosePacket i b c)"
  "conn_inv c \<Longrightarrow> conn_inv (sendClosePacketAndWait k i b c)" "conn_inv c \<Longrightarrow> conn_inv (spawn g c)"
  "conn_inv c \<Longrightarrow> conn_inv (violation c)" "conn_inv c \<Longrightarrow> conn_inv (repAddSource t w c)"
  "conn_inv c \<Longrightarrow> conn_inv (repAddDest t ip p w c)" "conn_inv c \<Longrightarrow> conn_inv (releaseSyn q c)"
  "conn_inv c \<Longrightarrow> conn_inv (upd_globals g' c)"
  by (erule conn_inv_core, simp add: frame_simps)+

lemma wrap32_minus_wrap32: "wrap32 (wrap32 x - 1) = wrap32 (x - 1)" "wrap32 (wrap32 x + 1) = wrap32 (x + 1)"
  by (simp_all add: wrap32_def mod_simps algebra_simps)

text \<open>Closing an open stream, up to the CLOSE packet.\<close>

definition stream_closed :: "nat \<Rightarrow> wispStream \<Rightarrow> wispConnection \<Rightarrow> wispConnection" where
  "stream_closed r s c =
     (let c1 = upd_stream r (\<lambda>s. s\<lparr>isOpen := False\<rparr>) c;
          c2 = signalConnReady r c1;
          c3 = deleteWispStream (st_streamId s) c2;
          c4 = upd_stream r (\<lambda>s. if st_conn s \<noteq> NoConn then s\<lparr>st_conn := ConnClosed\<rparr> else s) c3
      in upd_stream r (\<lambda>s. if ingressActive s
           then s\<lparr>ingressActive := False, pendingIngress := [], pendingIngBytes := 0\<rparr> else s) c4)"

lemma stream_close_cases:
  "stream_close r reason c =
     (case heap c r of None \<Rightarrow> c
      | Some s \<Rightarrow> if isOpen s then sendClosePacket (st_streamId s) reason (stream_closed r s c) else c)"
  by (simp add: stream_close_def stream_closed_def Let_def split: option.splits)

lemma heap_deleteWispStream [frame_simps]: "heap (deleteWispStream i c) = heap c"
  by (simp add: deleteWispStream_def Let_def)

lemma streamCache_delete_upd:
  assumes "\<And>s. st_streamId (f s) = st_streamId s"
  shows "streamCache (deleteWispStream i (upd_stream r f c)) = streamCache (deleteWispStream i c)"
proof -
  have "(case heap (upd_stream r f c) r' of None \<Rightarrow> False | Some s \<Rightarrow> st_streamId s = i) =
      (case heap c r' of None \<Rightarrow> False | Some s \<Rightarrow> st_streamId s = i)" for r'
    using assms by (simp add: heap_upd_stream split: option.split)
  then show ?thesis by (simp add: deleteWispStream_def Let_def frame_simps cong: option.case_cong)
qed

lemma delete_fields [frame_simps]:
  "streams (deleteWispStream i c) = (streams c)(i := None)" "next_ref (deleteWispStream i c) = next_ref c"
  "streamCount (deleteWispStream i c) = wrap32 (streamCount c - 1)"
  by (simp_all add: deleteWispStream_def Let_def)

lemma stream_closed_heap:
  assumes "heap c r = Some s"
  shows "heap (stream_closed r s c) = (heap c)(r \<mapsto> closed_stream s)"
proof
  fix r'
  show "heap (stream_closed r s c) r' = ((heap c)(r \<mapsto> closed_stream s)) r'"
  proof (cases "r' = r")
    case True
    then show ?thesis
      by (simp add: stream_closed_def closed_stream_def signalConnReady_def heap_upd_stream
          heap_deleteWispStream assms)
  next
    case False
    then show ?thesis
      by (simp add: stream_closed_def signalConnReady_def heap_upd_stream heap_deleteWispStream)
  qed
qed

lemma stream_closed_fields:
  shows "streams (stream_closed r s c) = (streams c)(st_streamId s := None)"
    and "next_ref (stream_closed r s c) = next_ref c"
    and "streamCount (stream_closed r s c) = wrap32 (streamCount c - 1)"
    and "streamCache (stream_closed r s c) = streamCache (deleteWispStream (st_streamId s) c)"
  by (simp_all add: stream_closed_def signalConnReady_def Let_def frame_simps streamCache_delete_upd)

lemma stream_closed_inv:
  assumes "conn_inv c" "heap c r = Some s" "isOpen s"
  shows "conn_inv (stream_closed r s c)"
proof -
  let ?c = "stream_closed r s c" and ?i = "st_streamId s"
  note f = stream_closed_heap[OF assms(2)] stream_closed_fields[of r s c]
  have op: "open_as c r ?i" using assms by (simp add: open_as_def)
  have inv: "finite (dom (streams c))" "streamCount c = wrap32 (int (card (dom (streams c))))"
    "\<And>i r. streams c i = Some r \<longleftrightarrow> open_as c r i" "\<And>r. next_ref c \<le> r \<Longrightarrow> heap c r = None"
    "\<And>k r. streamCache c k = Some r \<Longrightarrow> \<exists>i. open_as c r i \<and> cache_slot i = k"
    using assms(1) unfolding conn_inv_def by auto
  have mem: "streams c ?i = Some r" using inv(3) op by simp
  have op': "open_as ?c r' i \<longleftrightarrow> open_as c r' i \<and> r' \<noteq> r" for r' i
    by (auto simp: open_as_def f(1) closed_stream_def Let_def)
  have uniq: "open_as c r i \<Longrightarrow> i = ?i" for i using assms(2) by (simp add: open_as_def)
  have "dom (streams c) \<noteq> {}" using mem by blast
  then have "0 < card (dom (streams c))" using inv(1) by (simp add: card_gt_0_iff)
  then have "int (card (dom (streams c))) - 1 = int (card (dom ((streams c)(?i := None))))"
    unfolding card_dom_delete[OF inv(1) mem] by linarith
  then have cnt: "streamCount ?c = wrap32 (int (card (dom (streams ?c))))"
    by (simp only: f(2,4) inv(2) wrap32_minus_wrap32)
  have mp: "\<forall>i r'. streams ?c i = Some r' \<longleftrightarrow> open_as ?c r' i"
  proof (intro allI)
    fix i r'
    have same: "r' = r" if "open_as c r' ?i" using that inv(3)[of ?i r'] mem by simp
    have "streams ?c i = Some r' \<longleftrightarrow> i \<noteq> ?i \<and> streams c i = Some r'" unfolding f(2) by simp
    also have "\<dots> \<longleftrightarrow> open_as c r' i \<and> r' \<noteq> r" unfolding inv(3) using same uniq by blast
    also have "\<dots> \<longleftrightarrow> open_as ?c r' i" unfolding op' by (rule refl)
    finally show "streams ?c i = Some r' \<longleftrightarrow> open_as ?c r' i" .
  qed
  have ch: "\<forall>k r'. streamCache ?c k = Some r' \<longrightarrow> (\<exists>i. open_as ?c r' i \<and> cache_slot i = k)"
  proof (intro allI impI)
    fix k r' assume that: "streamCache ?c k = Some r'"
    have old: "streamCache c k = Some r'" and ne: "\<not> (k = cache_slot ?i \<and> r' = r)"
      using that assms(2) unfolding f(5) by (auto simp: deleteWispStream_def Let_def split: if_splits option.splits)
    obtain i where i: "open_as c r' i" "cache_slot i = k" using inv(5)[OF old] by blast
    have "r' \<noteq> r" using ne i uniq by auto
    then show "\<exists>i. open_as ?c r' i \<and> cache_slot i = k" using i op' by blast
  qed
  have nx: "\<forall>r'. next_ref ?c \<le> r' \<longrightarrow> heap ?c r' = None"
    using inv(4) assms(2) by (auto simp: f)
  have fin: "finite (dom (streams ?c))" using inv(1) by (simp add: f)
  show ?thesis unfolding conn_inv_def using fin cnt mp nx ch by (intro conjI)
qed

lemma conn_inv_close [inv_intros]: "conn_inv c \<Longrightarrow> conn_inv (stream_close r reason c)"
  by (auto simp: stream_close_cases stream_closed_inv intro!: inv_intros split: option.splits)

section \<open>Quiet operations\<close>

text \<open>
  Most operations are quiet: they keep the invariant, add no stream, leave the authentication
  alone, and do nothing to a connection that has no stream, no terminal and no goroutine yet.
\<close>

definition dormant :: "wispConnection \<Rightarrow> bool" where
  "dormant c \<longleftrightarrow> streams c = Map.empty \<and> heap c = Map.empty \<and> twispStreams c = Map.empty \<and>
     twisp_heap c = Map.empty \<and> spawned c = []"

definition twisp_starts :: "wispConnection \<Rightarrow> (u32 \<times> string) set" where
  "twisp_starts c = {(i, cmd). GoTwisp i cmd \<in> set (spawned c)}"

definition quiet :: "wispConnection \<Rightarrow> wispConnection \<Rightarrow> bool" where
  "quiet c c' \<longleftrightarrow> (conn_inv c \<longrightarrow> conn_inv c') \<and> dom (streams c') \<subseteq> dom (streams c) \<and>
     conn_auth c' = conn_auth c \<and> (dormant c \<longrightarrow> dormant c') \<and>
     set (spawned c) \<subseteq> set (spawned c') \<and> twisp_starts c' = twisp_starts c"

lemma quiet_refl [simp]: "quiet c c"
  by (simp add: quiet_def)

lemma quiet_trans: "quiet c0 c \<Longrightarrow> quiet c c' \<Longrightarrow> quiet c0 c'"
  unfolding quiet_def using subset_trans[of "dom (streams c')" "dom (streams c)" "dom (streams c0)"] by auto

lemma quiet_same:
  assumes "conn_core c' = conn_core c" "conn_auth c' = conn_auth c" "conn_rest c' = conn_rest c"
  shows "quiet c c'"
  using assms conn_inv_core[OF _ assms(1)]
  unfolding quiet_def dormant_def twisp_starts_def conn_core_eq conn_rest_def by auto

lemma quiet_upd_stream:
  assumes "moves c r f" shows "quiet c (upd_stream r f c)"
proof -
  have "dormant c \<longrightarrow> upd_stream r f c = c" by (simp add: dormant_def upd_stream_def)
  then show ?thesis using conn_inv_upd[OF assms] by (auto simp: quiet_def twisp_starts_def frame_simps)
qed

lemma streams_stream_close: "dom (streams (stream_close r reason c)) \<subseteq> dom (streams c)"
proof -
  have "streams (sendClosePacket i b c') = streams c'" for i b and c' :: wispConnection
    using write_frame(9)[of i b c'] by (simp add: conn_core_eq)
  then show ?thesis by (auto simp: stream_close_cases stream_closed_fields split: option.splits if_splits)
qed

lemma stream_close_spawned: "spawned (stream_close r reason c) = spawned c"
proof -
  have "spawned (sendClosePacket i b c') = spawned c'" for i b and c' :: wispConnection
    using write_frame_rest(5)[of i b c'] by (simp add: conn_rest_def)
  then show ?thesis
    by (auto simp: stream_close_def signalConnReady_def deleteWispStream_def frame_simps Let_def split: option.split)
qed

lemma quiet_stream_close: "quiet c (stream_close r reason c)"
proof -
  have "dormant c \<longrightarrow> stream_close r reason c = c" by (simp add: dormant_def stream_close_def)
  then show ?thesis
    using conn_inv_close[of c r reason] streams_stream_close
    by (auto simp: quiet_def twisp_starts_def stream_close_auth stream_close_spawned)
qed

text \<open>A goroutine that works on an object of the connection may be started.\<close>

definition may_start :: "wispConnection \<Rightarrow> goroutine \<Rightarrow> bool" where
  "may_start c g \<longleftrightarrow> (case g of
     GoConnect r _ _ _ \<Rightarrow> heap c r \<noteq> None
   | GoStreamClose r _ \<Rightarrow> \<exists>i. streams c i = Some r
   | GoIngressWriter r \<Rightarrow> heap c r \<noteq> None
   | GoTwisp _ _ \<Rightarrow> False
   | GoTwispClose t _ \<Rightarrow> \<exists>i. twispStreams c i = Some t
   | GoPtyReader t \<Rightarrow> twisp_heap c t \<noteq> None
   | GoPtyWaiter t \<Rightarrow> twisp_heap c t \<noteq> None)"

lemma quiet_spawn:
  assumes "may_start c g" shows "quiet c (spawn g c)"
proof -
  have "\<not> dormant c" "\<forall>i cmd. g \<noteq> GoTwisp i cmd"
    using assms by (auto simp: may_start_def dormant_def split: goroutine.splits)
  note assms = this
  have "conn_core (spawn g c) = conn_core c" "conn_auth (spawn g c) = conn_auth c" by (simp_all add: frame_simps)
  moreover have "twisp_starts (spawn g c) = twisp_starts c" "set (spawned c) \<subseteq> set (spawned (spawn g c))"
    using assms(2) by (auto simp: twisp_starts_def spawn_def)
  ultimately show ?thesis using assms conn_inv_core[of c "spawn g c"]
    unfolding quiet_def conn_core_eq by auto
qed

lemma quiet_cache_store:
  assumes "streams c i = Some r" shows "quiet c (cache_store i r c)"
proof -
  have "conn_inv (cache_store i r c)" if "conn_inv c"
    using that assms unfolding conn_inv_def cache_store_def open_as_def by auto
  then show ?thesis using assms
    by (auto simp: quiet_def twisp_starts_def cache_store_def conn_auth_def dormant_def)
qed

lemma upd_twisp_fields:
  "conn_core (upd_twisp t f c) = conn_core c" "spawned (upd_twisp t f c) = spawned c"
  "twispStreams (upd_twisp t f c) = twispStreams c" "conn_auth (upd_twisp t f c) = conn_auth c"
  "globals (upd_twisp t f c) = globals c"
  by (auto simp: upd_twisp_def conn_core_def conn_auth_def split: option.split)

lemma quiet_upd_twisp: "quiet c (upd_twisp t f c)"
proof -
  have "dormant c \<longrightarrow> upd_twisp t f c = c" by (simp add: dormant_def upd_twisp_def)
  then show ?thesis
    using conn_inv_core[of c "upd_twisp t f c"] upd_twisp_fields[of t f c]
    by (auto simp: quiet_def twisp_starts_def conn_core_eq)
qed

lemma quiet_forget:
  assumes "twisp_heap c t = Some w"
  shows "quiet c ((upd_twisp t f c)\<lparr>twispStreams := (twispStreams c)(i := None)\<rparr>)"
proof -
  have "conn_core (d\<lparr>twispStreams := m\<rparr>) = conn_core d" "conn_auth (d\<lparr>twispStreams := m\<rparr>) = conn_auth d" for d m
    by (simp_all add: conn_core_def conn_auth_def)
  then show ?thesis using assms
      conn_inv_core[of c "(upd_twisp t f c)\<lparr>twispStreams := (twispStreams c)(i := None)\<rparr>"] upd_twisp_fields[of t f c]
    by (auto simp: quiet_def twisp_starts_def conn_core_eq dormant_def)
qed

section \<open>Slots of the SYN semaphore\<close>

definition syn_of :: "Globals option \<Rightarrow> semaphore option" where
  "syn_of g = Option.bind g g_InFlightSyns"

lemma syn_of_simps [simp]:
  "syn_of None = None" "syn_of (Some g) = g_InFlightSyns g"
  by (simp_all add: syn_of_def)

lemma write_frame_globals [frame_simps]:
  "globals (conn_close c) = globals c" "globals (queueWrite d c) = globals c"
  "globals (queueWritePooled d c) = globals c" "globals (sendPacket i n c) = globals c"
  "globals (sendClosePacket i b c) = globals c" "globals (sendClosePacketAndWait k i b c) = globals c"
  "globals (writeRawPong d c) = globals c" "globals (sendWSClose k w c) = globals c"
  "globals (sendRawFrame d c) = globals c" "globals (snd (take_batch c)) = globals c"
  "globals (writer_stop c) = globals c" "globals (spawn g c) = globals c"
  "globals (deleteWispStream i c) = globals c" "globals (signalConnReady r c) = globals c"
  by (auto simp: write_defs take_batch_def writer_stop_def spawn_def deleteWispStream_def signalConnReady_def
      upd_stream_def Let_def split: prod.splits submit_outcome.splits if_splits option.splits)

lemma syn_frame [frame_simps]:
  "syn_of (globals (violation c)) = syn_of (globals c)"
  "syn_of (globals (repAddSource t w c)) = syn_of (globals c)"
  "syn_of (globals (repAddDest t ip p w c)) = syn_of (globals c)"
  "syn_of (globals (stream_close r b c)) = syn_of (globals c)"
  by (cases "globals c"; auto simp: violation_def repAddSource_def repAddDest_def upd_globals_def stream_close_def
      write_frame_globals upd_stream_frame Let_def split: option.split)+

section \<open>What is sent\<close>

text \<open>All that an operation adds to the outgoing queue are frames that a client can read.\<close>

definition sends :: "wispConnection \<Rightarrow> wispConnection \<Rightarrow> bool" where
  "sends c c' \<longleftrightarrow> (\<forall>w \<in> set (pendingWrites c'). w \<in> set (pendingWrites c) \<or> server_frame (wr_data w))"

lemma sends_trans: "sends c c1 \<Longrightarrow> sends c1 c2 \<Longrightarrow> sends c c2"
  by (auto simp: sends_def)

lemma sends_same [simp]: "pendingWrites c' = pendingWrites c \<Longrightarrow> sends c c'"
  by (simp add: sends_def)

lemma sends_submit: "server_frame (wr_data req) \<Longrightarrow> sends c (snd (submitWrite req c))"
  by (auto simp: sends_def submitWrite_def enqueue_def conn_close_def close_drain_def send_done_def Let_def
      split: prod.splits submit_outcome.splits if_splits)

lemma sends_frames [frame_simps]:
  "sends c (conn_close c)" "server_frame d \<Longrightarrow> sends c (queueWritePooled d c)" "server_frame d \<Longrightarrow> sends c (queueWrite d c)"
  "sends c (sendPacket i n c)" "sends c (sendClosePacket i b c)" "sends c (sendClosePacketAndWait k i b c)"
  "sends c (sendWSClose k code c)" "length p \<le> 125 \<Longrightarrow> sends c (writeRawPong p c)"
  "sends c (snd (take_batch c))" "sends c (writer_stop c)"
  "sends c (violation c)" "sends c (repAddSource t w c)" "sends c (repAddDest t ip port w c)"
proof -
  show close: "sends c (conn_close c)" for c
    by (simp add: sends_def conn_close_def close_drain_def send_done_def)
  show "server_frame d \<Longrightarrow> sends c (queueWritePooled d c)" "server_frame d \<Longrightarrow> sends c (queueWrite d c)"
    "sends c (sendPacket i n c)" "sends c (sendClosePacket i b c)" "sends c (sendClosePacketAndWait k i b c)"
    "sends c (sendWSClose k code c)" "length p \<le> 125 \<Longrightarrow> sends c (writeRawPong p c)"
    by (auto simp: queueWritePooled_def queueWrite_def sendPacket_def sendClosePacket_def sendClosePacketAndWait_def
        sendWSClose_def writeRawPong_def submitAndWait_def intro!: sends_submit server_frames)
  show "sends c (snd (take_batch c))" "sends c (writer_stop c)"
    by (simp_all add: sends_def take_batch_def writer_stop_def)
  show "sends c (violation c)"
    by (auto simp: violation_def Let_def split: option.split intro: sends_trans[OF _ close])
  show "sends c (repAddSource t w c)" "sends c (repAddDest t ip port w c)"
    by (auto simp: repAddSource_def repAddDest_def upd_globals_def split: option.split)
qed

end
