(* ===== verification/Conn_Ops.thy ===== *)
theory Conn_Ops
  imports Conn_Invariants
begin

text \<open>
  What the operations of a connection are made of. A relation between the state before and after
  that holds of the primitive changes (moves of a stream object, the closing of a stream, the start
  of a goroutine, writes to the client, \<dots>) and composes, holds of every operation of the read loop
  and of the goroutines. The lemmas are proved once, for such a relation.
\<close>

named_theorems op_intros "a further primitive change keeps the relation"

text \<open>
  \<^verbatim>\<open>conn.Read(buf[maxHeaderLen:])\<close> returns no more than there is room for, and a buffer is
  smaller than the address space.
\<close>

definition read_fits :: "bytes \<Rightarrow> bytes \<Rightarrow> bool" where
  "read_fits buf d \<longleftrightarrow> maxHeaderLen + length d \<le> length buf \<and> length buf < 2 ^ 63"

lemma read_frame: "read_fits buf d \<Longrightarrow> server_frame (frame_in_place (read_behind_header buf d) i (length d))"
  unfolding read_fits_def by (elim conjE) (rule data_frame)

locale goroutine_ops =
  fixes R :: "wispConnection \<Rightarrow> wispConnection \<Rightarrow> bool"
  assumes refl [op_intros]: "R c c"
    and trans: "R c0 c \<Longrightarrow> R c c' \<Longrightarrow> R c0 c'"
    and same: "conn_core c' = conn_core c \<Longrightarrow> conn_auth c' = conn_auth c \<Longrightarrow> conn_rest c' = conn_rest c \<Longrightarrow>
      syn_of (globals c') = syn_of (globals c) \<Longrightarrow> sends c c' \<Longrightarrow> R c c'"
    and move: "moves c r f \<Longrightarrow> R c (upd_stream r f c)"
    and close: "R c (stream_close r reason c)"
    and start: "may_start c g \<Longrightarrow> R c (spawn g c)"
    and cache: "streams c i = Some r \<Longrightarrow> R c (cache_store i r c)"
    and terminal: "R c (upd_twisp t tf c)"
    and forget: "twisp_heap c t = Some w \<Longrightarrow> R c ((upd_twisp t tf c)\<lparr>twispStreams := (twispStreams c)(i := None)\<rparr>)"
begin

section \<open>Primitive changes\<close>

lemmas after = trans[OF _ same]

lemma frames [op_intros]:
  "R c0 c \<Longrightarrow> R c0 (conn_close c)" "R c0 c \<Longrightarrow> server_frame d \<Longrightarrow> R c0 (queueWritePooled d c)"
  "R c0 c \<Longrightarrow> R c0 (sendPacket i n c)" "R c0 c \<Longrightarrow> R c0 (sendClosePacket i b c)"
  "R c0 c \<Longrightarrow> R c0 (sendClosePacketAndWait k i b c)" "R c0 c \<Longrightarrow> R c0 (violation c)"
  "R c0 c \<Longrightarrow> R c0 (repAddSource t w c)" "R c0 c \<Longrightarrow> R c0 (repAddDest t ip p w c)"
  "R c0 c \<Longrightarrow> server_frame d \<Longrightarrow> R c0 (queueWrite d c)" "R c0 c \<Longrightarrow> length pl \<le> 125 \<Longrightarrow> R c0 (writeRawPong pl c)"
  "R c0 c \<Longrightarrow> R c0 (sendWSClose k code c)" "R c0 c \<Longrightarrow> R c0 (snd (take_batch c))"
  "R c0 c \<Longrightarrow> R c0 (writer_stop c)"
  by (erule after, simp_all add: frame_simps)+

lemma fields [op_intros]:
  "R c0 c \<Longrightarrow> R c0 (c\<lparr>DNSCache := dn\<rparr>)" "R c0 c \<Longrightarrow> R c0 (c\<lparr>ingressBytes := m\<rparr>)"
  "R c0 c \<Longrightarrow> R c0 (c\<lparr>egressBytes := m\<rparr>)"
  by (erule after, simp_all add: conn_core_def conn_auth_def conn_rest_def)+

lemma shared:
  "R c0 c \<Longrightarrow> syn_of gl = syn_of (globals c) \<Longrightarrow> R c0 (c\<lparr>globals := gl\<rparr>)"
  by (erule after, simp_all add: conn_core_def conn_auth_def conn_rest_def)

lemma shared_some [op_intros]:
  "R c0 c \<Longrightarrow> globals c = Some g \<Longrightarrow> g_InFlightSyns g' = g_InFlightSyns g \<Longrightarrow> R c0 (c\<lparr>globals := Some g'\<rparr>)"
  by (erule shared) simp

lemma upd [op_intros]: "R c0 c \<Longrightarrow> moves c r f \<Longrightarrow> R c0 (upd_stream r f c)"
  by (rule trans[OF _ move])

lemma close' [op_intros]: "R c0 c \<Longrightarrow> R c0 (stream_close r reason c)"
  by (rule trans[OF _ close])

lemma signal [op_intros]: "R c0 c \<Longrightarrow> R c0 (signalConnReady r c)"
  unfolding signalConnReady_def by (erule upd) (simp add: moves_def stream_moves)

lemma terminal' [op_intros]: "R c0 c \<Longrightarrow> R c0 (upd_twisp t tf c)"
  by (rule trans[OF _ terminal])

section \<open>Goroutines of a stream\<close>

lemma reject: "R c0 c \<Longrightarrow> R c0 (snd (reject_connect r reason c))"
  by (simp add: reject_connect_def op_intros)

lemma take_pending: "R c0 c \<Longrightarrow> R c0 (snd (take_pending r c))"
  by (auto simp: take_pending_def moves_def stream_moves intro!: op_intros split: option.split)

lemma flush_one: "R c0 c \<Longrightarrow> R c0 (snd (flush_one r data ok c))"
  by (auto simp: flush_one_def moves_def intro!: op_intros r_into_rtranclp stream_move_written split: option.split)

lemma flush_all: "R c0 c \<Longrightarrow> R c0 (snd (flush_all r ds c))"
proof (induction r ds c rule: flush_all.induct)
  case (2 r data ok ds c)
  then show ?case using flush_one[of c0 c r data ok]
    by (auto split: prod.split bool.split)
qed simp

lemma ready: "R c0 c \<Longrightarrow> R c0 (connect_ready r b c)"
  by (auto simp: connect_ready_def moves_def stream_moves intro!: op_intros)

lemma ingress_take: "R c0 c \<Longrightarrow> R c0 (snd (ingress_take r c))"
  by (auto simp: ingress_take_def moves_def stream_moves intro!: op_intros split: option.split)

lemma ingress_write: "R c0 c \<Longrightarrow> R c0 (snd (ingress_write r b ok c))"
  by (auto simp: ingress_write_def moves_def stream_moves intro!: op_intros split: option.split)

lemma read_turn:
  assumes "R c0 c" "read_fits buf d" shows "R c0 (snd (readFromConnection_turn r buf d err now now' stopped c))"
proof (cases "heap c r")
  case (Some s)
  obtain ok c1 where w: "(if d = [] then (True, c) else (case globals c of None \<Rightarrow> (True, c)
      | Some g \<Rightarrow> (case BandwidthLimiter_Wait now now' stopped (remoteIP c) (int (length d)) (g_Bandwidth g) of
           (ok, l) \<Rightarrow> (ok, c\<lparr>globals := Some (g\<lparr>g_Bandwidth := l\<rparr>)\<rparr>)))) = (ok, c1)"
    by (rule prod.exhaust)
  have "R c0 c1" using w assms(1)
    by (auto intro!: op_intros split: if_splits option.splits prod.splits)
  then show ?thesis
    unfolding readFromConnection_turn_def Some option.case w Let_def
    using read_frame[OF assms(2)] by (auto intro!: op_intros split: read_error.split)
qed (simp add: readFromConnection_turn_def assms)

section \<open>Handlers that may start a goroutine\<close>

lemma submit: "R c (snd (submitIngress r p c))"
proof (cases "heap c r")
  case (Some s)
  let ?f = "\<lambda>s. s\<lparr>pendingIngress := pendingIngress s @ [p], pendingIngBytes := pendingIngBytes s + int (length p)\<rparr>"
  let ?c1 = "upd_stream r ?f c"
  show ?thesis
  proof (cases "ingressActive s \<and> isOpen s \<and> pendingIngBytes s + int (length p) \<le> maxPendingQueueBytes c")
    case True
    then have "moves c r ?f" using Some by (auto simp: moves_def stream_moves)
    then have 1: "R c ?c1" by (rule move)
    have 2: "R c (upd_stream r (\<lambda>s. s\<lparr>ingressWriting := True\<rparr>) ?c1)" (is "R c ?c2")
      by (rule upd[OF 1]) (simp add: moves_def stream_moves)
    have "may_start ?c2 (GoIngressWriter r)" using Some by (simp add: heap_upd_stream may_start_def)
    then have "R c (spawn (GoIngressWriter r) ?c2)" by (rule trans[OF 2 start])
    then show ?thesis using True Some 1 by (simp add: submitIngress_def Let_def)
  qed (auto simp: submitIngress_def Some intro!: op_intros)
qed (simp add: submitIngress_def refl)

lemma queue_ingress: "R c (snd (queueIngressOwned r p c))"
  using submit by (auto simp: queueIngressOwned_def refl split: option.split)

lemma use_credit: "R c0 c \<Longrightarrow> R c0 (use_credit i r c)"
  by (auto simp: use_credit_def moves_def stream_moves Let_def intro!: op_intros split: option.split)

lemma finish: "R c (snd (handleData_finish ok i p r c))"
proof (cases "heap c r")
  case (Some s)
  consider (direct) "connReadyDone s" "\<not> (st_streamType s = streamTypeTCP \<and> ingressActive s)"
    | (queue) "connReadyDone s" "st_streamType s = streamTypeTCP \<and> ingressActive s" | (wait) "\<not> connReadyDone s"
    by blast
  then show ?thesis
  proof cases
    case queue
    then show ?thesis using Some queue_ingress[of c r p]
      by (auto simp: handleData_finish_def intro: use_credit split: prod.split bool.split)
  next
    case direct
    have w: "moves c r (target_written p)" by (simp add: moves_def r_into_rtranclp stream_move_written)
    have "R c (upd_stream r (target_written p) c)" by (rule move[OF w])
    then show ?thesis using direct Some
      by (auto simp: handleData_finish_def Let_def intro!: use_credit op_intros)
  next
    case wait
    then show ?thesis using Some
      by (auto simp: handleData_finish_def moves_def maxPendingData_def intro!: op_intros stream_moves)
  qed
qed (simp add: handleData_finish_def refl)

lemma twisp_close: "R c0 c \<Longrightarrow> R c0 (twisp_close t reason c)"
  using trans[OF _ forget] by (auto simp: twisp_close_def intro!: op_intros split: option.split)

lemma unknown: "R c0 c \<Longrightarrow> R c0 (data_unknown ok i p c)"
  by (auto simp: data_unknown_def intro!: op_intros twisp_close split: option.split prod.split)

lemma lookup: "R c (snd (handleData_lookup ok i p c))"
proof -
  let ?c = "c\<lparr>ingressBytes := ingressBytes c + of_nat (length p)\<rparr>"
  have 0: "R c ?c" by (intro op_intros)
  have "R c (cache_store i r ?c)" if "streams c i = Some r" for r
    using trans[OF 0 cache[of ?c i r]] that by simp
  then show ?thesis using 0
    by (auto simp: handleData_lookup_def Let_def intro!: unknown split: option.split)
qed

lemma wait: "R c0 c \<Longrightarrow> R c0 (snd (handleData_wait now now' stopped p c))"
  by (auto simp: handleData_wait_def intro!: op_intros split: option.split prod.split)

lemma data: "R c (snd (handleDataPacket env i p c))"
proof -
  obtain res c1 where l: "handleData_lookup (pe_write_ok env) i p c = (res, c1)" by fastforce
  then have 1: "R c c1" using lookup[of c "pe_write_ok env" i p] by simp
  obtain ok c2 where w: "handleData_wait (pe_clock env 2) (pe_clock env 3) (pe_stopped env) p c1 = (ok, c2)" by fastforce
  then have 2: "R c c2"
    using wait[OF 1, of "pe_clock env 2" "pe_clock env 3" "pe_stopped env" p] by simp
  show ?thesis using 1 2 trans[OF 2 finish]
    by (simp add: handleDataPacket_def l w split: data_outcome.split bool.split)
qed

lemma close_packet: "R c (handleClosePacket i p c)"
  by (auto simp: handleClosePacket_def may_start_def intro!: op_intros start split: option.split)

lemma resize: "R c (handleResize i p c)"
  by (auto simp: handleResize_def intro!: op_intros split: option.split)

lemma fold_op: "(\<And>c0 c x. R c0 c \<Longrightarrow> R c0 (f x c)) \<Longrightarrow> R c0 c \<Longrightarrow> R c0 (fold f xs c)"
  by (induction xs arbitrary: c) simp_all

lemma delete_all: "R c (deleteAllWispStreams refs trefs c)"
proof -
  have fin: "R c0 (upd_globals (\<lambda>g. g\<lparr>g_active := a g, g_totalIngressBytes := b g, g_totalEgressBytes := d g,
      g_Connections := e g, g_Signature := h g\<rparr>) c')" if "R c0 c'" for c0 c' a b d e h
    using that by (erule_tac after) (simp_all add: frame_simps, cases "globals c'", simp_all add: upd_globals_def)
  show ?thesis unfolding deleteAllWispStreams_def Let_def
    by (rule fin, rule fold_op, erule twisp_close, rule fold_op, erule close', rule frames(1)[OF refl])
qed

lemma source: "R c0 c \<Longrightarrow> R c0 (snd (source_allowed now c))"
  by (auto simp: source_allowed_def intro!: op_intros split: option.split prod.split)

end

text \<open>Relations that leave the shared state open hold of the connecting goroutine too.\<close>

locale goroutine_ops_open = goroutine_ops +
  assumes open_globals: "R c (c\<lparr>globals := gl\<rparr>)"
begin

lemma shared_any [op_intros]: "R c0 c \<Longrightarrow> R c0 (c\<lparr>globals := gl\<rparr>)"
  by (rule trans[OF _ open_globals])

lemma globals_any [op_intros]: "R c0 c \<Longrightarrow> R c0 (upd_globals g c)" "R c0 c \<Longrightarrow> R c0 (releaseSyn q c)"
  by (simp_all add: upd_globals_def releaseSyn_def shared_any)

lemma limits: "connect_limits env t port host n c = (res, c') \<Longrightarrow> R c0 c \<Longrightarrow> R c0 c'"
  by (auto simp: connect_limits_def allow_window_def Let_def intro!: op_intros
      split: option.splits prod.splits if_splits)

lemma plan:
  assumes "handleConnect_plan env r t port host c = (plan, c')" shows "R c c'"
proof -
  let ?h = "NormalizeTargetHostname (ulower env) host"
  let ?c = "upd_stream r (\<lambda>s. s\<lparr>st_hostname := ?h\<rparr>) c"
  have 0: "R c ?c" by (rule move) (simp add: moves_def stream_moves)
  have rej: "R c c'" if "reject_connect r reason c2 = (plan, c')" "R c c2" for reason c2
    using reject[OF that(2), of r reason] that(1) by simp
  show ?thesis
    using assms unfolding handleConnect_plan_def Let_def
    by (auto simp: moves_def stream_moves intro!: rej 0 op_intros elim!: rej limits
        split: if_splits prod.splits sum.splits)
qed

lemma dialled:
  assumes "R c0 c" shows "R c0 (snd (handleConnect_dialled env r plan err c))"
proof (cases plan)
  case (ConnectDial isTCP destination host via syn)
  define c2 where "c2 = releaseSyn syn (upd_stream r (\<lambda>s. if err = None then s\<lparr>st_conn := ConnOpen\<rparr> else s) c)"
  define portNum where "portNum = (case heap c2 r of None \<Rightarrow> 0 | Some s \<Rightarrow> st_portNum s)"
  obtain m c3 where mc: "(case globals c2 of
      None \<Rightarrow> (False, c2)
    | Some g \<Rightarrow> if isTCP \<and> g_Signature g \<noteq> None then
        (case signature_dial (clock env 7) (connID c2) host portNum (err = None) (g_Signature g) of
           (m, sigs) \<Rightarrow> (m, c2\<lparr>globals := Some (g\<lparr>g_Signature := sigs\<rparr>)\<rparr>))
      else (False, c2)) = (m, c3)" by (rule prod.exhaust)
  have "R c0 c2" unfolding c2_def using assms by (intro op_intros) (simp_all add: moves_def stream_moves)
  then have 3: "R c0 c3" using mc
    by (auto intro!: op_intros split: option.splits prod.splits if_splits)
  show ?thesis
    unfolding handleConnect_dialled_def ConnectDial connect_plan.case Let_def
      c2_def[symmetric] portNum_def[symmetric] mc
    using 3 by (auto simp: moves_def stream_moves intro!: op_intros split: option.split)
qed (simp add: handleConnect_dialled_def assms)

end

end
