(* ===== verification/Conn_Quiet.thy ===== *)
theory Conn_Quiet
  imports Conn_Ops
begin

text \<open>
  Every operation of the streams' goroutines and every packet handler but two is quiet: the
  operations of a connection, interpreted for the relation \<open>quiet\<close>. The two are the opening of a
  stream and the answer to INFO.
\<close>

interpretation q: goroutine_ops_open quiet
proof unfold_locales
  show "quiet c (c\<lparr>globals := gl\<rparr>)" for c gl
    by (rule quiet_same) (simp_all add: conn_core_def conn_auth_def conn_rest_def)
qed (auto intro: quiet_trans quiet_same quiet_upd_stream quiet_stream_close quiet_spawn quiet_cache_store
       quiet_upd_twisp quiet_forget)

end
