(* ===== verification/Client_Ip.thy ===== *)
theory Client_Ip
  imports Egress
begin

unbundle bit_operations_syntax

text \<open>
  \<^verbatim>\<open>wisp/clientip.go\<close> and the list of trusted proxies that
  \<^verbatim>\<open>InitResolver\<close> (\<^verbatim>\<open>wisp/wisp.go\<close>) builds from the configuration. Of a
  request only \<^verbatim>\<open>RemoteAddr\<close> and \<^verbatim>\<open>Header.Get\<close> are read: they are the
  arguments \<open>remoteAddr\<close> and \<open>header\<close>.
\<close>

section \<open>The client's address\<close>

definition ipInAny :: "ip \<Rightarrow> ip_net list \<Rightarrow> bool" where
  "ipInAny ip nets = list_ex (\<lambda>n. IPNet_Contains n ip) nets"

text \<open>The inner loop over the parts of one header, from the last to the first.\<close>

fun pick_candidate :: "ip_net list \<Rightarrow> string list \<Rightarrow> ip option" where
  "pick_candidate trusted [] = None"
| "pick_candidate trusted (part # parts) =
     (let candidate = ParseIP (trim_space part) in
      if candidate = [] then pick_candidate trusted parts
      else if ipInAny candidate trusted then pick_candidate trusted parts
      else Some candidate)"

fun scan_headers :: "(string \<Rightarrow> string) \<Rightarrow> ip_net list \<Rightarrow> string list \<Rightarrow> ip option" where
  "scan_headers header trusted [] = None"
| "scan_headers header trusted (h # hs) =
     (if header h = [] then scan_headers header trusted hs
      else (case pick_candidate trusted (rev (split_char CHR '','' (header h))) of
              Some ip \<Rightarrow> Some ip
            | None \<Rightarrow> scan_headers header trusted hs))"

definition ResolveClientIP :: "string \<Rightarrow> (string \<Rightarrow> string) \<Rightarrow> ip_net list \<Rightarrow> string list \<Rightarrow> ip" where
  "ResolveClientIP remoteAddr header trusted headers =
     (let host = (case SplitHostPort remoteAddr of None \<Rightarrow> remoteAddr | Some (h, _) \<Rightarrow> h);
          peer = ParseIP host
      in if peer = [] then IPv4zero
         else if \<not> ipInAny peer trusted then peer
         else (case scan_headers header trusted headers of Some ip \<Rightarrow> ip | None \<Rightarrow> peer))"

section \<open>The trusted proxies of a configuration\<close>

definition proxy_net :: "string \<Rightarrow> ip_net option" where
  "proxy_net t =
     (let entry = (if CHR ''/'' \<notin> set t \<and> ParseIP t \<noteq> []
                   then t @ ''/'' @ dec_digits (if To4 (ParseIP t) = [] then 128 else 32)
                   else t)
      in map_option snd (ParseCIDR entry))"

definition trusted_nets :: "string list \<Rightarrow> ip_net list" where
  "trusted_nets ts = concat (map (\<lambda>t. case proxy_net t of None \<Rightarrow> [] | Some n \<Rightarrow> [n]) ts)"

section \<open>Lemmas\<close>

lemma pick_candidate_Some:
  assumes "pick_candidate trusted parts = Some ip"
  obtains pre part post where "parts = pre @ part # post" "ip = ParseIP (trim_space part)" "ip \<noteq> []"
    "\<not> ipInAny ip trusted" "\<forall>p \<in> set pre. ParseIP (trim_space p) = [] \<or> ipInAny (ParseIP (trim_space p)) trusted"
  using assms
proof (induction parts arbitrary: thesis)
  case Nil
  then show ?case by simp
next
  case (Cons part parts)
  show ?case
  proof (cases "ParseIP (trim_space part) = [] \<or> ipInAny (ParseIP (trim_space part)) trusted")
    case True
    then have "pick_candidate trusted parts = Some ip" using Cons.prems(2) by (auto simp: Let_def split: if_splits)
    from Cons.IH[OF _ this] obtain pre part' post where
      "parts = pre @ part' # post" "ip = ParseIP (trim_space part')" "ip \<noteq> []"
      "\<not> ipInAny ip trusted" "\<forall>p \<in> set pre. ParseIP (trim_space p) = [] \<or> ipInAny (ParseIP (trim_space p)) trusted"
      by blast
    then show ?thesis using Cons.prems(1)[of "part # pre" part' post] True by auto
  next
    case False
    then show ?thesis using Cons.prems(1)[of "[]" part parts] Cons.prems(2) by (auto simp: Let_def)
  qed
qed

lemma scan_headers_Some:
  "scan_headers header trusted hs = Some ip \<Longrightarrow>
     \<exists>h \<in> set hs. pick_candidate trusted (rev (split_char CHR '','' (header h))) = Some ip"
  by (induction hs) (auto split: if_splits option.splits)

lemma ParseCIDR_slash:
  assumes "CHR ''/'' \<notin> set t" "ParseIP t \<noteq> []" "n \<le> addr_bits t" "n \<in> {32, 128}"
  shows "ParseCIDR (t @ ''/'' @ dec_digits n) =
    Some (ParseIP t, \<lparr>net_IP = IP_Mask (ParseIP t) (CIDRMask n (addr_bits t)), net_Mask = CIDRMask n (addr_bits t)\<rparr>)"
proof -
  have tw: "takeWhile (\<lambda>c. c \<noteq> CHR ''/'') (t @ CHR ''/'' # u) = t" for u
  proof -
    have "takeWhile (\<lambda>c. c \<noteq> CHR ''/'') (t @ CHR ''/'' # u) =
        t @ takeWhile (\<lambda>c. c \<noteq> CHR ''/'') (CHR ''/'' # u)"
      using assms(1) by (intro takeWhile_append2) auto
    then show ?thesis by simp
  qed
  have "dec_digits 32 = ''32''" "dec_digits 128 = ''128''" by code_simp+
  moreover have "dtoi 0 ''32'' = Some 32" "dtoi 0 ''128'' = Some 128"
    by (simp_all add: is_digit_def)
  ultimately have "dtoi 0 (dec_digits n) = Some n" using assms(4) by auto
  then show ?thesis
    using assms by (simp add: ParseCIDR_def Let_def tw dec_digits_nonempty)
qed

lemma CIDRMask_full: "CIDRMask (8 * k) (8 * k) = replicate k 0xff"
  by (rule nth_equalityI) (auto simp: CIDRMask_def mask_byte_def)

lemma parseIPv4Fields_length:
  "parseIPv4Fields prev val n flds s = Some r \<Longrightarrow> length flds \<le> 3 \<Longrightarrow> length r = 4"
  by (induction prev val n flds s arbitrary: r rule: parseIPv4Fields.induct)
     (auto simp: Let_def split: if_splits)

lemma parseIPv6_loop_step:
  assumes "parseIPv6_loop (Suc fuel) ip e s = Some (ip', e', r)"
  shows "(\<exists>v. length ip + 4 \<le> 16 \<and> parseIPv4 s = Some v \<and> ip' = ip @ v) \<or> (\<exists>a b. ip' = ip @ [a, b]) \<or>
    (\<exists>a b e2 s2. length ip + 2 < 16 \<and> parseIPv6_loop fuel (ip @ [a, b]) e2 s2 = Some (ip', e', r))"
proof -
  obtain acc off rest where h: "parse_hex 0 0 s = Some (acc, off, rest)" "off \<noteq> 0"
    using assms by (auto split: option.splits if_splits)
  let ?ip = "ip @ [of_nat (acc div 256), of_nat acc]"
  show ?thesis
  proof (cases "rest \<noteq> [] \<and> hd rest = CHR ''.''")
    case True
    then show ?thesis using assms h by (simp split: if_splits option.splits)
  next
    case False
    then have "(case rest of [] \<Rightarrow> Some (?ip, e, [])
        | c # s1 \<Rightarrow>
            if c \<noteq> CHR '':'' then None else if s1 = [] then None
            else if hd s1 = CHR '':'' then
              (if e \<noteq> None then None else if tl s1 = [] then Some (?ip, Some (length ?ip), [])
               else if length ?ip < 16 then parseIPv6_loop fuel ?ip (Some (length ?ip)) (tl s1)
               else Some (?ip, Some (length ?ip), tl s1))
            else if length ?ip < 16 then parseIPv6_loop fuel ?ip e s1 else Some (?ip, e, s1)) = Some (ip', e', r)"
      using assms unfolding parseIPv6_loop.simps h(1) option.case prod.case Let_def
      by (simp only: h(2) if_False)
    then show ?thesis by (simp split: list.splits if_splits; blast)
  qed
qed

lemma parseIPv6_loop_length:
  "parseIPv6_loop fuel ip e s = Some (ip', e', r) \<Longrightarrow> even (length ip) \<Longrightarrow> length ip < 16 \<Longrightarrow> length ip' \<le> 16"
proof (induction fuel arbitrary: ip e s)
  case (Suc fuel)
  have "length ip \<noteq> 15" using Suc.prems(2) by auto
  then have le: "length ip + 2 \<le> 16" using Suc.prems(3) by linarith
  have v4: "length v \<le> 4" if "parseIPv4 s = Some v" for v
    using that parseIPv4Fields_length by (force simp: parseIPv4_def)
  from parseIPv6_loop_step[OF Suc.prems(1)] show ?case
  proof (elim disjE exE conjE)
    fix a b e2 s2
    assume "length ip + 2 < 16" "parseIPv6_loop fuel (ip @ [a, b]) e2 s2 = Some (ip', e', r)"
    then show ?thesis using Suc.IH[of "ip @ [a, b]" e2 s2] Suc.prems(2) by simp
  qed (use le v4 in auto)
qed simp

lemma parseIPv6_body_length: "parseIPv6_body s = Some ip \<Longrightarrow> length ip = 16"
  by (auto simp: parseIPv6_body_def Let_def dest: parseIPv6_loop_length
      split: if_splits option.splits prod.splits)

text \<open>A text that parses is either dotted, with its four octets mapped, or has colons.\<close>

lemma ParseIP_cases:
  assumes "ParseIP t \<noteq> []"
  obtains (dotted) a b c d where "addr_bits t = 32" "ParseIP t = v4InV6Prefix @ [a, b, c, d]"
  | (colons) "addr_bits t = 128" "length (ParseIP t) = 16"
proof -
  obtain c cs where c: "dropWhile (\<lambda>c. c \<noteq> CHR ''.'' \<and> c \<noteq> CHR '':'' \<and> c \<noteq> CHR ''%'') t = c # cs"
    using assms by (auto simp: ParseIP_def split: list.splits)
  show thesis
  proof (cases "c = CHR ''.''")
    case True
    then obtain v where v: "parseIPv4 t = Some v" "ParseIP t = v4InV6Prefix @ v"
      using assms c by (auto simp: ParseIP_def split: option.splits)
    then have "length v = 4" using parseIPv4Fields_length by (force simp: parseIPv4_def)
    then obtain a b c' d where "v = [a, b, c', d]" by (rule bytes4_cases)
    then show thesis using dotted v c True by (simp add: addr_bits_def)
  next
    case False
    then have "\<exists>ip. parseIPv6_body t = Some ip \<and> ParseIP t = ip"
      using assms c by (auto simp: ParseIP_def split: option.splits if_splits)
    then show thesis using colons parseIPv6_body_length c False by (auto simp: addr_bits_def)
  qed
qed

definition canon_ip :: "ip \<Rightarrow> ip" where
  "canon_ip x = (if To4 x \<noteq> [] then To4 x else x)"

lemma byte_and_ff [simp]: "(b :: byte) AND 0xff = b"
proof -
  have "(0xff :: byte) = - 1" by simp
  then show ?thesis by (simp only: and.right_neutral)
qed

lemma mask_full: "length x = k \<Longrightarrow> map2 (AND) x (replicate k (0xff :: byte)) = x"
  by (rule nth_equalityI) auto

lemma Contains_full:
  assumes "networkNumberAndMask n = (nn, replicate k 0xff)" "length nn = k"
  shows "IPNet_Contains n x \<longleftrightarrow> canon_ip x = nn"
proof -
  have "IPNet_Contains n x \<longleftrightarrow> length (canon_ip x) = k \<and> (\<forall>i < k. nn ! i = canon_ip x ! i)"
    using assms by (auto simp: IPNet_Contains_def canon_ip_def[symmetric] list_all_iff Let_def)
  also have "\<dots> \<longleftrightarrow> canon_ip x = nn" using assms(2) by (auto simp: list_eq_iff_nth_eq)
  finally show ?thesis .
qed

text \<open>An entry without a prefix length trusts exactly its own address, unless it is a mapped one.\<close>

lemma proxy_net_exact:
  assumes "CHR ''/'' \<notin> set t" "ParseIP t \<noteq> []" "addr_bits t = 32 \<or> To4 (ParseIP t) = []"
  shows "\<exists>n. proxy_net t = Some n \<and> (\<forall>x. IPNet_Contains n x \<longleftrightarrow> canon_ip x = canon_ip (ParseIP t))"
  using assms(2)
proof (cases rule: ParseIP_cases)
  case (dotted a b c d)
  let ?n = "\<lparr>net_IP = [a, b, c, d], net_Mask = replicate 4 0xff\<rparr>"
  have p12: "length v4InV6Prefix = 12" by (simp add: v4InV6Prefix_def)
  have "IP_Mask (v4InV6Prefix @ [a, b, c, d]) (replicate 4 0xff) = [a, b, c, d]"
    using mask_full[of "[a, b, c, d]" 4] by (simp add: IP_Mask_def Let_def p12)
  then have "proxy_net t = Some ?n"
    using assms(1,2) dotted ParseCIDR_slash[OF assms(1,2), of 32] CIDRMask_full[of 4]
    by (simp add: proxy_net_def Let_def)
  moreover have "networkNumberAndMask ?n = ([a, b, c, d], replicate 4 0xff)"
    by (simp add: networkNumberAndMask_def)
  ultimately show ?thesis using dotted Contains_full[of ?n "[a, b, c, d]" 4]
    by (auto simp: canon_ip_def)
next
  case colons
  then have v6: "To4 (ParseIP t) = []" using assms(3) by simp
  let ?n = "\<lparr>net_IP = ParseIP t, net_Mask = replicate 16 0xff\<rparr>"
  have "IP_Mask (ParseIP t) (replicate 16 0xff) = ParseIP t"
    using colons mask_full[of "ParseIP t" 16] by (simp add: IP_Mask_def Let_def)
  then have "proxy_net t = Some ?n"
    using assms(1,2) colons v6 ParseCIDR_slash[OF assms(1,2), of 128] CIDRMask_full[of 16]
    by (simp add: proxy_net_def Let_def)
  moreover have "networkNumberAndMask ?n = (ParseIP t, replicate 16 0xff)"
    using v6 colons by (simp add: networkNumberAndMask_def)
  ultimately show ?thesis using colons v6 Contains_full[of ?n "ParseIP t" 16]
    by (auto simp: canon_ip_def)
qed

section \<open>Properties\<close>

text \<open>
  C24: A client that does not come from a trusted proxy is its own address whatever headers it
  sends; and a header gives the address only of a part that parses, is not itself a trusted proxy,
  and has nothing but trusted proxies and unreadable parts to its right.
\<close>

theorem ResolveClientIP_no_spoofing:
  assumes "ParseIP (case SplitHostPort remoteAddr of None \<Rightarrow> remoteAddr | Some (h, _) \<Rightarrow> h) = peer" and "peer \<noteq> []"
    and "ResolveClientIP remoteAddr header trusted headers = ip"
  shows "ip = peer \<or>
    (ipInAny peer trusted \<and> \<not> ipInAny ip trusted \<and>
     (\<exists>h \<in> set headers. \<exists>left part right.
        split_char CHR '','' (header h) = left @ part # right \<and> ParseIP (trim_space part) = ip \<and>
        (\<forall>p \<in> set right. ParseIP (trim_space p) = [] \<or> ipInAny (ParseIP (trim_space p)) trusted)))"
proof (cases "ip = peer")
  case False
  then have tr: "ipInAny peer trusted" and "scan_headers header trusted headers = Some ip"
    using assms by (auto simp: ResolveClientIP_def Let_def split: if_splits option.splits prod.splits)
  then obtain h where h: "h \<in> set headers" "pick_candidate trusted (rev (split_char CHR '','' (header h))) = Some ip"
    using scan_headers_Some by blast
  from h(2) obtain pre part post where p: "rev (split_char CHR '','' (header h)) = pre @ part # post"
    "ip = ParseIP (trim_space part)" "\<not> ipInAny ip trusted"
    "\<forall>p \<in> set pre. ParseIP (trim_space p) = [] \<or> ipInAny (ParseIP (trim_space p)) trusted"
    by (rule pick_candidate_Some)
  have "split_char CHR '','' (header h) = rev post @ part # rev pre"
    using arg_cong[OF p(1), of rev] by simp
  then show ?thesis using tr h(1) p
    by (intro disjI2 conjI bexI[of _ h] exI[of _ "rev post"] exI[of _ part] exI[of _ "rev pre"]) auto
qed simp

theorem ResolveClientIP_no_spoofing_witness:
  "ResolveClientIP ''10.0.0.1'' (\<lambda>h. if h = ''X-Forwarded-For'' then ''8.8.8.8, 1.2.3.4'' else '''') [] [''X-Forwarded-For'']
     = v4InV6Prefix @ [10, 0, 0, 1]"
proof -
  have peer: "ParseIP (case SplitHostPort ''10.0.0.1'' of None \<Rightarrow> ''10.0.0.1'' | Some (h, _) \<Rightarrow> h) = v4InV6Prefix @ [10, 0, 0, 1]"
    by code_simp
  from ResolveClientIP_no_spoofing[OF peer _ refl,
      of "\<lambda>h. if h = ''X-Forwarded-For'' then ''8.8.8.8, 1.2.3.4'' else ''''" "[]" "[''X-Forwarded-For'']"]
  show ?thesis by (simp add: v4InV6Prefix_def ipInAny_def)
qed

text \<open>
  For trusted-proxy entries that are single addresses in their own notation, the networks
  the server trusts contain exactly those addresses, in either form.
\<close>

theorem trusted_nets_exact:
  assumes "\<forall>t \<in> set ts. CHR ''/'' \<notin> set t \<and> ParseIP t \<noteq> [] \<and> (addr_bits t = 32 \<or> To4 (ParseIP t) = [])"
  shows "ipInAny x (trusted_nets ts) \<longleftrightarrow> canon_ip x \<in> (canon_ip \<circ> ParseIP) ` set ts"
  using assms
proof (induction ts)
  case Nil
  then show ?case by (simp add: ipInAny_def trusted_nets_def)
next
  case (Cons t ts)
  then obtain n where "proxy_net t = Some n" "\<And>x. IPNet_Contains n x \<longleftrightarrow> canon_ip x = canon_ip (ParseIP t)"
    using proxy_net_exact[of t] by auto
  then show ?case using Cons by (auto simp: ipInAny_def trusted_nets_def)
qed

theorem trusted_nets_exact_witness:
  "ipInAny [10, 0, 0, 1] (trusted_nets [''10.0.0.1'', ''::1''])"
proof -
  have p: "ParseIP ''10.0.0.1'' = v4InV6Prefix @ [10, 0, 0, 1]" "ParseIP ''::1'' = IPv6loopback"
    "addr_bits ''10.0.0.1'' = 32" "To4 IPv6loopback = []" by code_simp+
  have "\<forall>t \<in> set [''10.0.0.1'', ''::1'']. CHR ''/'' \<notin> set t \<and> ParseIP t \<noteq> [] \<and> (addr_bits t = 32 \<or> To4 (ParseIP t) = [])"
    using p by (simp add: IPv6loopback_def)
  from trusted_nets_exact[OF this, of "[10, 0, 0, 1]"] p show ?thesis
    by (simp add: canon_ip_def)
qed

text \<open>
  An IPv4-mapped entry is turned into a network of 32 bits of the IPv6 form: the server then
  trusts headers from the IPv6 loopback address and not from the address that was configured.
\<close>

theorem trusted_nets_mapped_entry:
  "ipInAny IPv6loopback (trusted_nets [''::ffff:10.0.0.1'']) \<and>
   \<not> ipInAny [10, 0, 0, 1] (trusted_nets [''::ffff:10.0.0.1''])"
proof -
  have "trusted_nets [''::ffff:10.0.0.1''] =
      [\<lparr>net_IP = replicate 16 0, net_Mask = replicate 4 0xff @ replicate 12 0\<rparr>]"
    by (simp add: trusted_nets_def proxy_net_def To4_def ParseCIDR_eval dec_digits.simps upt_conv_Cons)
  then show ?thesis
    by (simp add: ipInAny_def Contains_eval IPv6loopback_def replicate_numeral_Cons)
qed

text \<open>
  An entry with a space around it passes the validation of the configuration, and the
  server trusts nothing for it.
\<close>

theorem trusted_nets_untrimmed_entry:
  "first_bad_proxy ['' 10.0.0.1''] = None \<and> trusted_nets ['' 10.0.0.1''] = []"
  by (simp add: trusted_nets_def proxy_net_def ParseCIDR_eval trim_space_ascii is_ascii_def ascii_space_def)

end
