(* ===== verification/Handler.thy ===== *)
theory Handler
  imports Connection Client_Ip
begin

text \<open>
  \<^verbatim>\<open>wisp/wisp.go\<close>, and \<^verbatim>\<open>Stats\<close> and \<^verbatim>\<open>Shutdown\<close> of
  \<^verbatim>\<open>wisp/runtime.go\<close>: the HTTP handler that admits a connection. Of a request the
  handler reads the remote address and headers; whether the WebSocket upgrade succeeds is the
  argument \<open>upgrade_ok\<close> (the upgrade is the library \<^verbatim>\<open>gws\<close>).
\<close>

section \<open>The server\<close>

record server =
  srv_config :: Config
  srv_DNSCache :: "dns_cache option"
  srv_Globals :: "Globals option"
  srv_connIDCounter :: nat

definition InitResolver :: "(nat \<Rightarrow> nat) \<Rightarrow> server \<Rightarrow> server" where
  "InitResolver ulow s =
     (let cfg = srv_config s in
      s\<lparr>srv_DNSCache := Some (NewDNSCache ulow (DnsServers cfg) 0 (DnsMethod cfg) (DnsResultOrder cfg)),
        srv_config := cfg\<lparr>trustedProxyNets := trusted_nets (TrustedProxies cfg)\<rparr>\<rparr>)"

text \<open>What \<^verbatim>\<open>createWispHandler\<close> does before it returns the handler.\<close>

definition createWispHandler :: "(nat \<Rightarrow> nat) \<Rightarrow> gotime \<Rightarrow> store_read \<Rightarrow> server \<Rightarrow> server" where
  "createWispHandler ulow now file s =
     (let s1 = InitResolver ulow s
      in s1\<lparr>srv_Globals := Some (BuildGlobals now file (srv_config s1) (srv_Globals s1))\<rparr>)"

definition NewWispHandler ::
  "(nat \<Rightarrow> nat) \<Rightarrow> (string \<Rightarrow> parsed_url option) \<Rightarrow> gotime \<Rightarrow> store_read \<Rightarrow> server \<Rightarrow> config_error + server" where
  "NewWispHandler ulow url_parse now file s =
     (case Validate ulow url_parse (Some (srv_config s)) of
        Some e \<Rightarrow> Inl e
      | None \<Rightarrow> Inr (createWispHandler ulow now file s))"

text \<open>\<^verbatim>\<open>CreateWispHandler\<close> turns the error into a handler that only reports it.\<close>

datatype wisp_handler = ServingHandler server | InvalidHandler nat string

definition CreateWispHandler ::
  "(nat \<Rightarrow> nat) \<Rightarrow> (string \<Rightarrow> parsed_url option) \<Rightarrow> gotime \<Rightarrow> store_read \<Rightarrow> server \<Rightarrow> wisp_handler" where
  "CreateWispHandler ulow url_parse now file s =
     (case NewWispHandler ulow url_parse now file s of
        Inr srv \<Rightarrow> ServingHandler srv
      | Inl _ \<Rightarrow> InvalidHandler 500 ''invalid Wisp server configuration'')"

definition requiresV2 :: "Config \<Rightarrow> bool" where
  "requiresV2 cfg = (PasswordAuthRequired cfg \<or> EnableTwisp cfg)"

section \<open>A request\<close>

record http_request =
  hr_RemoteAddr :: string
  hr_Header :: "string \<Rightarrow> string"

datatype response =
    RespNotWebSocket nat string
  | RespTooManyRequests int
  | RespServiceUnavailable
  | RespUpgradeRequired
  | RespUpgradeFailed
  | RespAccepted wispConnection

definition new_connection ::
  "Config \<Rightarrow> dns_cache option \<Rightarrow> Globals option \<Rightarrow> string \<Rightarrow> nat \<Rightarrow> bool \<Rightarrow> wispConnection" where
  "new_connection cfg dns g ip cid v2 =
     \<lparr>config = cfg, isClosed = False, pendingWrites = [], pendingBytes = 0, writeActive = False, done_sent = [],
      DNSCache = dns, globals = g, remoteIP = ip, connID = cid, isV2 = v2, handshakePending = False,
      streamConfirm = False, authenticated = False, streams = Map.empty, heap = Map.empty, next_ref = 0,
      streamCache = Map.empty, streamCount = 0, twispStreams = newTwisp, twisp_heap = Map.empty,
      violations = 0, ingressBytes = 0, egressBytes = 0, spawned = []\<rparr>"

text \<open>\<^verbatim>\<open>v2Handshake\<close> up to the read loop, and what a connection of version 1 sends first.\<close>

definition v2Handshake :: "wispConnection \<Rightarrow> wispConnection" where
  "v2Handshake c = sendRawFrame (buildServerInfoPacket (config c)) (c\<lparr>handshakePending := True\<rparr>)"

definition start_connection :: "wispConnection \<Rightarrow> wispConnection" where
  "start_connection c = (if isV2 c then v2Handshake c else sendPacket 0 (BufferRemainingLength (config c)) c)"

definition release_slot :: "Globals option \<Rightarrow> Globals option" where
  "release_slot = map_option (\<lambda>g. g\<lparr>g_Connections := Semaphore_Release (g_Connections g)\<rparr>)"

definition serve :: "gotime \<Rightarrow> bool \<Rightarrow> http_request \<Rightarrow> server \<Rightarrow> response \<times> server" where
  "serve now upgrade_ok req s =
     (let cfg = srv_config s in
      if \<not> equal_fold_ascii (hr_Header req ''Upgrade'') ''websocket'' then
        (if NonWSResponse cfg = [] then (RespNotWebSocket 426 [], s) else (RespNotWebSocket 200 (NonWSResponse cfg), s))
      else
        (let trusted = (if ParseRealIP cfg then trustedProxyNets cfg else []);
             remote = IP_String (ResolveClientIP (hr_RemoteAddr req) (hr_Header req) trusted (TrustedHeaders cfg));
             (allowed, gs1) = (case srv_Globals s of
                None \<Rightarrow> (True, None)
              | Some g \<Rightarrow> (case SlidingWindow_Allow now remote (g_ConnectionRate g) of
                            (ok, w) \<Rightarrow> (ok, Some (g\<lparr>g_ConnectionRate := w\<rparr>))))
         in if \<not> allowed then (RespTooManyRequests (ConnectionWindowSeconds cfg), s\<lparr>srv_Globals := gs1\<rparr>)
            else
              (let (acquired, gs2) = (case gs1 of
                      None \<Rightarrow> (True, None)
                    | Some g \<Rightarrow> (case Semaphore_TryAcquire (g_Connections g) of
                                  (ok, sem) \<Rightarrow> (ok, Some (g\<lparr>g_Connections := sem\<rparr>))));
                   useV2 = (EnableV2 cfg \<and> hr_Header req ''Sec-WebSocket-Protocol'' \<noteq> [])
               in if \<not> acquired then (RespServiceUnavailable, s\<lparr>srv_Globals := gs2\<rparr>)
                  else if requiresV2 cfg \<and> \<not> useV2 then (RespUpgradeRequired, s\<lparr>srv_Globals := release_slot gs2\<rparr>)
                  else if \<not> upgrade_ok then (RespUpgradeFailed, s\<lparr>srv_Globals := release_slot gs2\<rparr>)
                  else
                    (let cid = Suc (srv_connIDCounter s);
                         gs3 = map_option (\<lambda>g. g\<lparr>g_active := cid # g_active g\<rparr>) gs2
                     in (RespAccepted (start_connection (new_connection cfg (srv_DNSCache s) gs3 remote cid useV2)),
                         s\<lparr>srv_Globals := gs3, srv_connIDCounter := cid\<rparr>)))))"

section \<open>Statistics and shutdown\<close>

record ServerStats =
  ActiveConnections :: int
  ActiveStreams :: int
  IngressBytes :: u64
  EgressBytes :: u64

text \<open>\<open>cs\<close> are the connections that the map of active connections yields.\<close>

definition Stats :: "Globals option \<Rightarrow> wispConnection list \<Rightarrow> ServerStats" where
  "Stats g cs =
     (case g of
        None \<Rightarrow> \<lparr>ActiveConnections = 0, ActiveStreams = 0, IngressBytes = 0, EgressBytes = 0\<rparr>
      | Some g \<Rightarrow>
          fold (\<lambda>c st. st\<lparr>ActiveConnections := ActiveConnections st + 1,
                          ActiveStreams := ActiveStreams st + streamCount c,
                          IngressBytes := IngressBytes st + ingressBytes c,
                          EgressBytes := EgressBytes st + egressBytes c\<rparr>) cs
            \<lparr>ActiveConnections = 0, ActiveStreams = 0, IngressBytes = g_totalIngressBytes g,
             EgressBytes = g_totalEgressBytes g\<rparr>)"

definition Shutdown :: "server \<Rightarrow> wispConnection list \<Rightarrow> server \<times> wispConnection list" where
  "Shutdown s cs =
     (let s1 = s\<lparr>srv_DNSCache := DNSCache_Close (srv_DNSCache s)\<rparr> in
      case srv_Globals s1 of
        None \<Rightarrow> (s1, cs)
      | Some g \<Rightarrow>
          (s1\<lparr>srv_Globals := Some (if g_stopped g then g else g\<lparr>g_stopped := True\<rparr>)\<rparr>, map conn_close cs))"

section \<open>Slots of connections\<close>

definition slots_taken :: "Globals option \<Rightarrow> int" where
  "slots_taken g = (case Option.bind g g_Connections of None \<Rightarrow> 0 | Some s \<Rightarrow> if sem_max s \<le> 0 then 0 else sem_current s)"

definition slots_ok :: "Globals option \<Rightarrow> bool" where
  "slots_ok g \<longleftrightarrow>
     (case Option.bind g g_Connections of
        None \<Rightarrow> True | Some s \<Rightarrow> 0 \<le> sem_current s \<and> sem_current s \<le> sem_max s \<and> sem_max s < 2 ^ 63)"

end
