(* ===== verification/Conn_Steps.thy ===== *)
theory Conn_Steps
  imports Conn_Quiet Handler
begin

text \<open>
  A connection under all interleavings of its read loop with the goroutines of its streams: the
  step relation, the states reachable from an accepted connection, and what holds in all of them.
\<close>

section \<open>The packets that are not quiet\<close>

lemma open_stream_inv:
  assumes "conn_inv c" shows "conn_inv (open_stream ulow i t port host c)"
proof (cases "streams c i")
  case None
  let ?r = "next_ref c" and ?s = "new_stream ulow i port host"
  let ?c = "c\<lparr>heap := (heap c)(?r \<mapsto> ?s), next_ref := Suc ?r, streams := (streams c)(i \<mapsto> ?r),
               streamCount := wrap32 (streamCount c + 1)\<rparr>"
  have inv: "finite (dom (streams c))" "streamCount c = wrap32 (int (card (dom (streams c))))"
    "\<And>i r. streams c i = Some r \<longleftrightarrow> open_as c r i" "\<And>r. ?r \<le> r \<Longrightarrow> heap c r = None"
    "\<And>k r. streamCache c k = Some r \<Longrightarrow> \<exists>i. open_as c r i \<and> cache_slot i = k"
    using assms unfolding conn_inv_def by auto
  have free: "heap c ?r = None" using inv(4) by simp
  then have no: "\<not> open_as c ?r j" for j by (simp add: open_as_def)
  have op: "open_as ?c r j \<longleftrightarrow> (r = ?r \<and> j = i) \<or> open_as c r j" for r j
    using free by (auto simp: open_as_def new_stream_def)
  have un: "\<not> open_as c r i" for r using inv(3)[of i r] None by simp
  have "card (dom (streams ?c)) = Suc (card (dom (streams c)))"
    using card_dom_upd_fresh[OF inv(1) None] by simp
  then have cnt: "streamCount ?c = wrap32 (int (card (dom (streams ?c))))"
    using wrap32_minus_wrap32(2)[of "int (card (dom (streams c)))"] by (simp add: inv(2) add.commute)
  have mp: "\<forall>j r. streams ?c j = Some r \<longleftrightarrow> open_as ?c r j"
  proof (intro allI)
    fix j r
    show "streams ?c j = Some r \<longleftrightarrow> open_as ?c r j"
      unfolding op using inv(3)[of j r] no[of j] un[of r] by (cases "j = i") auto
  qed
  have nx: "\<forall>r. next_ref ?c \<le> r \<longrightarrow> heap ?c r = None" using inv(4) by simp
  have ch: "\<forall>k r. streamCache ?c k = Some r \<longrightarrow> (\<exists>j. open_as ?c r j \<and> cache_slot j = k)"
    unfolding op using inv(5) by auto
  have "conn_inv ?c" unfolding conn_inv_def using inv(1) cnt mp nx ch by simp
  then show ?thesis using None
    by (simp add: open_stream_def Let_def conn_inv_write)
qed (use assms in \<open>auto simp: open_stream_def Let_def intro!: inv_intros\<close>)

lemma open_stream_frames:
  "conn_auth (open_stream ulow i t port host c) = conn_auth c"
  "dom (streams (open_stream ulow i t port host c)) \<subseteq> insert i (dom (streams c))"
proof -
  have "streams (sendClosePacket j b c') = streams c'" for j b and c' :: wispConnection
    using write_frame(9)[of j b c'] by (simp add: conn_core_eq)
  then show "dom (streams (open_stream ulow i t port host c)) \<subseteq> insert i (dom (streams c))"
    by (auto simp: open_stream_def Let_def spawn_def split: if_splits)
  show "conn_auth (open_stream ulow i t port host c) = conn_auth c"
    by (simp add: open_stream_def Let_def frame_simps) (simp add: conn_auth_def)
qed

text \<open>CONNECT: quiet, or the opening of a stream or terminal after quiet steps.\<close>

lemma source_allowed_core: "conn_core (snd (source_allowed now c)) = conn_core c"
  by (auto simp: source_allowed_def conn_core_def split: option.split prod.split)

lemma handleTwispConnect_cases:
  "quiet c (handleTwispConnect now i cmd c) \<or>
   (EnableTwisp (config c) \<and> isV2 c \<and> PasswordAuth (config c) \<and> authenticated c \<and>
    handleTwispConnect now i cmd c = spawn (GoTwisp i cmd) c)"
  by (auto simp: handleTwispConnect_def intro!: op_intros)

lemma handleConnectPacket_cases:
  obtains "quiet c (handleConnectPacket ulow clk i p c)"
  | c1 t port host where "quiet c c1" "conn_core c1 = conn_core c" "\<not> too_many_streams c"
      "handleConnectPacket ulow clk i p c = open_stream ulow i t port host c1"
  | c1 cmd where "quiet c c1" "EnableTwisp (config c)" "isV2 c" "PasswordAuth (config c)" "authenticated c"
      "handleConnectPacket ulow clk i p c = spawn (GoTwisp i cmd) c1"
proof -
  have rej: "quiet c (sendClosePacket i b c)" "quiet c (sendClosePacket i b (violation c))" for b
    by (intro op_intros)+
  obtain ok c1 where s: "source_allowed (clk 0) c = (ok, c1)" by fastforce
  then have q1: "quiet c c1" and core: "conn_core c1 = conn_core c"
    using q.source[of c c "clk 0"] source_allowed_core[of "clk 0" c] by simp_all
  have auth: "config c1 = config c" "isV2 c1 = isV2 c" "authenticated c1 = authenticated c"
    using q1 by (simp_all add: quiet_def conn_auth_def)
  show thesis
  proof (cases "length p < 3 \<or> i = 0 \<or> (uint16_le (take 2 (drop 1 p)) = 0 \<and> p ! 0 \<noteq> streamTypeTerm) \<or>
      string_of_bytes (drop 3 p) = [] \<or> \<not> valid_string (string_of_bytes (drop 3 p)) \<or> too_many_streams c")
    case True
    then show thesis using that(1) rej by (auto simp: handleConnectPacket_def Let_def)
  next
    case False
    show thesis
    proof (cases ok)
      case False
      then have "handleConnectPacket ulow clk i p c =
          sendClosePacket i closeReasonThrottled (repAddSource (clk 1) ''burstRate'' (violation c1))"
        using \<open>\<not> (length p < 3 \<or> _)\<close> s by (auto simp: handleConnectPacket_def Let_def)
      then show thesis using that(1) q1 by (simp add: op_intros)
    next
      case True
      show thesis
      proof (cases "p ! 0 = streamTypeTerm")
        case True
        let ?h = "string_of_bytes (drop 3 p)"
        have eq: "handleConnectPacket ulow clk i p c = handleTwispConnect (clk 1) i ?h c1"
          using \<open>\<not> (length p < 3 \<or> _)\<close> \<open>ok\<close> True s by (auto simp: handleConnectPacket_def Let_def)
        from handleTwispConnect_cases[of c1 "clk 1" i ?h] show thesis
        proof
          assume "quiet c1 (handleTwispConnect (clk 1) i ?h c1)"
          then show thesis using that(1) eq quiet_trans[OF q1] by simp
        qed (use that(3)[of c1 ?h] q1 eq auth in auto)
      next
        case False
        then have "handleConnectPacket ulow clk i p c =
            open_stream ulow i (p ! 0) (uint16_le (take 2 (drop 1 p))) (string_of_bytes (drop 3 p)) c1"
          using \<open>\<not> (length p < 3 \<or> _)\<close> \<open>ok\<close> s by (auto simp: handleConnectPacket_def Let_def)
        then show thesis using that(2)[OF q1 core] \<open>\<not> (length p < 3 \<or> _)\<close> by blast
      qed
    qed
  qed
qed

end
