(* ===== verification/Terminals.thy ===== *)
theory Terminals
  imports Connection
begin

text \<open>
  Terminal streams (\<^verbatim>\<open>wisp/twisp.go\<close>): the splitting of a command line, the start of a
  terminal, one turn of its reader, and its end. Starting the command on a pseudo-terminal is
  \<^verbatim>\<open>os/exec\<close> and the library \<^verbatim>\<open>pty\<close>: whether it succeeds is an argument. A terminal
  object lives in \<open>twisp_heap\<close> under a fresh reference; \<^verbatim>\<open>twispRegistry\<close> is the map
  \<open>twispStreams\<close>. \<^verbatim>\<open>wisp/windows.go\<close> replaces this file on Windows.
\<close>

section \<open>The command line\<close>

record shell_state =
  sh_args :: "string list"
  sh_current :: string
  sh_inSingle :: bool
  sh_inDouble :: bool
  sh_escaped :: bool

definition shell_start :: shell_state where
  "shell_start = \<lparr>sh_args = [], sh_current = [], sh_inSingle = False, sh_inDouble = False, sh_escaped = False\<rparr>"

definition shell_quote_char :: char where "shell_quote_char = CHR 0x27"
definition shell_double_char :: char where "shell_double_char = CHR 0x22"
definition shell_escape_char :: char where "shell_escape_char = CHR 0x5C"

text \<open>The body of the loop of \<^verbatim>\<open>splitShell\<close>, in the order of its conditions.\<close>

definition shell_char :: "char \<Rightarrow> shell_state \<Rightarrow> shell_state" where
  "shell_char ch st =
     (if sh_escaped st then st\<lparr>sh_current := sh_current st @ [ch], sh_escaped := False\<rparr>
      else if ch = shell_escape_char \<and> \<not> sh_inSingle st then st\<lparr>sh_escaped := True\<rparr>
      else if ch = shell_quote_char \<and> \<not> sh_inDouble st then st\<lparr>sh_inSingle := \<not> sh_inSingle st\<rparr>
      else if ch = shell_double_char \<and> \<not> sh_inSingle st then st\<lparr>sh_inDouble := \<not> sh_inDouble st\<rparr>
      else if ch = CHR '' '' \<and> \<not> sh_inSingle st \<and> \<not> sh_inDouble st then
        (if sh_current st \<noteq> [] then st\<lparr>sh_args := sh_args st @ [sh_current st], sh_current := []\<rparr> else st)
      else st\<lparr>sh_current := sh_current st @ [ch]\<rparr>)"

text \<open>\<open>None\<close> is \<^verbatim>\<open>io.ErrUnexpectedEOF\<close>.\<close>

definition splitShell :: "string \<Rightarrow> string list option" where
  "splitShell s =
     (let st = fold shell_char s shell_start;
          args = (if sh_current st \<noteq> [] then sh_args st @ [sh_current st] else sh_args st)
      in if sh_inSingle st \<or> sh_inDouble st then None else Some args)"

section \<open>The life of a terminal\<close>

definition twisp_start :: "u32 \<Rightarrow> twispStream" where
  "twisp_start streamId = \<lparr>tw_streamId = streamId, tw_isOpen = True, tw_size = (24, 80), tw_written = []\<rparr>"

definition handleTwisp :: "bool \<Rightarrow> u32 \<Rightarrow> string \<Rightarrow> wispConnection \<Rightarrow> wispConnection" where
  "handleTwisp started streamId command c =
     (case splitShell command of
        None \<Rightarrow> sendClosePacket streamId closeReasonInvalidInfo c
      | Some args \<Rightarrow>
          if args = [] then sendClosePacket streamId closeReasonInvalidInfo c
          else if \<not> started then sendClosePacket streamId closeReasonNetworkError c
          else (let t = next_ref c in
                spawn (GoPtyWaiter t) (spawn (GoPtyReader t)
                  (c\<lparr>twisp_heap := (twisp_heap c)(t \<mapsto> twisp_start streamId), next_ref := Suc t,
                     twispStreams := twisp_add streamId t (twispStreams c)\<rparr>))))"

text \<open>
  One turn of \<^verbatim>\<open>readPty\<close>: \<open>d\<close> are the bytes read behind the header room of \<open>buf\<close>;
  \<open>False\<close> when the goroutine returns.
\<close>

definition readPty_turn :: "nat \<Rightarrow> bytes \<Rightarrow> bytes \<Rightarrow> read_error \<Rightarrow> wispConnection \<Rightarrow> bool \<times> wispConnection" where
  "readPty_turn t buf d err c =
     (case twisp_heap c t of
        None \<Rightarrow> (False, c)
      | Some s \<Rightarrow>
          (let c1 = (if d = [] then c
                     else queueWrite (frame_in_place (read_behind_header buf d) (tw_streamId s) (length d)) c)
           in case err of
                ReadNil \<Rightarrow> (True, c1)
              | ReadEOF \<Rightarrow> (False, twisp_close t closeReasonVoluntary c1)
              | ReadFailed \<Rightarrow> (False, twisp_close t closeReasonNetworkError c1)))"

text \<open>The goroutine that waits for the command to end.\<close>

definition pty_waiter :: "nat \<Rightarrow> wispConnection \<Rightarrow> wispConnection" where
  "pty_waiter t c = twisp_close t closeReasonVoluntary c"

text \<open>\<^verbatim>\<open>handleTwisp\<close> of \<^verbatim>\<open>wisp/windows.go\<close>.\<close>

definition handleTwisp_windows :: "u32 \<Rightarrow> string \<Rightarrow> wispConnection \<Rightarrow> wispConnection" where
  "handleTwisp_windows streamId command c = sendClosePacket streamId closeReasonBlocked c"

section \<open>Quoting\<close>

text \<open>
  A command line that stands for a list of arguments: every character of every argument behind a
  backslash, or the argument in single quotes.
\<close>

definition escape_word :: "string \<Rightarrow> string" where
  "escape_word w = concat (map (\<lambda>ch. [shell_escape_char, ch]) w)"

definition quote_word :: "string \<Rightarrow> string" where
  "quote_word w = shell_quote_char # w @ [shell_quote_char]"

fun command_line :: "(bool \<times> string) list \<Rightarrow> string" where
  "command_line [] = []"
| "command_line [(q, w)] = (if q then quote_word w else escape_word w)"
| "command_line ((q, w) # ws) = (if q then quote_word w else escape_word w) @ CHR '' '' # command_line ws"

definition shell_plain :: "shell_state \<Rightarrow> bool" where
  "shell_plain st \<longleftrightarrow> \<not> sh_inSingle st \<and> \<not> sh_inDouble st \<and> \<not> sh_escaped st"

lemmas shell_chars = shell_quote_char_def shell_double_char_def shell_escape_char_def

lemma fold_escape_word:
  "shell_plain st \<Longrightarrow> fold shell_char (escape_word w) st = st\<lparr>sh_current := sh_current st @ w\<rparr>"
proof (induction w arbitrary: st)
  case (Cons ch w)
  let ?st = "st\<lparr>sh_current := sh_current st @ [ch]\<rparr>"
  have "fold shell_char (escape_word (ch # w)) st = fold shell_char (escape_word w) (st\<lparr>sh_current := sh_current st @ [ch], sh_escaped := False\<rparr>)"
    using Cons.prems by (simp add: escape_word_def shell_char_def shell_plain_def)
  also have "st\<lparr>sh_current := sh_current st @ [ch], sh_escaped := False\<rparr> = ?st"
    using Cons.prems by (cases st) (simp add: shell_plain_def)
  also have "fold shell_char (escape_word w) ?st = st\<lparr>sh_current := sh_current st @ ch # w\<rparr>"
    using Cons.IH[of ?st] Cons.prems by (simp add: shell_plain_def)
  finally show ?case .
qed (simp add: escape_word_def)

lemma fold_single_quoted:
  "shell_quote_char \<notin> set w \<Longrightarrow> sh_inSingle st \<Longrightarrow> \<not> sh_inDouble st \<Longrightarrow> \<not> sh_escaped st \<Longrightarrow>
     fold shell_char w st = st\<lparr>sh_current := sh_current st @ w\<rparr>"
  by (induction w arbitrary: st) (auto simp: shell_char_def)

lemma fold_quote_word:
  assumes "shell_quote_char \<notin> set w" "shell_plain st"
  shows "fold shell_char (quote_word w) st = st\<lparr>sh_current := sh_current st @ w\<rparr>"
proof -
  have "fold shell_char w (st\<lparr>sh_inSingle := True\<rparr>) = st\<lparr>sh_inSingle := True, sh_current := sh_current st @ w\<rparr>"
    using fold_single_quoted[OF assms(1), of "st\<lparr>sh_inSingle := True\<rparr>"] assms(2) by (simp add: shell_plain_def)
  then show ?thesis using assms(2)
    by (cases st) (simp add: quote_word_def shell_char_def shell_plain_def shell_chars)
qed

text \<open>Words that can be written: not empty, and without the quote where quotes are used.\<close>

definition shell_words :: "(bool \<times> string) list \<Rightarrow> bool" where
  "shell_words ws = list_all (\<lambda>(q, w). w \<noteq> [] \<and> (q \<longrightarrow> shell_quote_char \<notin> set w)) ws"

lemma fold_word:
  assumes "shell_words [(q, w)]" "shell_plain st"
  shows "fold shell_char (if q then quote_word w else escape_word w) st = st\<lparr>sh_current := sh_current st @ w\<rparr>"
  using assms by (auto simp: shell_words_def fold_quote_word fold_escape_word)

lemma fold_command_line:
  assumes "shell_words ws" "ws \<noteq> []" "shell_plain st" "sh_current st = []"
  shows "fold shell_char (command_line ws) st =
    st\<lparr>sh_args := sh_args st @ map snd (butlast ws), sh_current := snd (last ws)\<rparr>"
  using assms
proof (induction ws arbitrary: st rule: command_line.induct)
  case (2 q w)
  then show ?case by (simp add: fold_word)
next
  case (3 q w v vs)
  let ?st = "st\<lparr>sh_args := sh_args st @ [w]\<rparr>"
  have w: "shell_words [(q, w)]" and vs: "shell_words (v # vs)" "w \<noteq> []"
    using "3.prems"(1) by (auto simp: shell_words_def)
  have "fold shell_char (command_line ((q, w) # v # vs)) st =
      fold shell_char (command_line (v # vs)) (shell_char (CHR '' '') (st\<lparr>sh_current := w\<rparr>))"
    using fold_word[OF w "3.prems"(3)] "3.prems"(4) by simp
  also have "shell_char (CHR '' '') (st\<lparr>sh_current := w\<rparr>) = ?st"
    using "3.prems"(3,4) vs(2) by (cases st) (simp add: shell_char_def shell_chars shell_plain_def)
  also have "fold shell_char (command_line (v # vs)) ?st =
      ?st\<lparr>sh_args := sh_args ?st @ map snd (butlast (v # vs)), sh_current := snd (last (v # vs))\<rparr>"
    using "3.IH"[of ?st] vs(1) "3.prems"(3,4) by (simp add: shell_plain_def)
  finally show ?case by simp
qed simp

section \<open>Properties\<close>

text \<open>
  Splitting a command line gives back the arguments it was written from, each in single quotes or
  with every character escaped: no argument is merged with another, split, or interpreted.
\<close>

theorem splitShell_command_line:
  assumes "shell_words ws"
  shows "splitShell (command_line ws) = Some (map snd ws)"
proof (cases "ws = []")
  case False
  have "shell_plain shell_start" "sh_current shell_start = []" by (simp_all add: shell_plain_def shell_start_def)
  from fold_command_line[OF assms False this] have
    "fold shell_char (command_line ws) shell_start =
       shell_start\<lparr>sh_args := map snd (butlast ws), sh_current := snd (last ws)\<rparr>"
    by (simp add: shell_start_def)
  moreover have "snd (last ws) \<noteq> []"
    using assms last_in_set[OF False] unfolding shell_words_def list_all_iff by (cases "last ws") auto
  moreover have "map snd (butlast ws) @ [snd (last ws)] = map snd ws"
    using False by (metis append_butlast_last_id list.simps(9) map_append list.map(1))
  ultimately show ?thesis by (simp add: splitShell_def Let_def shell_start_def)
qed (simp add: splitShell_def shell_start_def)

theorem splitShell_command_line_witness:
  "splitShell (command_line [(False, ''ls''), (True, ''a b;c'')]) = Some [''ls'', ''a b;c'']"
  using splitShell_command_line[of "[(False, ''ls''), (True, ''a b;c'')]"]
  by (simp add: shell_words_def shell_chars)

end
