(* ===== verification/Conn_System.thy ===== *)
theory Conn_System
  imports Conn_Steps Terminals "HOL-Library.Multiset"
begin

text \<open>
  A connection together with its running goroutines, and the steps they take in any order: the
  read loop, the goroutines of streams and terminals, the writer, the other connections. Each
  goroutine is at one of the points where it can block; what it does between two such points is
  one operation of the model. What may happen more often than in the program (a write to the
  target of any outcome, a change of the shared state at any time) is left open.
\<close>

section \<open>Goroutines\<close>

text \<open>
  \<open>PStart g\<close> is a goroutine at its first statement (an ingress writer and a terminal's reader
  at the head of their loop). The read loop is \<open>PLoop\<close> between two frames, \<open>PData\<close> behind
  the check of \<^verbatim>\<open>isOpen\<close> of a DATA packet, \<open>PDataReady\<close> behind its wait for
  bandwidth, \<open>PPanic\<close> after a call on a nil connection. \<open>PDial\<close> to \<open>PRead\<close> are the stations
  of \<^verbatim>\<open>handleConnect\<close>.
\<close>

datatype proc =
    PLoop
  | PData u32 bytes nat
  | PDataReady u32 bytes nat
  | PPanic
  | PStart goroutine
  | PDial nat connect_plan
  | PPending nat bool
  | PFlush nat bool "bytes list"
  | PRead nat
  | PIngress nat "bytes list"

type_synonym conn_sys = "wispConnection \<times> proc multiset"

definition started :: "wispConnection \<Rightarrow> wispConnection \<Rightarrow> proc multiset" where
  "started c c' = mset (map PStart (drop (length (spawned c)) (spawned c')))"

definition is_data :: "wispConnection \<Rightarrow> bytes \<Rightarrow> bool" where
  "is_data c packet \<longleftrightarrow> 5 \<le> length packet \<and> \<not> (isV2 c \<and> handshakePending c) \<and> packet ! 0 = packetTypeData"

definition packet_stream :: "bytes \<Rightarrow> u32" where
  "packet_stream packet = uint32_le (take 4 (drop 1 packet))"

definition after_lookup :: "u32 \<Rightarrow> bytes \<Rightarrow> data_outcome \<Rightarrow> proc" where
  "after_lookup i p res = (case res of DataReturn _ \<Rightarrow> PLoop | DataGo r \<Rightarrow> PData i p r | DataPanic \<Rightarrow> PPanic)"

definition after_finish :: "data_outcome \<Rightarrow> proc" where
  "after_finish res = (if res = DataPanic then PPanic else PLoop)"

definition after_plan :: "nat \<Rightarrow> connect_plan \<Rightarrow> proc multiset" where
  "after_plan r plan = (case plan of ConnectRejected _ \<Rightarrow> {#} | ConnectDial _ _ _ _ _ \<Rightarrow> {#PDial r plan#})"

definition if_proc :: "bool \<Rightarrow> proc \<Rightarrow> proc multiset" where
  "if_proc b p = (if b then {#p#} else {#})"

section \<open>Steps\<close>

inductive own_step :: "conn_sys \<Rightarrow> conn_sys \<Rightarrow> bool" where
  loop_packet: "\<not> is_data c packet \<Longrightarrow> handleWispFrame env packet c = (res, c') \<Longrightarrow>
     own_step (c, add_mset PLoop ps) (c', add_mset PLoop (ps + started c c'))"
| loop_pong: "length payload \<le> 125 \<Longrightarrow> own_step (c, add_mset PLoop ps) (writeRawPong payload c, add_mset PLoop ps)"
| loop_close: "own_step (c, add_mset PLoop ps) (sendWSClose d code c, add_mset PLoop ps)"
| loop_end: "set refs = ran (streams c) \<Longrightarrow> set trefs = ran (twispStreams c) \<Longrightarrow>
     own_step (c, add_mset PLoop ps) (deleteAllWispStreams refs trefs c, ps)"
| data_lookup: "is_data c packet \<Longrightarrow>
     handleData_lookup ok (packet_stream packet) (drop 5 packet) c = (res, c') \<Longrightarrow>
     own_step (c, add_mset PLoop ps)
       (c', add_mset (after_lookup (packet_stream packet) (drop 5 packet) res) (ps + started c c'))"
| data_wait: "handleData_wait now now' stopped p c = (ok, c') \<Longrightarrow>
     own_step (c, add_mset (PData i p r) ps) (c', add_mset (if ok then PDataReady i p r else PLoop) ps)"
| data_finish: "handleData_finish ok i p r c = (res, c') \<Longrightarrow>
     own_step (c, add_mset (PDataReady i p r) ps) (c', add_mset (after_finish res) (ps + started c c'))"
| connect_plan: "handleConnect_plan env r t port host c = (plan, c') \<Longrightarrow>
     own_step (c, add_mset (PStart (GoConnect r t port host)) ps) (c', after_plan r plan + ps)"
| connect_dialled: "handleConnect_dialled env r plan err c = (go, c') \<Longrightarrow>
     own_step (c, add_mset (PDial r plan) ps) (c', if_proc go (PPending r (dialTCP plan)) + ps)"
| connect_pending: "take_pending r c = (pending, c') \<Longrightarrow>
     own_step (c, add_mset (PPending r tcp) ps) (c', add_mset (PFlush r tcp pending) ps)"
| connect_flush: "flush_one r d ok c = (go, c') \<Longrightarrow>
     own_step (c, add_mset (PFlush r tcp (d # ds)) ps) (c', if_proc go (PFlush r tcp ds) + ps)"
| connect_ready: "own_step (c, add_mset (PFlush r tcp []) ps) (connect_ready r tcp c, add_mset (PRead r) ps)"
| read_turn: "read_fits buf d \<Longrightarrow> readFromConnection_turn r buf d err now now' stopped c = (go, c') \<Longrightarrow>
     own_step (c, add_mset (PRead r) ps) (c', if_proc go (PRead r) + ps)"
| close_stream: "own_step (c, add_mset (PStart (GoStreamClose r reason)) ps) (stream_close r reason c, ps)"
| ingress_batch: "ingress_take r c = (batch, c') \<Longrightarrow>
     own_step (c, add_mset (PStart (GoIngressWriter r)) ps)
       (c', (case batch of None \<Rightarrow> {#} | Some b \<Rightarrow> {#PIngress r b#}) + ps)"
| ingress_written: "ingress_write r batch ok c = (go, c') \<Longrightarrow>
     own_step (c, add_mset (PIngress r batch) ps) (c', if_proc go (PStart (GoIngressWriter r)) + ps)"
| terminal: "handleTwisp ok i cmd c = c' \<Longrightarrow>
     own_step (c, add_mset (PStart (GoTwisp i cmd)) ps) (c', ps + started c c')"
| terminal_close: "own_step (c, add_mset (PStart (GoTwispClose t reason)) ps) (twisp_close t reason c, ps)"
| terminal_read: "read_fits buf d \<Longrightarrow> readPty_turn t buf d err c = (go, c') \<Longrightarrow>
     own_step (c, add_mset (PStart (GoPtyReader t)) ps) (c', if_proc go (PStart (GoPtyReader t)) + ps)"
| terminal_wait: "own_step (c, add_mset (PStart (GoPtyWaiter t)) ps) (pty_waiter t c, ps)"
| writer: "c' \<in> {snd (take_batch c), writer_stop c, conn_close c} \<Longrightarrow> own_step (c, ps) (c', ps)"

text \<open>The other connections and the tickers change the shared state at any time.\<close>

inductive conn_step :: "conn_sys \<Rightarrow> conn_sys \<Rightarrow> bool" where
  own: "own_step s s' \<Longrightarrow> conn_step s s'"
| others: "conn_step (c, ps) (c\<lparr>DNSCache := dns, globals := g\<rparr>, ps)"

text \<open>A connection that \<open>serve\<close> accepted, with its read loop.\<close>

inductive conn_reach :: "Config \<Rightarrow> conn_sys \<Rightarrow> bool" for cfg where
  reach_start: "conn_reach cfg (start_connection (new_connection cfg dns g ip cid v2), {#PLoop#})"
| reach_step: "conn_reach cfg s \<Longrightarrow> conn_step s s' \<Longrightarrow> conn_reach cfg s'"

lemma reach_own: "conn_reach cfg s \<Longrightarrow> own_step s s' \<Longrightarrow> conn_reach cfg s'"
  by (rule reach_step[OF _ own])

section \<open>The changes a step can make\<close>

context goroutine_ops begin

lemma pty_turn: "read_fits buf d \<Longrightarrow> R c (snd (readPty_turn t buf d err c))"
  using read_frame by (auto simp: readPty_turn_def Let_def intro!: twisp_close op_intros
      split: option.split read_error.split)

lemma pty_waiter: "R c (pty_waiter t c)"
  by (simp add: pty_waiter_def twisp_close refl)

end

lemma quiet_terminal:
  assumes "\<not> dormant c" shows "quiet c (handleTwisp ok i cmd c)"
proof -
  let ?t = "next_ref c"
  let ?c = "c\<lparr>twisp_heap := (twisp_heap c)(?t \<mapsto> twisp_start i), next_ref := Suc ?t,
             twispStreams := (twispStreams c)(i \<mapsto> ?t)\<rparr>"
  have "conn_inv ?c" if "conn_inv c" using that unfolding conn_inv_def open_as_def by simp
  then have q: "quiet c ?c"
    using assms by (auto simp: quiet_def conn_auth_def twisp_starts_def)
  have "quiet c (spawn (GoPtyReader ?t) ?c)"
    by (rule q.trans[OF q q.start]) (simp add: may_start_def)
  then have "quiet c (spawn (GoPtyWaiter ?t) (spawn (GoPtyReader ?t) ?c))"
    by (rule q.trans[OF _ q.start]) (simp add: may_start_def spawn_def)
  then show ?thesis
    by (auto simp: handleTwisp_def Let_def intro!: op_intros split: option.split)
qed



lemma quiet_info_reject:
  "\<not> handshakePending c \<or> i \<noteq> 0 \<or> info_verdict ok (config c) p = InfoReject b \<Longrightarrow> quiet c (handleInfo ok d i p c)"
  by (auto simp: handleInfo_def intro!: op_intros)

text \<open>
  A step is quiet, or it comes from the read loop and opens a stream, starts a terminal, or
  accepts the handshake.
\<close>

definition handshake_over :: "wispConnection \<Rightarrow> bool" where
  "handshake_over c \<longleftrightarrow> \<not> (isV2 c \<and> handshakePending c)"

definition opens_stream :: "wispConnection \<Rightarrow> wispConnection \<Rightarrow> bool" where
  "opens_stream c c' \<longleftrightarrow> handshake_over c \<and> \<not> too_many_streams c \<and>
     (\<exists>c1 ulow i t port host. quiet c c1 \<and> conn_core c1 = conn_core c \<and> c' = open_stream ulow i t port host c1)"

definition starts_terminal :: "wispConnection \<Rightarrow> wispConnection \<Rightarrow> bool" where
  "starts_terminal c c' \<longleftrightarrow>
     handshake_over c \<and> EnableTwisp (config c) \<and> isV2 c \<and> PasswordAuth (config c) \<and> authenticated c \<and>
     (\<exists>c1 i cmd. quiet c c1 \<and> c' = spawn (GoTwisp i cmd) c1)"

definition accepts_info :: "wispConnection \<Rightarrow> wispConnection \<Rightarrow> bool" where
  "accepts_info c c' \<longleftrightarrow>
     isV2 c \<and> handshakePending c \<and>
     (\<exists>bcrypt_ok payload ok confirm.
        info_verdict bcrypt_ok (config c) payload = InfoAccept ok confirm \<and>
        c' = (sendPacket 0 (BufferRemainingLength (config c)) (c\<lparr>authenticated := ok, streamConfirm := confirm\<rparr>))
               \<lparr>handshakePending := False\<rparr>)"

definition loop_change :: "wispConnection \<Rightarrow> wispConnection \<Rightarrow> bool" where
  "loop_change c c' \<longleftrightarrow> quiet c c' \<or> opens_stream c c' \<or> starts_terminal c c' \<or> accepts_info c c'"

lemma loop_changeI:
  "quiet c c' \<Longrightarrow> loop_change c c'"
  "quiet c c1 \<Longrightarrow> conn_core c1 = conn_core c \<Longrightarrow> \<not> too_many_streams c \<Longrightarrow> handshake_over c \<Longrightarrow>
     loop_change c (open_stream ulow i t port host c1)"
  "quiet c c1 \<Longrightarrow> EnableTwisp (config c) \<Longrightarrow> isV2 c \<Longrightarrow> PasswordAuth (config c) \<Longrightarrow> authenticated c \<Longrightarrow>
     handshake_over c \<Longrightarrow> loop_change c (spawn (GoTwisp i cmd) c1)"
  unfolding loop_change_def opens_stream_def starts_terminal_def by blast+

lemma handleInfo_change: "isV2 c \<Longrightarrow> loop_change c (handleInfo ok d i p c)"
  using quiet_info_reject[of c i ok p _ d]
  by (cases "info_verdict ok (config c) p")
     (auto simp: loop_change_def accepts_info_def handleInfo_def)

lemma handlePacket_change:
  assumes "handshake_over c \<or> packetType = packetTypeInfo \<or> packetType = packetTypeClose"
  shows "loop_change c (handlePacket env packetType i p c)"
proof (cases "packetType = packetTypeConnect")
  case True
  then have over: "handshake_over c"
    using assms by (auto simp: packetTypeConnect_def packetTypeInfo_def packetTypeClose_def)
  have eq: "handlePacket env packetType i p c = handleConnectPacket (pe_ulower env) (pe_clock env) i p c"
    using True by (simp add: handlePacket_def packetTypeConnect_def packetTypeInfo_def)
  show ?thesis
    by (rule handleConnectPacket_cases[of c "pe_ulower env" "pe_clock env" i p])
       (simp_all add: eq loop_changeI over)
next
  case False
  have q: "quiet c c" by simp
  show ?thesis
    using handleInfo_change[of c "pe_bcrypt env" "pe_done env" i p] q.close_packet q.resize q False
    by (auto simp: handlePacket_def loop_change_def)
qed

lemma handleWispFrame_change:
  assumes "handleWispFrame env packet c = (res, c')"
  shows "loop_change c c'"
proof -
  have q: "loop_change c c" "\<And>c'. quiet c c' \<Longrightarrow> loop_change c c'" by (simp_all add: loop_change_def)
  show ?thesis
    using assms handlePacket_change[of c "packet ! 0" env] q
      q.data[of c env "uint32_le (take 4 (drop 1 packet))" "drop 5 packet"]
    by (auto simp: handleWispFrame_def Let_def handshake_over_def split: if_splits)
qed
section \<open>Which goroutines run\<close>

definition is_loop :: "proc \<Rightarrow> bool" where
  "is_loop p = (case p of PLoop \<Rightarrow> True | PData _ _ _ \<Rightarrow> True | PDataReady _ _ _ \<Rightarrow> True | PPanic \<Rightarrow> True | _ \<Rightarrow> False)"

definition loops :: "proc multiset \<Rightarrow> nat" where
  "loops ps = size (filter_mset is_loop ps)"

lemma is_loop_simps [simp]:
  "is_loop PLoop" "is_loop (PData i p r)" "is_loop (PDataReady i p r)" "is_loop PPanic"
  "\<not> is_loop (PStart g)" "\<not> is_loop (PDial r plan)" "\<not> is_loop (PPending r tcp)"
  "\<not> is_loop (PFlush r tcp ds)" "\<not> is_loop (PRead r)" "\<not> is_loop (PIngress r b)"
  "is_loop (after_lookup i p res)" "is_loop (after_finish res)"
  by (simp_all add: is_loop_def after_lookup_def after_finish_def split: data_outcome.split)

lemma loops_simps [simp]:
  "loops {#} = 0" "loops (add_mset p ps) = (if is_loop p then Suc (loops ps) else loops ps)"
  "loops (ps + qs) = loops ps + loops qs" "loops (started c c') = 0" "loops (after_plan r plan) = 0"
  "loops (if_proc b p) = (if b \<and> is_loop p then 1 else 0)"
  by (simp_all add: loops_def started_def after_plan_def if_proc_def filter_mset_eq_conv split: connect_plan.split)

lemma started_in: "PStart g \<in># started c c' \<Longrightarrow> g \<in> set (spawned c')"
  by (auto simp: started_def dest: in_set_dropD)

text \<open>The terminals that are about to start were started by the connection.\<close>

definition procs_ok :: "wispConnection \<Rightarrow> proc multiset \<Rightarrow> bool" where
  "procs_ok c ps \<longleftrightarrow> (\<forall>i cmd. PStart (GoTwisp i cmd) \<in># ps \<longrightarrow> GoTwisp i cmd \<in> set (spawned c))"

lemma procs_okI:
  assumes "procs_ok c ps" "set (spawned c) \<subseteq> set (spawned c')"
    "\<And>i cmd. PStart (GoTwisp i cmd) \<in># ps' \<Longrightarrow> PStart (GoTwisp i cmd) \<in># ps \<or> GoTwisp i cmd \<in> set (spawned c')"
  shows "procs_ok c' ps'"
  using assms unfolding procs_ok_def by blast

lemma own_step_procs:
  assumes "own_step (c, ps) (c', ps')"
  shows "PStart (GoTwisp i cmd) \<in># ps' \<Longrightarrow>
    PStart (GoTwisp i cmd) \<in># ps \<or> GoTwisp i cmd \<in> set (spawned c')"
  using assms
  by (cases rule: own_step.cases)
     (auto simp: after_lookup_def after_finish_def after_plan_def if_proc_def dest: started_in
        split: data_outcome.splits connect_plan.splits if_splits option.splits)

inductive_cases conn_stepE: "conn_step (c, ps) (c', ps')"

lemma conn_step_procs:
  assumes "conn_step (c, ps) (c', ps')"
  shows "PStart (GoTwisp i cmd) \<in># ps' \<Longrightarrow>
    PStart (GoTwisp i cmd) \<in># ps \<or> GoTwisp i cmd \<in> set (spawned c')"
  using assms by (rule conn_stepE) (use own_step_procs[of c ps c' ps' i cmd] in auto)

section \<open>What a step changes\<close>

lemma streams_after_close: "streams (stream_close r reason c) i = Some x \<Longrightarrow> streams c i = Some x"
  and open_after_close: "open_as (stream_close r reason c) x i \<Longrightarrow> open_as c x i \<and> x \<noteq> r"
proof -
  have sc: "streams (sendClosePacket j b c') = streams c'" "heap (sendClosePacket j b c') = heap c'" for j b and c' :: wispConnection
    using write_frame(9)[of j b c'] by (simp_all add: conn_core_eq)
  show "streams (stream_close r reason c) i = Some x \<Longrightarrow> streams c i = Some x"
    by (auto simp: stream_close_cases stream_closed_fields sc split: option.splits if_splits)
  show "open_as (stream_close r reason c) x i \<Longrightarrow> open_as c x i \<and> x \<noteq> r"
    by (auto simp: open_as_def stream_close_cases stream_closed_heap closed_stream_def Let_def sc
        split: option.splits if_splits)
qed

definition close_all :: "nat list \<Rightarrow> wispConnection \<Rightarrow> wispConnection" where
  "close_all refs = fold (\<lambda>r. stream_close r closeReasonUnspecified) refs"

lemma close_all_simps [simp]:
  "close_all [] c = c" "close_all (r # refs) c = close_all refs (stream_close r closeReasonUnspecified c)"
  by (simp_all add: close_all_def)

lemma close_all_inv: "conn_inv c \<Longrightarrow> conn_inv (close_all refs c)"
  by (induction refs arbitrary: c) (auto intro: conn_inv_close)

lemma close_all_streams: "streams (close_all refs c) i = Some x \<Longrightarrow> streams c i = Some x"
  by (induction refs arbitrary: c) (auto dest: streams_after_close)

lemma close_all_open: "open_as (close_all refs c) x i \<Longrightarrow> open_as c x i \<and> x \<notin> set refs"
proof (induction refs arbitrary: c)
  case (Cons r refs)
  then show ?case using open_after_close[of r closeReasonUnspecified c x i] by simp
qed simp

lemma core_twisp_close: "conn_core (twisp_close t b c) = conn_core c"
proof -
  have "conn_core ((upd_twisp t f c)\<lparr>twispStreams := m\<rparr>) = conn_core c" for f m
    by (simp add: upd_twisp_def conn_core_def split: option.split)
  then show ?thesis by (simp add: twisp_close_def frame_simps split: option.split)
qed

lemma core_fold_twisp: "conn_core (fold (\<lambda>t. twisp_close t b) ts c) = conn_core c"
  by (induction ts arbitrary: c) (simp_all add: core_twisp_close)

lemma deleteAll_streams:
  assumes "conn_inv c" "set refs = ran (streams c)"
  shows "streams (deleteAllWispStreams refs trefs c) = Map.empty"
proof -
  let ?c1 = "conn_close c"
  let ?c2 = "close_all refs ?c1"
  have core: "conn_core ?c1 = conn_core c" by (simp add: frame_simps)
  have inv: "conn_inv ?c2" by (rule close_all_inv[OF conn_inv_core[OF assms(1) core]])
  have "streams ?c2 i = None" for i
  proof (rule ccontr)
    assume "streams ?c2 i \<noteq> None"
    then obtain r where r: "streams ?c2 i = Some r" by auto
    have "streams c i = Some r" using close_all_streams[OF r] core by (simp add: conn_core_eq)
    then have "r \<in> set refs" unfolding assms(2) by (rule ranI)
    moreover have "open_as ?c2 r i" using inv r by (simp add: conn_inv_def)
    ultimately show False using close_all_open by blast
  qed
  moreover have "conn_core (deleteAllWispStreams refs trefs c) = conn_core ?c2"
    by (simp add: deleteAllWispStreams_def close_all_def Let_def frame_simps core_fold_twisp)
  ultimately show ?thesis by (auto simp: conn_core_eq)
qed

lemma quiet_snd: "quiet c (snd x) \<Longrightarrow> x = (y, c') \<Longrightarrow> quiet c c'"
  by simp

lemma own_step_change:
  assumes "own_step (c, ps) (c', ps')" "procs_ok c ps"
  shows "quiet c c' \<or> (0 < loops ps \<and> loop_change c c')"
  using assms
proof (cases rule: own_step.cases)
  case (terminal ok i cmd qs)
  have "PStart (GoTwisp i cmd) \<in># ps \<longrightarrow> GoTwisp i cmd \<in> set (spawned c)"
    using assms(2) unfolding procs_ok_def by blast
  then have "\<not> dormant c" using terminal(1) by (auto simp: dormant_def)
  then show ?thesis using terminal quiet_terminal by auto
next
  case (connect_plan env r t port host plan qs)
  then show ?thesis by (simp add: q.plan)
next
  case (loop_packet packet env res qs)
  then show ?thesis by (simp add: handleWispFrame_change)
next
  case (ingress_batch r batch qs)
  then show ?thesis using q.ingress_take[of c c r] by simp
qed (auto simp: op_intros q.delete_all q.ready q.pty_waiter q.twisp_close
       elim!: quiet_snd[rotated]
       intro: q.lookup q.wait q.finish q.dialled q.take_pending q.flush_one
         q.read_turn q.ingress_write q.pty_turn)

lemma conn_step_change:
  assumes "conn_step (c, ps) (c', ps')" "procs_ok c ps"
  shows "quiet c c' \<or> (0 < loops ps \<and> loop_change c c')"
  using assms(1)
  by (rule conn_stepE)
     (use own_step_change[OF _ assms(2)] in \<open>auto intro: q.shared_any[OF q.fields(1)]\<close>)

lemma own_step_loops:
  assumes "own_step (c, ps) (c', ps')" "conn_inv c"
  shows "loops ps' = loops ps \<or> (loops ps = Suc (loops ps') \<and> streams c' = Map.empty)"
  using assms
  by (cases rule: own_step.cases) (auto simp: deleteAll_streams split: option.split)

lemma conn_step_loops:
  assumes "conn_step (c, ps) (c', ps')" "conn_inv c"
  shows "loops ps' = loops ps \<or> (loops ps = Suc (loops ps') \<and> streams c' = Map.empty)"
  using assms(1) by (rule conn_stepE) (use own_step_loops[OF _ assms(2)] in auto)

end
