(* ===== verification/Conn_Safety.thy ===== *)
theory Conn_Safety
  imports Conn_System
begin

text \<open>
  What holds of a connection in every state it can reach, whatever its goroutines, its client,
  its targets and the other connections do.
\<close>

section \<open>The invariant of a running connection\<close>

text \<open>What authentication guards.\<close>

definition gate_ok :: "wispConnection \<Rightarrow> bool" where
  "gate_ok c \<longleftrightarrow>
     (isV2 c \<and> handshakePending c \<longrightarrow> dormant c) \<and>
     (isV2 c \<and> \<not> handshakePending c \<and> PasswordAuthRequired (config c) \<longrightarrow> authenticated c) \<and>
     (twisp_starts c \<noteq> {} \<longrightarrow>
        EnableTwisp (config c) \<and> isV2 c \<and> PasswordAuth (config c) \<and> authenticated c)"

text \<open>The cap on the streams of one connection, where it is set and fits an \<^verbatim>\<open>int32\<close>.\<close>

definition stream_limit :: "Config \<Rightarrow> int option" where
  "stream_limit cfg =
     (case FloodProtection cfg of
        None \<Rightarrow> None
      | Some fp \<Rightarrow>
          let m = MaxConcurrentStreamsPerConnection fp in if 0 < m \<and> m < 2 ^ 31 then Some m else None)"

definition limit_ok :: "wispConnection \<Rightarrow> bool" where
  "limit_ok c \<longleftrightarrow>
     (case stream_limit (config c) of None \<Rightarrow> True | Some m \<Rightarrow> int (card (dom (streams c))) \<le> m)"

definition sys_inv :: "conn_sys \<Rightarrow> bool" where
  "sys_inv s \<longleftrightarrow>
     (let (c, ps) = s in
      conn_inv c \<and> gate_ok c \<and> limit_ok c \<and> procs_ok c ps \<and> loops ps \<le> 1 \<and>
      (loops ps = 0 \<longrightarrow> streams c = Map.empty))"

section \<open>The start\<close>

lemma start_same:
  fixes cfg dns g ip cid v2
  defines "c0 \<equiv> new_connection cfg dns g ip cid v2"
  shows "conn_core (start_connection c0) = conn_core c0" "conn_rest (start_connection c0) = conn_rest c0"
    "config (start_connection c0) = cfg" "isV2 (start_connection c0) = v2"
    "handshakePending (start_connection c0) = v2" "authenticated (start_connection c0) = False"
proof -
  have h: "conn_core (c\<lparr>handshakePending := b\<rparr>) = conn_core c" "conn_rest (c\<lparr>handshakePending := b\<rparr>) = conn_rest c"
    "config (c\<lparr>handshakePending := b\<rparr>) = config c" for c b
    by (simp_all add: conn_core_def conn_rest_def)
  show "conn_core (start_connection c0) = conn_core c0" "conn_rest (start_connection c0) = conn_rest c0"
    by (simp_all add: start_connection_def v2Handshake_def frame_simps h)
  have "conn_auth (start_connection c0) = (cfg, v2, v2, False)"
    by (simp add: start_connection_def v2Handshake_def frame_simps c0_def)
       (simp add: conn_auth_def new_connection_def)
  then show "config (start_connection c0) = cfg" "isV2 (start_connection c0) = v2"
    "handshakePending (start_connection c0) = v2" "authenticated (start_connection c0) = False"
    by (simp_all add: conn_auth_def)
qed

lemma start_inv: "sys_inv (start_connection (new_connection cfg dns g ip cid v2), {#PLoop#})"
proof -
  let ?c = "start_connection (new_connection cfg dns g ip cid v2)"
  note same = start_same[of cfg dns g ip cid v2]
  have fields: "streams ?c = Map.empty" "heap ?c = Map.empty" "twispStreams ?c = Map.empty"
    "twisp_heap ?c = Map.empty" "spawned ?c = []"
    using same(1,2) by (simp_all add: conn_core_def conn_rest_def new_connection_def)
  have "conn_inv (new_connection cfg dns g ip cid v2)"
    by (simp add: conn_inv_def open_as_def new_connection_def wrap32_def)
  then have "conn_inv ?c" by (rule conn_inv_core) (rule same(1))
  moreover have "dormant ?c" "twisp_starts ?c = {}" by (simp_all add: dormant_def twisp_starts_def fields)
  moreover have "limit_ok ?c"
    by (simp add: limit_ok_def fields stream_limit_def Let_def split: option.split)
  ultimately show ?thesis by (auto simp: sys_inv_def gate_ok_def procs_ok_def same(4,5) fields)
qed

section \<open>The steps\<close>

lemma quiet_fields_eq:
  assumes "quiet c c'"
  shows "config c' = config c" "isV2 c' = isV2 c" "handshakePending c' = handshakePending c"
    "authenticated c' = authenticated c" "twisp_starts c' = twisp_starts c"
  using assms by (simp_all add: quiet_def conn_auth_def)

lemma quiet_gate: "quiet c c' \<Longrightarrow> gate_ok c \<Longrightarrow> gate_ok c'"
  using quiet_fields_eq[of c c'] by (auto simp: gate_ok_def quiet_def)

lemma limit_ok_same: "config c' = config c \<Longrightarrow> streams c' = streams c \<Longrightarrow> limit_ok c' = limit_ok c"
  by (simp add: limit_ok_def cong: option.case_cong)

lemma quiet_limit:
  assumes "quiet c c'" "conn_inv c" "limit_ok c" shows "limit_ok c'"
proof -
  have "card (dom (streams c')) \<le> card (dom (streams c))"
    using assms(1,2) by (intro card_mono) (auto simp: conn_inv_def quiet_def)
  then show ?thesis
    using assms(3) quiet_fields_eq(1)[OF assms(1)] by (auto simp: limit_ok_def split: option.splits)
qed

lemma open_stream_spawned:
  "set (spawned c) \<subseteq> set (spawned (open_stream ulow i t port host c))"
  "twisp_starts (open_stream ulow i t port host c) = twisp_starts c"
proof -
  have "spawned (sendClosePacket j b c') = spawned c'" for j b and c' :: wispConnection
    using write_frame_rest(5)[of j b c'] by (simp add: conn_rest_def)
  then show "set (spawned c) \<subseteq> set (spawned (open_stream ulow i t port host c))"
    "twisp_starts (open_stream ulow i t port host c) = twisp_starts c"
    by (auto simp: open_stream_def Let_def spawn_def twisp_starts_def)
qed

lemma open_stream_limit:
  assumes "conn_inv c" "\<not> too_many_streams c" "conn_core c1 = conn_core c" "config c1 = config c" "limit_ok c"
  shows "limit_ok (open_stream ulow i t port host c1)"
proof (cases "stream_limit (config c)")
  case (Some m)
  let ?c = "open_stream ulow i t port host c1"
  have cfg: "config ?c = config c" using open_stream_frames(1)[of ulow i t port host c1] assms(4)
    by (simp add: conn_auth_def)
  have m: "0 < m" "m < 2 ^ 31" "int (card (dom (streams c))) \<le> m"
    using Some assms(5) by (auto simp: limit_ok_def stream_limit_def Let_def split: option.splits if_splits)
  then have "wrap32 (int (card (dom (streams c)))) = int (card (dom (streams c)))" "wrap32 m = m"
    by (simp_all add: wrap32_def)
  then have "int (card (dom (streams c))) < m"
    using assms(1,2) Some
    by (auto simp: too_many_streams_def conn_inv_def stream_limit_def Let_def split: option.splits if_splits)
  moreover have "card (dom (streams ?c)) \<le> Suc (card (dom (streams c)))"
  proof -
    have fin: "finite (dom (streams c))" using assms(1) by (simp add: conn_inv_def)
    have "dom (streams ?c) \<subseteq> insert i (dom (streams c))"
      using open_stream_frames(2)[of ulow i t port host c1] assms(3) by (simp add: conn_core_eq)
    then have "card (dom (streams ?c)) \<le> card (insert i (dom (streams c)))"
      using fin by (intro card_mono) simp_all
    also have "\<dots> \<le> Suc (card (dom (streams c)))" using fin by (simp add: card_insert_if)
    finally show ?thesis .
  qed
  ultimately show ?thesis using Some by (simp add: limit_ok_def cfg)
next
  case None
  then show ?thesis using open_stream_frames(1)[of ulow i t port host c1] assms(4)
    by (simp add: limit_ok_def conn_auth_def)
qed

lemma opens_stream_ok:
  assumes "opens_stream c c'" "conn_inv c" "gate_ok c" "limit_ok c"
  shows "conn_inv c' \<and> gate_ok c' \<and> limit_ok c' \<and> set (spawned c) \<subseteq> set (spawned c')"
proof -
  obtain c1 ulow i t port host where c1: "quiet c c1" "conn_core c1 = conn_core c" "\<not> too_many_streams c"
      "c' = open_stream ulow i t port host c1" "handshake_over c"
    using assms(1) by (auto simp: opens_stream_def)
  have inv: "conn_inv c'" unfolding c1(4) by (rule open_stream_inv) (rule conn_inv_core[OF assms(2) c1(2)])
  have auth: "conn_auth c' = conn_auth c"
    using open_stream_frames(1)[of ulow i t port host c1] c1(1) by (simp add: c1(4) quiet_def)
  have st: "set (spawned c) \<subseteq> set (spawned c')" "twisp_starts c' = twisp_starts c"
    using open_stream_spawned(1)[of c1 ulow i t port host] open_stream_spawned(2)[of ulow i t port host c1] c1(1)
    by (auto simp: c1(4) quiet_def)
  have "gate_ok c'"
    using assms(3) auth st(2) c1(5) by (auto simp: gate_ok_def conn_auth_eq handshake_over_def)
  then show ?thesis
    using inv st open_stream_limit[OF assms(2) c1(3,2) quiet_fields_eq(1)[OF c1(1)] assms(4)] c1(4) by blast
qed
lemma starts_terminal_ok:
  assumes "starts_terminal c c'" "conn_inv c" "gate_ok c" "limit_ok c"
  shows "conn_inv c' \<and> gate_ok c' \<and> limit_ok c' \<and> set (spawned c) \<subseteq> set (spawned c')"
proof -
  obtain c1 i cmd where c1: "quiet c c1" "c' = spawn (GoTwisp i cmd) c1"
    and may: "handshake_over c" "EnableTwisp (config c)" "isV2 c" "PasswordAuth (config c)" "authenticated c"
    using assms(1) by (auto simp: starts_terminal_def)
  have "conn_inv c1" "limit_ok c1" using c1(1) assms quiet_limit by (simp_all add: quiet_def)
  moreover have "conn_core c' = conn_core c1" "conn_auth c' = conn_auth c1" by (simp_all add: c1(2) frame_simps)
  moreover have "set (spawned c) \<subseteq> set (spawned c')" using c1 by (auto simp: quiet_def spawn_def)
  ultimately show ?thesis
    using conn_inv_core[of c1 c'] limit_ok_same[of c' c1] c1(1) may
    by (auto simp: gate_ok_def conn_core_eq conn_auth_eq handshake_over_def quiet_def)
qed

lemma accepts_info_fields:
  assumes "accepts_info c c'"
  shows "conn_core c' = conn_core c" "conn_rest c' = conn_rest c" "config c' = config c" "isV2 c' = isV2 c"
    "isV2 c" "handshakePending c" "\<not> handshakePending c'"
    "PasswordAuthRequired (config c) \<Longrightarrow> authenticated c'"
proof -
  obtain bc p ok confirm where v: "info_verdict bc (config c) p = InfoAccept ok confirm"
      "c' = (sendPacket 0 (BufferRemainingLength (config c)) (c\<lparr>authenticated := ok, streamConfirm := confirm\<rparr>))
               \<lparr>handshakePending := False\<rparr>" "isV2 c" "handshakePending c"
    using assms by (auto simp: accepts_info_def)
  let ?c = "c\<lparr>authenticated := ok, streamConfirm := confirm\<rparr>"
  have f: "conn_core (d\<lparr>handshakePending := b\<rparr>) = conn_core d" "conn_rest (d\<lparr>handshakePending := b\<rparr>) = conn_rest d"
    "conn_core ?c = conn_core c" "conn_rest ?c = conn_rest c" for d b
    by (simp_all add: conn_core_def conn_rest_def)
  show "conn_core c' = conn_core c" "conn_rest c' = conn_rest c" by (simp_all add: v(2) f frame_simps)
  have a: "conn_auth (sendPacket 0 (BufferRemainingLength (config c)) ?c) = (config c, isV2 c, handshakePending c, ok)"
    by (simp add: frame_simps) (simp add: conn_auth_def)
  then show "config c' = config c" "isV2 c' = isV2 c" "isV2 c" "handshakePending c" "\<not> handshakePending c'"
    using v by (simp_all add: conn_auth_def)
  have "ok" if "PasswordAuthRequired (config c)"
    using v(1) that by (auto simp: info_verdict_def split: if_splits option.splits)
  then show "PasswordAuthRequired (config c) \<Longrightarrow> authenticated c'" using a v(2) by (simp add: conn_auth_def)
qed

lemma accepts_info_ok:
  assumes "accepts_info c c'" "conn_inv c" "gate_ok c" "limit_ok c"
  shows "conn_inv c' \<and> gate_ok c' \<and> limit_ok c' \<and> set (spawned c) \<subseteq> set (spawned c')"
proof -
  note f = accepts_info_fields[OF assms(1)]
  have "dormant c" using assms(3) f(5,6) by (simp add: gate_ok_def)
  then have "twisp_starts c' = {}" using f(2) by (simp add: dormant_def conn_rest_def twisp_starts_def)
  then have "gate_ok c'" using f by (simp add: gate_ok_def)
  then show ?thesis
    using conn_inv_core[OF assms(2) f(1)] limit_ok_same[of c' c] assms(4) f(1-3)
    by (auto simp: conn_core_eq conn_rest_def)
qed

lemma loop_change_ok:
  assumes "loop_change c c'" "conn_inv c" "gate_ok c" "limit_ok c"
  shows "conn_inv c' \<and> gate_ok c' \<and> limit_ok c' \<and> set (spawned c) \<subseteq> set (spawned c')"
  using assms(1) unfolding loop_change_def
proof (elim disjE)
  assume "quiet c c'"
  then show ?thesis using assms quiet_gate[of c c'] quiet_limit[of c c'] by (simp add: quiet_def)
qed (use assms opens_stream_ok starts_terminal_ok accepts_info_ok in blast)+

lemma loop_change_config: "loop_change c c' \<Longrightarrow> config c' = config c"
  using open_stream_frames(1)
  by (auto simp: loop_change_def opens_stream_def starts_terminal_def quiet_fields_eq(1) spawn_def
      conn_auth_eq dest: accepts_info_fields(3))

lemma sys_inv_step:
  assumes "conn_step (c, ps) (c', ps')" "sys_inv (c, ps)"
  shows "sys_inv (c', ps')"
proof -
  have inv: "conn_inv c" "gate_ok c" "limit_ok c" "procs_ok c ps" "loops ps \<le> 1"
    "loops ps = 0 \<Longrightarrow> streams c = Map.empty"
    using assms(2) by (auto simp: sys_inv_def)
  note change = conn_step_change[OF assms(1) inv(4)]
  then have "loop_change c c'" by (auto simp: loop_change_def)
  then have ok: "conn_inv c'" "gate_ok c'" "limit_ok c'" "set (spawned c) \<subseteq> set (spawned c')"
    using loop_change_ok inv(1-3) by blast+
  have procs: "procs_ok c' ps'"
    by (rule procs_okI[OF inv(4) ok(4)]) (rule conn_step_procs[OF assms(1)])
  note loops = conn_step_loops[OF assms(1) inv(1)]
  have "streams c' = Map.empty" if "loops ps' = 0"
  proof (cases "loops ps = 0")
    case True
    then have "quiet c c'" "streams c = Map.empty" using change inv(6) by auto
    then show ?thesis by (auto simp: quiet_def)
  qed (use loops that in auto)
  then show ?thesis using ok procs loops inv(5) by (auto simp: sys_inv_def)
qed

lemma conn_reach_inv: "conn_reach cfg s \<Longrightarrow> sys_inv s \<and> config (fst s) = cfg"
proof (induction rule: conn_reach.induct)
  case (reach_start dns g ip cid v2)
  then show ?case using start_inv start_same(3) by simp
next
  case (reach_step s s')
  obtain c ps c' ps' where s: "s = (c, ps)" "s' = (c', ps')" by fastforce
  have inv: "sys_inv s'" using sys_inv_step reach_step s by simp
  have "procs_ok c ps" using reach_step s by (simp add: sys_inv_def)
  then have "loop_change c c'" using conn_step_change reach_step(2) s by (fastforce simp: loop_change_def)
  then have "config c' = config c" by (rule loop_change_config)
  then show ?case using inv reach_step s by simp
qed

end
