(* ===== verification/Conn_Runs.thy ===== *)
theory Conn_Runs
  imports Conn_Safety
begin

text \<open>
  Runs of a connection, step by step: an ordinary one, from which the witnesses are taken, and
  the interleavings in which the program misbehaves.
\<close>

section \<open>One stream is opened\<close>

definition run_env :: packet_env where
  "run_env = \<lparr>pe_ulower = (\<lambda>x. x), pe_bcrypt = (\<lambda>_ _. False), pe_clock = (\<lambda>_. 0), pe_stopped = False,
              pe_write_ok = True, pe_done = 0\<rparr>"

definition dial_env :: connect_env where
  "dial_env = \<lparr>ulower = (\<lambda>x. x), resolve = (\<lambda>_. Inl ''''), clock = (\<lambda>_. 0)\<rparr>"

text \<open>CONNECT of stream 1 to port 80 of host \<open>a\<close>, of type \<open>t\<close>.\<close>

definition connect_bytes :: "byte \<Rightarrow> bytes" where "connect_bytes t = [1, 1, 0, 0, 0, t, 80, 0, 97]"

definition run_start :: "Config \<Rightarrow> wispConnection" where
  "run_start cfg = start_connection (new_connection cfg None None ''10.0.0.1'' 1 False)"

definition run_stream :: wispStream where "run_stream = new_stream (\<lambda>x. x) 1 80 ''a''"

definition run_opened :: "Config \<Rightarrow> byte \<Rightarrow> wispConnection" where
  "run_opened cfg t = open_stream (\<lambda>x. x) 1 t 80 ''a'' (run_start cfg)"

lemma run_start_fields:
  "streams (run_start cfg) = Map.empty" "heap (run_start cfg) = Map.empty" "next_ref (run_start cfg) = 0"
  "streamCache (run_start cfg) = Map.empty" "spawned (run_start cfg) = []" "config (run_start cfg) = cfg"
  "twispStreams (run_start cfg) = Map.empty" "twisp_heap (run_start cfg) = Map.empty"
  "streamCount (run_start cfg) = 0" "isV2 (run_start cfg) = False" "globals (run_start cfg) = None"
proof -
  have "globals (sendPacket i n c) = globals c" for i n and c :: wispConnection
    by (auto simp: write_defs Let_def split: prod.splits submit_outcome.splits if_splits)
  then show "globals (run_start cfg) = None"
    by (simp add: run_start_def start_connection_def new_connection_def)
qed (use start_same(1-4)[of cfg None None "''10.0.0.1''" 1 False] in
      \<open>simp_all add: run_start_def conn_core_def conn_rest_def new_connection_def\<close>)

lemma connect_bytes_parts:
  "length (connect_bytes t) = 9" "connect_bytes t ! 0 = packetTypeConnect"
  "uint32_le (take 4 (drop 1 (connect_bytes t))) = 1" "drop 5 (connect_bytes t) = [t, 80, 0, 97]"
  by (simp_all add: connect_bytes_def packetTypeConnect_def)

lemma valid_a: "valid_string ''a''"
  by (rule valid_string_ascii) (simp add: is_ascii_def)

lemma char_a: "char_of (97 :: nat) = CHR ''a''"
  by code_simp

lemma run_connect:
  assumes "\<not> too_many_streams (run_start cfg)" "t \<noteq> streamTypeTerm"
  shows "handleWispFrame run_env (connect_bytes t) (run_start cfg) = (DataReturn False, run_opened cfg t)"
proof -
  have p: "uint16_le (take 2 (drop 1 [t, 80, 0, 97])) = 80" "string_of_bytes [97] = ''a''"
    by (simp_all add: string_of_bytes_def char_of_byte_def char_a)
  show ?thesis using assms valid_a
    by (simp add: handleWispFrame_def connect_bytes_parts[simplified] run_start_fields handlePacket_def
        run_opened_def handleConnectPacket_def p[simplified] source_allowed_def
        run_env_def packetTypeConnect_def packetTypeData_def packetTypeInfo_def Let_def)
qed

lemma run_opened_fields:
  "streams (run_opened cfg t) = [1 \<mapsto> 0]" "heap (run_opened cfg t) = [0 \<mapsto> run_stream]"
  "streamCache (run_opened cfg t) = Map.empty" "spawned (run_opened cfg t) = [GoConnect 0 t ''80'' ''a'']"
  "isV2 (run_opened cfg t) = False" "config (run_opened cfg t) = cfg" "globals (run_opened cfg t) = None"
proof -
  have "dec_digits 80 = ''80''" by code_simp
  then show "streams (run_opened cfg t) = [1 \<mapsto> 0]" "heap (run_opened cfg t) = [0 \<mapsto> run_stream]"
    "streamCache (run_opened cfg t) = Map.empty" "spawned (run_opened cfg t) = [GoConnect 0 t ''80'' ''a'']"
    "isV2 (run_opened cfg t) = False" "config (run_opened cfg t) = cfg" "globals (run_opened cfg t) = None"
    by (simp_all add: run_opened_def open_stream_def Let_def run_start_fields run_stream_def spawn_def)
qed

lemma run_reach_start: "conn_reach cfg (run_start cfg, {#PLoop#})"
  unfolding run_start_def by (rule reach_start)

lemma run_reach_opened_within:
  assumes "\<not> too_many_streams (run_start cfg)" "t \<noteq> streamTypeTerm"
  shows "conn_reach cfg (run_opened cfg t, {#PLoop, PStart (GoConnect 0 t ''80'' ''a'')#})"
proof -
  have "\<not> is_data (run_start cfg) (connect_bytes t)"
    by (simp add: is_data_def connect_bytes_parts packetTypeConnect_def packetTypeData_def)
  from reach_own[OF run_reach_start loop_packet[OF this run_connect[OF assms], of "{#}"]]
  show ?thesis by (simp add: started_def run_start_fields run_opened_fields)
qed

lemma run_reach_opened:
  assumes "FloodProtection cfg = None" "t \<noteq> streamTypeTerm"
  shows "conn_reach cfg (run_opened cfg t, {#PLoop, PStart (GoConnect 0 t ''80'' ''a'')#})"
  using assms by (intro run_reach_opened_within) (simp_all add: too_many_streams_def run_start_fields)

section \<open>A terminal is started\<close>

definition ann_config :: Config where
  "ann_config = DefaultConfig\<lparr>EnableTwisp := True, PasswordAuth := True, PasswordAuthRequired := True,
     PasswordUsers := [(''ann'', ''pw'')]\<rparr>"

definition ann_start :: wispConnection where
  "ann_start = start_connection (new_connection ann_config None None ''10.0.0.1'' 1 True)"

definition ann_info :: bytes where
  "ann_info = [5, 0, 0, 0, 0] @ client_info 1 [password_extension ''ann'' ''pw'']"

definition ann_ready :: wispConnection where "ann_ready = snd (handleWispFrame run_env ann_info ann_start)"

definition ann_terminal :: wispConnection where
  "ann_terminal = snd (handleWispFrame run_env (connect_bytes streamTypeTerm) ann_ready)"

lemma ann_start_fields: "config ann_start = ann_config" "isV2 ann_start" "handshakePending ann_start" "globals ann_start = None"
proof -
  show "config ann_start = ann_config" "isV2 ann_start" "handshakePending ann_start"
    using start_same(3-6)[of ann_config None None "''10.0.0.1''" 1 True] by (simp_all add: ann_start_def)
  have "globals (sendRawFrame f c) = globals c" for f and c :: wispConnection
    by (auto simp: write_defs Let_def split: prod.splits submit_outcome.splits if_splits)
  then show "globals ann_start = None"
    by (simp add: ann_start_def start_connection_def v2Handshake_def new_connection_def)
qed

lemma ann_ready_eq: "ann_ready =
    (sendPacket 0 (BufferRemainingLength ann_config) (ann_start\<lparr>authenticated := True, streamConfirm := False\<rparr>))
      \<lparr>handshakePending := False\<rparr>"
proof -
  have v: "info_verdict (pe_bcrypt run_env) ann_config (client_info 1 [password_extension ''ann'' ''pw'']) = InfoAccept True False"
    by (rule ann_verdict) (simp_all add: ann_config_def)
  have p: "length ann_info \<ge> 5" "ann_info ! 0 = packetTypeInfo" "uint32_le (take 4 (drop 1 ann_info)) = 0"
    "drop 5 ann_info = client_info 1 [password_extension ''ann'' ''pw'']"
    by (simp_all add: ann_info_def packetTypeInfo_def)
  show ?thesis using ann_start_fields p[simplified] v
    by (simp add: ann_ready_def handleWispFrame_def handlePacket_def handleInfo_def Let_def)
qed

lemma ann_ready_fields:
  "isV2 ann_ready" "\<not> handshakePending ann_ready" "authenticated ann_ready" "config ann_ready = ann_config"
  "globals ann_ready = None"
proof -
  let ?c = "ann_start\<lparr>authenticated := True, streamConfirm := False\<rparr>"
  have "globals (sendPacket i n c) = globals c" for i n and c :: wispConnection
    by (auto simp: write_defs Let_def split: prod.splits submit_outcome.splits if_splits)
  moreover have "conn_auth (sendPacket 0 (BufferRemainingLength ann_config) ?c) = (ann_config, True, True, True)"
    using ann_start_fields by (simp add: frame_simps) (simp add: conn_auth_def)
  ultimately show "isV2 ann_ready" "\<not> handshakePending ann_ready" "authenticated ann_ready" "config ann_ready = ann_config"
    "globals ann_ready = None"
    by (simp_all add: ann_ready_eq conn_auth_def ann_start_fields)
qed

lemma ann_ready_empty:
  "streams ann_ready = Map.empty" "twispStreams ann_ready = Map.empty" "twisp_heap ann_ready = Map.empty"
  "next_ref ann_ready = 0" "spawned ann_ready = []"
proof -
  let ?c = "ann_start\<lparr>authenticated := True, streamConfirm := False\<rparr>"
  have h: "conn_core (c\<lparr>handshakePending := b\<rparr>) = conn_core c" "conn_rest (c\<lparr>handshakePending := b\<rparr>) = conn_rest c" for b and c :: wispConnection
    by (simp_all add: conn_core_def conn_rest_def)
  have "conn_core ?c = conn_core ann_start" "conn_rest ?c = conn_rest ann_start"
    by (simp_all add: conn_core_def conn_rest_def)
  then have "conn_core ann_ready = conn_core ann_start" "conn_rest ann_ready = conn_rest ann_start"
    by (simp_all add: ann_ready_eq frame_simps h)
  then show "streams ann_ready = Map.empty" "twispStreams ann_ready = Map.empty" "twisp_heap ann_ready = Map.empty"
    "next_ref ann_ready = 0" "spawned ann_ready = []"
    using start_same(1,2)[of ann_config None None "''10.0.0.1''" 1 True]
    by (simp_all add: ann_start_def conn_core_def conn_rest_def new_connection_def)
qed

lemma ann_reach_ready: "conn_reach ann_config (ann_ready, {#PLoop#} + started ann_start ann_ready)"
proof -
  have "\<not> is_data ann_start ann_info"
    by (simp add: is_data_def ann_info_def packetTypeData_def)
  moreover have "handleWispFrame run_env ann_info ann_start = (fst (handleWispFrame run_env ann_info ann_start), ann_ready)"
    by (simp add: ann_ready_def)
  moreover have "conn_reach ann_config (ann_start, {#PLoop#})"
    unfolding ann_start_def by (rule reach_start)
  ultimately show ?thesis
    using reach_own[OF _ loop_packet[where ps = "{#}"]] by fastforce
qed

lemma ann_terminal_packet:
  assumes "isV2 c" "\<not> handshakePending c" "authenticated c" "config c = ann_config" "globals c = None"
  shows "handleWispFrame run_env (connect_bytes streamTypeTerm) c = (DataReturn False, spawn (GoTwisp 1 ''a'') c)"
proof -
  have p: "string_of_bytes [97] = ''a''"
    by (simp_all add: string_of_bytes_def char_of_byte_def char_a)
  have cfg: "FloodProtection ann_config = None" "EnableTwisp ann_config" "PasswordAuth ann_config"
    by (simp_all add: ann_config_def DefaultConfig_def)
  show ?thesis using valid_a
    by (simp add: handleWispFrame_def connect_bytes_parts[simplified] assms handlePacket_def
        handleConnectPacket_def handleTwispConnect_def p too_many_streams_def source_allowed_def cfg
        run_env_def packetTypeConnect_def packetTypeData_def packetTypeInfo_def Let_def)
qed

lemma ann_terminal_eq: "handleWispFrame run_env (connect_bytes streamTypeTerm) ann_ready =
    (DataReturn False, spawn (GoTwisp 1 ''a'') ann_ready)"
  by (rule ann_terminal_packet) (simp_all add: ann_ready_fields)

lemma ann_terminal_spawned: "GoTwisp 1 ''a'' \<in> set (spawned ann_terminal)"
  by (simp add: ann_terminal_def ann_terminal_eq spawn_def)

lemma ann_reach_terminal:
  "conn_reach ann_config (ann_terminal, {#PLoop#} + started ann_start ann_ready + started ann_ready ann_terminal)"
proof -
  have "\<not> is_data ann_ready (connect_bytes streamTypeTerm)"
    by (simp add: is_data_def connect_bytes_parts packetTypeConnect_def packetTypeData_def)
  from reach_own[OF ann_reach_ready[unfolded add_mset_add_single[symmetric], simplified] loop_packet[OF this ann_terminal_eq]]
  show ?thesis by (simp add: ann_terminal_def ann_terminal_eq)
qed

end
