(* ===== verification/Conn_Properties.thy ===== *)
theory Conn_Properties
  imports Conn_Runs
begin

text \<open>
  The properties of a running connection, each in every state that any interleaving reaches.
\<close>

section \<open>Safety\<close>



text \<open>
  C20: A connection never has more streams than the configured cap, whatever the order in which its
  goroutines open and close them.
\<close>

theorem streams_within_limit:
  assumes "conn_reach cfg (c, ps)" and "FloodProtection cfg = Some fp"
    and "0 < MaxConcurrentStreamsPerConnection fp" and "MaxConcurrentStreamsPerConnection fp < 2 ^ 31"
  shows "int (card (dom (streams c))) \<le> MaxConcurrentStreamsPerConnection fp"
proof -
  have "limit_ok c" "config c = cfg" using conn_reach_inv[OF assms(1)] by (auto simp: sys_inv_def)
  moreover have "stream_limit cfg = Some (MaxConcurrentStreamsPerConnection fp)"
    using assms(2-4) by (simp add: stream_limit_def)
  ultimately show ?thesis by (simp add: limit_ok_def)
qed

definition one_stream :: FloodProtectionConfig where
  "one_stream =
     \<lparr>fp_Enabled = True, MaxConnectsPerSourceIPPerSecond = 0, MaxConnectsPerDestPerSecond = 0,
      MaxConnectsPerDestPerMinute = 0, MaxInFlightSyns = 0, MaxConcurrentStreamsPerConnection = 1,
      MaxConcurrentConnections = 0,
      SynFloodSignature = \<lparr>sfs_Enabled = False, sfs_WindowMs = 0, sfs_MinSamples = 0, sfs_FailedHandshakeRatio = 0\<rparr>,
      WsCloseAfterViolations = 0, LogBlockedDials = False\<rparr>"

theorem streams_within_limit_witness:
  "int (card (dom (streams (run_opened (DefaultConfig\<lparr>FloodProtection := Some one_stream\<rparr>) 1)))) \<le> 1 \<and>
   streams (run_opened (DefaultConfig\<lparr>FloodProtection := Some one_stream\<rparr>) 1) = [1 \<mapsto> 0]"
proof -
  let ?cfg = "DefaultConfig\<lparr>FloodProtection := Some one_stream\<rparr>"
  have "\<not> too_many_streams (run_start ?cfg)"
    by (simp add: too_many_streams_def run_start_fields one_stream_def wrap32_def)
  then have "conn_reach ?cfg (run_opened ?cfg 1, {#PLoop, PStart (GoConnect 0 1 ''80'' ''a'')#})"
    by (rule run_reach_opened_within) (simp add: streamTypeTerm_def)
  from streams_within_limit[OF this, of one_stream] show ?thesis
    by (simp add: run_opened_fields one_stream_def)
qed

text \<open>
  C14: Before a client of protocol version 2 has completed the handshake, and where a password is
  required before it has authenticated, it has no effect: no stream, no terminal, no goroutine.
\<close>

theorem nothing_before_authentication:
  assumes "conn_reach cfg (c, ps)" and "isV2 c"
    and "handshakePending c \<or> (PasswordAuthRequired cfg \<and> \<not> authenticated c)"
  shows "streams c = Map.empty \<and> heap c = Map.empty \<and> twispStreams c = Map.empty \<and>
    twisp_heap c = Map.empty \<and> spawned c = []"
proof -
  have "gate_ok c" "config c = cfg" using conn_reach_inv[OF assms(1)] by (auto simp: sys_inv_def)
  then have "dormant c" using assms(2,3) by (auto simp: gate_ok_def)
  then show ?thesis by (simp add: dormant_def)
qed

theorem nothing_before_authentication_witness:
  "handshakePending (snd (handleWispFrame run_env (connect_bytes 1) ann_start)) \<and>
   streams (snd (handleWispFrame run_env (connect_bytes 1) ann_start)) = Map.empty \<and>
   spawned (snd (handleWispFrame run_env (connect_bytes 1) ann_start)) = []"
proof -
  let ?c = "ann_start"
  have st: "isV2 ?c" "handshakePending ?c"
    by (simp_all add: ann_start_def start_same(4,5))
  have frame: "handleWispFrame run_env (connect_bytes 1) ?c = (DataReturn False, ?c)"
    using st by (simp add: handleWispFrame_def connect_bytes_parts[simplified] packetTypeConnect_def
        packetTypeInfo_def packetTypeClose_def Let_def)
  have "\<not> is_data ?c (connect_bytes 1)"
    by (simp add: is_data_def connect_bytes_parts packetTypeConnect_def packetTypeData_def)
  moreover have "conn_reach ann_config (?c, {#PLoop#})"
    unfolding ann_start_def by (rule reach_start)
  ultimately have "conn_reach ann_config (?c, {#PLoop#} + started ?c ?c)"
    using reach_own[OF _ loop_packet[OF _ frame, of "{#}"]] by simp
  from nothing_before_authentication[OF this] show ?thesis using st frame by simp
qed

text \<open>
  A terminal is only ever started for a client that has authenticated, on a server on which
  terminals and passwords are enabled.
\<close>

theorem terminal_needs_authentication:
  assumes "conn_reach cfg (c, ps)" and "GoTwisp i cmd \<in> set (spawned c)"
  shows "EnableTwisp cfg \<and> PasswordAuth cfg \<and> isV2 c \<and> authenticated c"
proof -
  have "gate_ok c" "config c = cfg" using conn_reach_inv[OF assms(1)] by (auto simp: sys_inv_def)
  moreover have "twisp_starts c \<noteq> {}" using assms(2) by (auto simp: twisp_starts_def)
  ultimately show ?thesis by (simp add: gate_ok_def)
qed

theorem terminal_needs_authentication_witness:
  "authenticated ann_terminal"
  using terminal_needs_authentication[OF ann_reach_terminal, of 1 "''a''"] by (simp add: ann_terminal_spawned)

text \<open>
  When the read loop of a connection has ended, no stream is left and none is ever opened
  again, whatever its goroutines still do.
\<close>

theorem no_stream_after_end:
  assumes "conn_reach cfg (c, ps)" and "loops ps = 0"
  shows "streams c = Map.empty \<and> streamCount c = 0"
proof -
  have inv: "sys_inv (c, ps)" using conn_reach_inv[OF assms(1)] by simp
  then have "streams c = Map.empty" using assms(2) by (simp add: sys_inv_def)
  moreover have "streamCount c = wrap32 (int (card (dom (streams c))))"
    using inv by (simp add: sys_inv_def conn_inv_def)
  ultimately show ?thesis by simp
qed

theorem no_stream_after_end_witness:
  "streams (deleteAllWispStreams [0] [] (run_opened DefaultConfig 1)) = Map.empty"
proof -
  let ?c = "run_opened DefaultConfig 1"
  have "FloodProtection DefaultConfig = None" by (simp add: DefaultConfig_def)
  then have 1: "conn_reach DefaultConfig (?c, {#PLoop, PStart (GoConnect 0 1 ''80'' ''a'')#})"
    by (rule run_reach_opened) (simp add: streamTypeTerm_def)
  have "twispStreams ?c = Map.empty"
    by (simp add: run_opened_def open_stream_def run_start_fields Let_def spawn_def)
  then have "own_step (?c, add_mset PLoop {#PStart (GoConnect 0 1 ''80'' ''a'')#})
      (deleteAllWispStreams [0] [] ?c, {#PStart (GoConnect 0 1 ''80'' ''a'')#})"
    by (intro loop_end) (simp_all add: run_opened_fields)
  from no_stream_after_end[OF reach_own[OF 1 this]] show ?thesis by simp
qed

end
