(* ===== verification/Conn_Dial.thy ===== *)
theory Conn_Dial
  imports Conn_Runs
begin

text \<open>
  What the goroutine of a CONNECT dials (\<^verbatim>\<open>handleConnect\<close> up to the dial): the filters and
  the egress policy hold of every target, and how a host name can slip past the filters.
\<close>

section \<open>The target that is dialled\<close>

lemma reject_not_dial: "reject_connect r b c \<noteq> (ConnectDial tcp dest h via syn, c')"
  by (simp add: reject_connect_def)

lemma handleConnect_plan_dial:
  assumes "handleConnect_plan env r t port name c = (ConnectDial tcp dest h via syn, c')"
  defines "host \<equiv> NormalizeTargetHostname (ulower env) name"
  obtains dns where
    "\<not> hostname_blocked (config c) host"
    "\<not> port_blocked (config c) (of_int (case heap c r of None \<Rightarrow> 0 | Some s \<Rightarrow> st_portNum s))"
    "tcp = (t = streamTypeTCP)" "tcp \<longrightarrow> AllowTCP (config c)" "\<not> tcp \<longrightarrow> AllowUDP (config c) \<and> Proxy (config c) = []"
    "via = (tcp \<and> Proxy (config c) \<noteq> [])" "dest = JoinHostPort h port"
    "resolve_target env (config c) host (DNSCache c) = (Inr h, dns)"
proof -
  let ?c = "upd_stream r (\<lambda>s. s\<lparr>st_hostname := host\<rparr>) c"
  have port: "(case heap ?c r of None \<Rightarrow> 0 | Some s \<Rightarrow> st_portNum s) = (case heap c r of None \<Rightarrow> 0 | Some s \<Rightarrow> st_portNum s)"
    by (simp add: heap_upd_stream split: option.split)
  show thesis
    using assms(1) that
    unfolding handleConnect_plan_def Let_def host_def[symmetric] port
    by (auto simp: reject_not_dial frame_simps split: if_splits prod.splits sum.splits)
qed

text \<open>
  C15: A target is dialled only if the filters of host names and ports and the switches of the
  protocols let it pass, and only at an address that the egress policy accepts: the one written in
  the request, if addresses may be given directly, or one of the resolver's answers.
\<close>

theorem dial_obeys_policy:
  assumes "handleConnect_plan env r t port name c = (ConnectDial tcp dest h via syn, c')"
    and "heap c r = Some s" and "DNSCache c \<noteq> None"
  shows "\<not> hostname_blocked (config c) (NormalizeTargetHostname (ulower env) name) \<and>
    \<not> port_blocked (config c) (of_int (st_portNum s)) \<and>
    (if tcp then AllowTCP (config c) else AllowUDP (config c) \<and> Proxy (config c) = []) \<and>
    dest = JoinHostPort h port \<and>
    (\<exists>ip. h = IP_String ip \<and> fst (Evaluate (PolicyFromConfig (config c)) ip)) \<and>
    (ParseIP (NormalizeTargetHostname (ulower env) name) = [] \<or> AllowDirectIP (config c))"
proof -
  let ?host = "NormalizeTargetHostname (ulower env) name"
  obtain dns where d: "\<not> hostname_blocked (config c) ?host" "\<not> port_blocked (config c) (of_int (st_portNum s))"
    "tcp \<longrightarrow> AllowTCP (config c)" "\<not> tcp \<longrightarrow> AllowUDP (config c) \<and> Proxy (config c) = []"
    "dest = JoinHostPort h port" "resolve_target env (config c) ?host (DNSCache c) = (Inr h, dns)"
    using handleConnect_plan_dial[OF assms(1)] assms(2) by auto
  have "(\<exists>ip. h = IP_String ip \<and> fst (Evaluate (PolicyFromConfig (config c)) ip)) \<and>
      (ParseIP ?host = [] \<or> AllowDirectIP (config c))"
    using d(6) assms(3)
    by (auto simp: resolve_target_def Let_def find_Some_iff split: if_splits option.splits prod.splits sum.splits)
  then show ?thesis using d by simp
qed

definition dns_env :: connect_env where
  "dns_env = \<lparr>ulower = (\<lambda>x. x), resolve = (\<lambda>_. Inr [[8, 8, 8, 8]]), clock = (\<lambda>_. 0)\<rparr>"

definition dns_run :: wispConnection where
  "dns_run = (run_opened DefaultConfig 1)\<lparr>DNSCache := Some (NewDNSCache (\<lambda>x. x) [] 0 ''resolve'' ''ipv4first'')\<rparr>"

lemma norm_a: "NormalizeTargetHostname (\<lambda>x. x) ''a'' = ''a''"
  by (simp add: NormalizeTargetHostname_def to_lower_def is_ascii_def ascii_lower_def
      trim_space_ascii ascii_space_def trim_suffix_def has_suffix_def)

lemma dns_run_plan:
  "\<exists>c'. handleConnect_plan dns_env 0 1 ''80'' ''a'' dns_run =
     (ConnectDial True (JoinHostPort (IP_String [8, 8, 8, 8]) ''80'') (IP_String [8, 8, 8, 8]) False False, c')"
proof -
  have ok: "fst (Evaluate (PolicyFromConfig DefaultConfig) [8, 8, 8, 8])"
    by (simp add: PolicyFromConfig_plain Evaluate_plain4 reserved4_def DefaultConfig_def)
  have look: "\<exists>d'. LookupIPAddr (\<lambda>x. x) 0 0 (\<lambda>_. Inr [[8, 8, 8, 8]]) ''a'' (NewDNSCache (\<lambda>x. x) [] 0 ''resolve'' ''ipv4first'') =
      (Inr [[8, 8, 8, 8]], d')"
    by (simp add: LookupIPAddr_def norm_a ParseIP_def NewDNSCache_def reorderIPs_def Let_def)
  have "\<exists>dns. resolve_target dns_env DefaultConfig ''a'' (DNSCache dns_run) = (Inr (IP_String [8, 8, 8, 8]), dns)"
    using look ok by (auto simp: resolve_target_def dns_env_def dns_run_def ParseIP_def Let_def)
  then obtain dns where r: "resolve_target dns_env DefaultConfig ''a'' (DNSCache dns_run) = (Inr (IP_String [8, 8, 8, 8]), dns)" ..
  have f: "globals dns_run = None" "config dns_run = DefaultConfig" by (simp_all add: dns_run_def run_opened_fields)
  have g: "globals (upd_stream r f c) = globals c" "DNSCache (upd_stream r f c) = DNSCache c" for r f c by (simp_all add: frame_simps)
  have n: "NormalizeTargetHostname (ulower dns_env) ''a'' = ''a''" by (simp add: dns_env_def norm_a)
  show ?thesis
    unfolding handleConnect_plan_def Let_def n
    by (simp add: f g r hostname_blocked_def port_blocked_def connect_limits_def streamTypeTCP_def streamTypeUDP_def)
       (simp add: DefaultConfig_def)
qed

theorem dial_obeys_policy_witness:
  "\<exists>ip. IP_String [8, 8, 8, 8] = IP_String ip \<and> fst (Evaluate (PolicyFromConfig DefaultConfig) ip)"
proof -
  obtain c' where "handleConnect_plan dns_env 0 1 ''80'' ''a'' dns_run =
     (ConnectDial True (JoinHostPort (IP_String [8, 8, 8, 8]) ''80'') (IP_String [8, 8, 8, 8]) False False, c')"
    using dns_run_plan by blast
  from dial_obeys_policy[OF this, of run_stream] show ?thesis
    by (simp add: dns_run_def run_opened_fields)
qed

section \<open>A host name that slips past the filters\<close>

text \<open>
  C40: A host name on the blacklist is reached by writing it with two trailing dots: the filter sees
  it with one dot, the resolver, which normalises again, with none.
\<close>

theorem hostname_blacklist_bypass:
  "hostname_blocked (DefaultConfig\<lparr>Blacklist := \<lparr>Hostnames = [''evil.com''], Ports = []\<rparr>\<rparr>)
     (NormalizeTargetHostname ulow ''evil.com'') \<and>
   \<not> hostname_blocked (DefaultConfig\<lparr>Blacklist := \<lparr>Hostnames = [''evil.com''], Ports = []\<rparr>\<rparr>)
     (NormalizeTargetHostname ulow ''evil.com..'') \<and>
   LookupIPAddr ulow now now' resolver (NormalizeTargetHostname ulow ''evil.com..'') d =
     LookupIPAddr ulow now now' resolver ''evil.com'' d"
proof -
  note n = NormalizeTargetHostname_not_idempotent[of ulow]
  have m: "NormalizeTargetHostname ulow ''evil.com'' = ''evil.com''"
    by (simp add: NormalizeTargetHostname_def to_lower_def is_ascii_def ascii_lower_def
        trim_space_ascii ascii_space_def trim_suffix_def has_suffix_def)
  show ?thesis using n m
    by (simp add: hostname_blocked_def DefaultConfig_def LookupIPAddr_def)
qed

end
