(* ===== verification/Conn_Findings.thy ===== *)
theory Conn_Findings
  imports Conn_Runs
begin

text \<open>
  Interleavings of a connection in which the program misbehaves, as runs of the model.
\<close>

section \<open>A panic\<close>

text \<open>
  DATA passes the check of \<^verbatim>\<open>isOpen\<close>; before the next check, of
  \<^verbatim>\<open>connReadyDone\<close>, the goroutine of \<^verbatim>\<open>handleConnect\<close> closes the stream, here
  because its type is unknown: the connection of the stream is nil and stays nil.
\<close>

lemma closed_nil_panics:
  assumes "heap c r = Some s" "isOpen s" "st_conn s = NoConn" "\<not> ingressActive s" "p \<noteq> []"
  shows "handleData_finish ok i p r (snd (reject_connect r reason c)) =
    (DataPanic, snd (reject_connect r reason c))"
proof -
  have "heap (stream_close r reason c) r = Some (closed_stream s)"
    using assms(1,2) stream_closed_heap[OF assms(1)] write_frame(9)[of "st_streamId s" reason "stream_closed r s c"]
    by (simp add: stream_close_cases conn_core_eq)
  then have "heap (snd (reject_connect r reason c)) r = Some ((closed_stream s)\<lparr>connReadyDone := True\<rparr>)"
    by (simp add: reject_connect_def signalConnReady_def heap_upd_stream)
  then show ?thesis using assms(3-5)
    by (simp add: handleData_finish_def closed_stream_def Let_def)
qed

definition data_bytes :: bytes where "data_bytes = [2, 1, 0, 0, 0, 7]"

lemma run_data:
  "handleData_lookup True 1 [7] (run_opened cfg t) =
     (DataGo 0, cache_store 1 0 ((run_opened cfg t)\<lparr>ingressBytes := ingressBytes (run_opened cfg t) + 1\<rparr>))"
  by (simp add: handleData_lookup_def cached_stream_def run_opened_fields data_check_open_def Let_def
      cache_store_def run_stream_def new_stream_def)

lemma run_plan_unknown_type:
  assumes "heap c r \<noteq> None" "Hostnames (Whitelist (config c)) = []" "Hostnames (Blacklist (config c)) = []"
    "Ports (Whitelist (config c)) = []" "Ports (Blacklist (config c)) = []"
  shows "\<exists>h. handleConnect_plan dial_env r 9 port host c =
    reject_connect r closeReasonInvalidInfo (upd_stream r (\<lambda>s. s\<lparr>st_hostname := h\<rparr>) c)"
  using assms
  by (simp add: handleConnect_plan_def hostname_blocked_def port_blocked_def Let_def streamTypeTCP_def streamTypeUDP_def)
     blast
text \<open>
  C34: A client can reach a panic of the server: a DATA packet that passes the check that its
  stream is open, while the stream's CONNECT is refused, is written to a nil connection.
\<close>

theorem DATA_panic_reachable:
  "\<exists>c ps. conn_reach DefaultConfig (c, ps) \<and> PPanic \<in># ps"
proof -
  let ?d = DefaultConfig and ?start = "PStart (GoConnect 0 9 ''80'' ''a'')"
  let ?c1 = "run_opened ?d 9"
  let ?c2 = "cache_store 1 0 (?c1\<lparr>ingressBytes := ingressBytes ?c1 + 1\<rparr>)"
  have cfg: "FloodProtection ?d = None" "Hostnames (Whitelist ?d) = []" "Hostnames (Blacklist ?d) = []"
    "Ports (Whitelist ?d) = []" "Ports (Blacklist ?d) = []"
    by (simp_all add: DefaultConfig_def)
  have 1: "conn_reach ?d (?c1, {#PLoop, ?start#})"
    by (rule run_reach_opened[OF cfg(1)]) (simp add: streamTypeTerm_def)
  have data: "is_data ?c1 data_bytes" "packet_stream data_bytes = 1" "drop 5 data_bytes = [7]"
    by (simp_all add: is_data_def data_bytes_def run_opened_fields packetTypeData_def packet_stream_def)
  have f2: "heap ?c2 0 = Some run_stream" "globals ?c2 = None" "config ?c2 = ?d" "spawned ?c2 = spawned ?c1"
    by (simp_all add: cache_store_def run_opened_fields)
  have 2: "conn_reach ?d (?c2, {#PData 1 [7] 0, ?start#})"
    using reach_own[OF 1 data_lookup[OF data(1), of True, unfolded data(2,3), OF run_data]]
    by (simp add: started_def f2 after_lookup_def)
  have w: "handleData_wait 0 0 False [7] ?c2 = (True, ?c2)" by (simp add: handleData_wait_def f2)
  have 3: "conn_reach ?d (?c2, {#?start, PDataReady 1 [7] 0#})"
    using reach_own[OF 2 data_wait[OF w]] by (simp add: add_mset_commute)
  obtain h where plan: "handleConnect_plan dial_env 0 9 ''80'' ''a'' ?c2 =
      reject_connect 0 closeReasonInvalidInfo (upd_stream 0 (\<lambda>s. s\<lparr>st_hostname := h\<rparr>) ?c2)"
    using run_plan_unknown_type[of ?c2 0 "''80''" "''a''"] f2 cfg by auto
  let ?c3 = "upd_stream 0 (\<lambda>s. s\<lparr>st_hostname := h\<rparr>) ?c2"
  have p: "handleConnect_plan dial_env 0 9 ''80'' ''a'' ?c2 =
      (ConnectRejected closeReasonInvalidInfo, snd (reject_connect 0 closeReasonInvalidInfo ?c3))"
    by (simp add: plan reject_connect_def)
  have 4: "conn_reach ?d (snd (reject_connect 0 closeReasonInvalidInfo ?c3), {#PDataReady 1 [7] 0#})"
    using reach_own[OF 3 connect_plan[OF p]] by (simp add: after_plan_def)
  have "heap ?c3 0 = Some (run_stream\<lparr>st_hostname := h\<rparr>)" by (simp add: heap_upd_stream f2)
  from closed_nil_panics[OF this, of "[7]"]
  have fin: "handleData_finish True 1 [7] 0 (snd (reject_connect 0 closeReasonInvalidInfo ?c3)) =
      (DataPanic, snd (reject_connect 0 closeReasonInvalidInfo ?c3))"
    by (simp add: run_stream_def new_stream_def)
  show ?thesis
    using reach_own[OF 4 data_finish[OF fin]] by (intro exI conjI) (assumption, simp add: after_finish_def)
qed


section \<open>A connection that outlives its stream\<close>

text \<open>The parts of the state that the runs below do not touch.\<close>

definition conn_env :: "wispConnection \<Rightarrow> Config \<times> dns_cache option \<times> Globals option \<times> bool \<times> (u32 \<rightharpoonup> nat)" where
  "conn_env c = (config c, DNSCache c, globals c, streamConfirm c, twispStreams c)"

lemma env_frame:
  "conn_env (sendClosePacket i b c) = conn_env c" "conn_env (sendPacket i n c) = conn_env c"
  "conn_env (sendRawFrame f c) = conn_env c" "conn_env (conn_close c) = conn_env c"
  by (auto simp: write_defs conn_env_def Let_def split: prod.splits submit_outcome.splits if_splits)

lemma env_frame_upd:
  "conn_env (upd_stream r f c) = conn_env c" "conn_env (spawn g c) = conn_env c"
  "conn_env (cache_store i r c) = conn_env c" "conn_env (c\<lparr>ingressBytes := n\<rparr>) = conn_env c"
  by (simp_all add: conn_env_def upd_stream_def spawn_def cache_store_def split: option.split)

lemma env_frame_close: "conn_env (stream_close r b c) = conn_env c"
proof -
  have "conn_env (deleteWispStream i c) = conn_env c" for i c
    by (simp add: conn_env_def deleteWispStream_def Let_def)
  then show ?thesis
    by (simp add: stream_close_def signalConnReady_def env_frame env_frame_upd Let_def split: option.split)
qed

definition plain_env :: "wispConnection \<Rightarrow> bool" where
  "plain_env c \<longleftrightarrow> conn_env c = (DefaultConfig, None, None, False, Map.empty)"

lemma plain_frame:
  "plain_env c \<Longrightarrow> plain_env (upd_stream r f c)" "plain_env c \<Longrightarrow> plain_env (spawn g c)"
  "plain_env c \<Longrightarrow> plain_env (cache_store i r c)" "plain_env c \<Longrightarrow> plain_env (c\<lparr>ingressBytes := n\<rparr>)"
  "plain_env c \<Longrightarrow> plain_env (c\<lparr>DNSCache := None\<rparr>)" "plain_env c \<Longrightarrow> plain_env (stream_close r b c)"
  by (simp_all add: plain_env_def env_frame_upd env_frame_close) (simp add: conn_env_def)

lemma upd_stream_queue [simp]:
  "isClosed (upd_stream r f c) = isClosed c" "pendingWrites (upd_stream r f c) = pendingWrites c"
  by (simp_all add: upd_stream_def split: option.split)

lemma plain_start: "plain_env (run_start DefaultConfig)"
  by (simp add: plain_env_def run_start_def start_connection_def new_connection_def env_frame)
     (simp add: conn_env_def)

lemma plain_opened: "plain_env (run_opened DefaultConfig t)"
proof -
  have "conn_env (c\<lparr>heap := h, next_ref := n, streams := m, streamCount := k\<rparr>) = conn_env c" for c h n m k
    by (simp add: conn_env_def)
  then show ?thesis using plain_start
    by (simp add: plain_env_def run_opened_def open_stream_def Let_def run_start_fields env_frame_upd)
qed

lemma run_plan_tcp:
  assumes "plain_env c" "heap c r = Some s"
  obtains c' where
    "handleConnect_plan dial_env r 1 ''80'' ''a'' c = (ConnectDial True (JoinHostPort ''a'' ''80'') ''a'' False False, c')"
    "plain_env c'" "conn_rest c' = conn_rest c" "streams c' = streams c" "pendingWrites c' = pendingWrites c"
    "heap c' = (heap c)(r \<mapsto> s\<lparr>st_hostname := ''a'', st_streamType := 1, bufferRemaining := 32768\<rparr>)"
proof -
  let ?f = "\<lambda>s. s\<lparr>st_hostname := ''a''\<rparr>" and ?g = "\<lambda>s. s\<lparr>st_streamType := 1, bufferRemaining := 32768\<rparr>"
  let ?c' = "upd_stream r ?g ((upd_stream r ?f c)\<lparr>DNSCache := None\<rparr>)"
  have n: "NormalizeTargetHostname (ulower dial_env) ''a'' = ''a''"
    by (simp add: dial_env_def NormalizeTargetHostname_def to_lower_def is_ascii_def ascii_lower_def
        trim_space_ascii ascii_space_def trim_suffix_def has_suffix_def)
  have e: "config c = DefaultConfig" "DNSCache c = None" "globals c = None"
    using assms(1) by (simp_all add: plain_env_def conn_env_def)
  have "handleConnect_plan dial_env r 1 ''80'' ''a'' c =
      (ConnectDial True (JoinHostPort ''a'' ''80'') ''a'' False False, ?c')"
    unfolding handleConnect_plan_def Let_def n
    by (simp add: e frame_simps hostname_blocked_def port_blocked_def connect_limits_def resolve_target_def
        streamTypeTCP_def streamTypeUDP_def ParseIP_def Let_def)
       (simp add: DefaultConfig_def)
  moreover have "plain_env ?c'"
    using assms(1) by (intro plain_frame)
  moreover have "conn_rest (upd_stream r f d) = conn_rest d" for f d
    by (simp add: conn_rest_def upd_stream_def split: option.split)
  moreover have "conn_rest (d\<lparr>DNSCache := x\<rparr>) = conn_rest d" for d x by (simp add: conn_rest_def)
  moreover have "heap ?c' = (heap c)(r \<mapsto> s\<lparr>st_hostname := ''a'', st_streamType := 1, bufferRemaining := 32768\<rparr>)"
    using assms(2) by (auto simp: heap_upd_stream fun_eq_iff)
  ultimately show thesis by (intro that[of ?c']) (simp_all add: frame_simps)
qed

lemma run_dialled:
  assumes "plain_env c" "heap c r = Some s"
  obtains c' where
    "handleConnect_dialled dial_env r (ConnectDial True d h False False) None c = (True, c')"
    "plain_env c'" "conn_rest c' = conn_rest c" "streams c' = streams c" "pendingWrites c' = pendingWrites c"
    "heap c' = (heap c)(r \<mapsto> s\<lparr>st_conn := ConnOpen\<rparr>)"
proof -
  let ?c' = "upd_stream r (\<lambda>s. s\<lparr>st_conn := ConnOpen\<rparr>) c"
  have e: "globals ?c' = None" "streamConfirm ?c' = False" and plain: "plain_env ?c'"
    using assms(1) env_frame_upd(1)[of r "\<lambda>s. s\<lparr>st_conn := ConnOpen\<rparr>" c]
    by (simp_all add: plain_env_def conn_env_def)
  have heap: "heap ?c' = (heap c)(r \<mapsto> s\<lparr>st_conn := ConnOpen\<rparr>)"
    using assms(2) by (auto simp: heap_upd_stream fun_eq_iff)
  then have "handleConnect_dialled dial_env r (ConnectDial True d h False False) None c = (True, ?c')"
    by (simp add: handleConnect_dialled_def releaseSyn_def e)
  moreover have "conn_rest ?c' = conn_rest c" by (simp add: conn_rest_def upd_stream_def split: option.split)
  ultimately show thesis using plain heap by (intro that[of ?c']) (simp_all add: frame_simps)
qed
text \<open>The stream is dialled, connected and ready, with nothing pending, in a run without interference.\<close>

definition dialling :: "proc" where
  "dialling = PDial 0 (ConnectDial True (JoinHostPort ''a'' ''80'') ''a'' False False)"

definition dialled_stream :: wispStream where
  "dialled_stream = run_stream\<lparr>st_hostname := ''a'', st_streamType := 1, bufferRemaining := 32768\<rparr>"

lemma run_dialling:
  obtains c where "conn_reach DefaultConfig (c, {#PLoop, dialling#})" "plain_env c"
    "heap c = [0 \<mapsto> dialled_stream]" "streams c = [1 \<mapsto> 0]" "isV2 c = False"
    "spawned c = [GoConnect 0 1 ''80'' ''a'']" "pendingWrites c = pendingWrites (run_opened DefaultConfig 1)"
proof -
  let ?c = "run_opened DefaultConfig 1"
  have "FloodProtection DefaultConfig = None" by (simp add: DefaultConfig_def)
  then have reach: "conn_reach DefaultConfig (?c, {#PLoop, PStart (GoConnect 0 1 ''80'' ''a'')#})"
    by (rule run_reach_opened) (simp add: streamTypeTerm_def)
  have "heap ?c 0 = Some run_stream" by (simp add: run_opened_fields)
  then obtain c' where c': "handleConnect_plan dial_env 0 1 ''80'' ''a'' ?c =
      (ConnectDial True (JoinHostPort ''a'' ''80'') ''a'' False False, c')" "plain_env c'"
    "conn_rest c' = conn_rest ?c" "streams c' = streams ?c" "heap c' = (heap ?c)(0 \<mapsto> dialled_stream)"
    "pendingWrites c' = pendingWrites ?c"
    unfolding dialled_stream_def using run_plan_tcp[OF plain_opened] by metis
  have reach': "conn_reach DefaultConfig (c', {#PLoop, dialling#})"
    using reach_own[OF reach[unfolded add_mset_commute[of PLoop]] connect_plan[OF c'(1)]]
    by (simp add: after_plan_def dialling_def add_mset_commute)
  have "isV2 c' = False" using quiet_fields_eq(2)[OF q.plan[OF c'(1)]] by (simp add: run_opened_fields)
  then show thesis using that[OF reach' c'(2)] c'(3-6) by (simp add: run_opened_fields conn_rest_def)
qed

lemma run_closed_dialling:
  obtains c where "conn_reach DefaultConfig (c, {#dialling, PLoop#})" "plain_env c"
    "heap c 0 = Some (closed_stream dialled_stream)" "streams c = Map.empty"
proof -
  obtain c where c: "conn_reach DefaultConfig (c, {#PLoop, dialling#})" "plain_env c"
    "heap c = [0 \<mapsto> dialled_stream]" "streams c = [1 \<mapsto> 0]" "isV2 c = False"
    "spawned c = [GoConnect 0 1 ''80'' ''a'']"
    by (rule run_dialling)
  let ?bytes = "[4, 1, 0, 0, 0, 2] :: bytes"
  let ?c1 = "spawn (GoStreamClose 0 closeReasonVoluntary) c"
  have "handleWispFrame run_env ?bytes c = (DataReturn False, ?c1)" "\<not> is_data c ?bytes"
    by (simp_all add: handleWispFrame_def c(4,5) packetTypeData_def is_data_def handlePacket_def packetTypeInfo_def
        packetTypeConnect_def packetTypeClose_def handleClosePacket_def)
  from reach_own[OF c(1) loop_packet[OF this(2,1)]]
  have 1: "conn_reach DefaultConfig (?c1, {#PStart (GoStreamClose 0 closeReasonVoluntary), PLoop, dialling#})"
    by (simp add: started_def spawn_def add_mset_commute)
  let ?c2 = "stream_close 0 closeReasonVoluntary ?c1"
  have 2: "conn_reach DefaultConfig (?c2, {#dialling, PLoop#})"
    using reach_own[OF 1 close_stream] by (simp add: add_mset_commute)
  have h1: "heap ?c1 0 = Some dialled_stream" "isOpen dialled_stream" "streams ?c1 = [1 \<mapsto> 0]"
    "st_streamId dialled_stream = 1"
    by (simp_all add: spawn_def c(3,4) dialled_stream_def run_stream_def new_stream_def)
  have core: "conn_core (sendClosePacket i b d) = conn_core d" for i b and d :: wispConnection by (simp add: frame_simps)
  have p2: "plain_env ?c2" by (rule plain_frame(6)[OF plain_frame(2)[OF c(2)]])
  have h2: "heap ?c2 0 = Some (closed_stream dialled_stream)" "streams ?c2 = Map.empty"
    using h1 stream_closed_heap[OF h1(1)] core[of 1 closeReasonVoluntary "stream_closed 0 dialled_stream ?c1"]
    by (simp_all add: stream_close_cases conn_core_eq stream_closed_fields)
  show ?thesis by (rule that[OF 2 p2 h2])
qed

lemma run_dialled_closed:
  obtains c where "conn_reach DefaultConfig (c, {#PPending 0 True, PLoop#})" "streams c = Map.empty"
    "heap c 0 = Some ((closed_stream dialled_stream)\<lparr>st_conn := ConnOpen\<rparr>)" "plain_env c"
proof -
  obtain c2 where c2: "conn_reach DefaultConfig (c2, {#dialling, PLoop#})" "plain_env c2"
    "heap c2 0 = Some (closed_stream dialled_stream)" "streams c2 = Map.empty"
    by (rule run_closed_dialling)
  obtain c3 where c3: "handleConnect_dialled dial_env 0 (ConnectDial True (JoinHostPort ''a'' ''80'') ''a'' False False) None c2 = (True, c3)"
    "streams c3 = Map.empty" "heap c3 0 = Some ((closed_stream dialled_stream)\<lparr>st_conn := ConnOpen\<rparr>)" "plain_env c3"
    using run_dialled[OF c2(2,3)] c2(4) by (metis fun_upd_same)
  have 3: "conn_reach DefaultConfig (c3, {#PPending 0 True, PLoop#})"
    using reach_own[OF c2(1)[unfolded dialling_def] connect_dialled[OF c3(1)]]
    by (simp add: if_proc_def add_mset_commute)
  show ?thesis by (rule that[OF 3 c3(2-4)])
qed

text \<open>
  C35: A client that closes a stream while it is being dialled, and then disconnects, leaves behind
  an open connection to the target and a goroutine that reads from it, which no table knows.
\<close>

theorem dialled_connection_leaked:
  "\<exists>c s. conn_reach DefaultConfig (c, {#PRead 0#}) \<and> streams c = Map.empty \<and> isClosed c \<and>
     heap c 0 = Some s \<and> st_conn s = ConnOpen \<and> \<not> isOpen s"
proof -
  obtain c3 where c3: "conn_reach DefaultConfig (c3, {#PPending 0 True, PLoop#})" "streams c3 = Map.empty"
    "heap c3 0 = Some ((closed_stream dialled_stream)\<lparr>st_conn := ConnOpen\<rparr>)" "plain_env c3"
    by (rule run_dialled_closed)
  let ?c4 = "snd (take_pending 0 c3)"
  have t: "take_pending 0 c3 = ([], ?c4)"
    by (simp add: take_pending_def c3(3) closed_stream_def dialled_stream_def run_stream_def new_stream_def)
  have 4: "conn_reach DefaultConfig (?c4, {#PFlush 0 True [], PLoop#})"
    by (rule reach_own[OF c3(1) connect_pending[OF t]])
  let ?c5 = "connect_ready 0 True ?c4"
  have 5: "conn_reach DefaultConfig (?c5, {#PLoop, PRead 0#})"
    using reach_own[OF 4 connect_ready] by (simp add: add_mset_commute)
  have "plain_env ?c5"
    using c3(3,4) by (simp add: connect_ready_def signalConnReady_def take_pending_def plain_frame(1))
  then have f: "streams ?c5 = Map.empty" "twispStreams ?c5 = Map.empty"
    "\<exists>s. heap ?c5 0 = Some s \<and> st_conn s = ConnOpen \<and> \<not> isOpen s"
    using c3(2,3)
    by (simp_all add: connect_ready_def signalConnReady_def take_pending_def frame_simps heap_upd_stream
        plain_env_def conn_env_def)
  let ?c6 = "deleteAllWispStreams [] [] ?c5"
  have 6: "conn_reach DefaultConfig (?c6, {#PRead 0#})"
    by (rule reach_own[OF 5]) (rule loop_end, simp_all add: f)
  have "streams ?c6 = streams ?c5" "heap ?c6 = heap ?c5" "isClosed ?c6"
    using write_frame(1)[of ?c5]
    by (simp_all add: deleteAllWispStreams_def Let_def upd_globals_def conn_core_eq)
       (simp add: conn_close_def close_drain_def send_done_def)
  then show ?thesis using 6 f by (intro exI[of _ ?c6]) auto
qed
section \<open>Data that is never sent\<close>

lemma run_flushing:
  obtains c where "conn_reach DefaultConfig (c, {#PLoop, PFlush 0 True []#})" "plain_env c" "isV2 c = False"
    "streams c = [1 \<mapsto> 0]" "heap c = [0 \<mapsto> dialled_stream\<lparr>st_conn := ConnOpen\<rparr>]"
proof -
  obtain c where c: "conn_reach DefaultConfig (c, {#PLoop, dialling#})" "plain_env c"
    "heap c = [0 \<mapsto> dialled_stream]" "streams c = [1 \<mapsto> 0]" "isV2 c = False"
    "spawned c = [GoConnect 0 1 ''80'' ''a'']"
    by (rule run_dialling)
  have "heap c 0 = Some dialled_stream" by (simp add: c(3))
  then obtain c1 where c1: "handleConnect_dialled dial_env 0 (ConnectDial True (JoinHostPort ''a'' ''80'') ''a'' False False) None c = (True, c1)"
    "plain_env c1" "conn_rest c1 = conn_rest c" "streams c1 = streams c"
    "heap c1 = (heap c)(0 \<mapsto> dialled_stream\<lparr>st_conn := ConnOpen\<rparr>)"
    using run_dialled[OF c(2)] by metis
  have 1: "conn_reach DefaultConfig (c1, {#PPending 0 True, PLoop#})"
    using reach_own[OF c(1)[unfolded dialling_def add_mset_commute[of PLoop]] connect_dialled[OF c1(1)]]
    by (simp add: if_proc_def add_mset_commute)
  let ?s = "dialled_stream\<lparr>st_conn := ConnOpen\<rparr>"
  define c2 where "c2 = snd (take_pending 0 c1)"
  have t: "take_pending 0 c1 = ([], c2)"
    by (simp add: c2_def take_pending_def c1(5) dialled_stream_def run_stream_def new_stream_def)
  have h2: "heap c2 0 = Some ?s" "streams c2 = [1 \<mapsto> 0]" "plain_env c2" "isV2 c2 = False"
    using quiet_fields_eq(2)[OF quiet_snd[OF q.dialled[OF quiet_refl] c1(1)]] c1 c(4,5) plain_frame(1)[OF c1(2)]
    by (simp_all add: c2_def take_pending_def heap_upd_stream frame_simps dialled_stream_def run_stream_def new_stream_def)
  have hh: "heap c2 r = (if r = 0 then Some ?s else None)" for r
    using c1(5) c(3)
    by (simp add: c2_def take_pending_def heap_upd_stream dialled_stream_def run_stream_def new_stream_def)
  have 2: "conn_reach DefaultConfig (c2, {#PLoop, PFlush 0 True []#})"
    using reach_own[OF 1 connect_pending[OF t]] by (simp add: add_mset_commute)
  show ?thesis by (rule that[OF 2 h2(3,4,2)]) (simp add: hh fun_eq_iff)
qed

lemma run_late_data:
  obtains c where "conn_reach DefaultConfig (c, {#PFlush 0 True [], PLoop#})"
    "heap c 0 = Some (dialled_stream\<lparr>st_conn := ConnOpen, pendingData := [[7]], st_pendingBytes := 1\<rparr>)"
proof -
  obtain c2 where c2: "conn_reach DefaultConfig (c2, {#PLoop, PFlush 0 True []#})" "plain_env c2" "isV2 c2 = False"
    "streams c2 = [1 \<mapsto> 0]" "heap c2 = [0 \<mapsto> dialled_stream\<lparr>st_conn := ConnOpen\<rparr>]"
    by (rule run_flushing)
  let ?s = "dialled_stream\<lparr>st_conn := ConnOpen\<rparr>"
  define c3 where "c3 = snd (handleData_lookup True 1 [7] c2)"
  have l: "handleData_lookup True 1 [7] c2 = (DataGo 0, c3)" "heap c3 0 = Some ?s" "plain_env c3" "spawned c3 = spawned c2"
    using c2 plain_frame(3)[OF plain_frame(4)[OF c2(2)]] plain_frame(4)[OF c2(2)]
    by (auto simp: c3_def handleData_lookup_def cached_stream_def data_check_open_def cache_store_def Let_def
        dialled_stream_def run_stream_def new_stream_def split: option.splits if_splits)
  have data: "is_data c2 data_bytes" "packet_stream data_bytes = 1" "drop 5 data_bytes = [7]"
    by (simp_all add: is_data_def data_bytes_def c2 packetTypeData_def packet_stream_def)
  have 3: "conn_reach DefaultConfig (c3, {#PData 1 [7] 0, PFlush 0 True []#})"
    using reach_own[OF c2(1) data_lookup[OF data(1), of True, unfolded data(2,3), OF l(1)]]
    by (simp add: started_def l(4) after_lookup_def)
  have w: "handleData_wait 0 0 False [7] c3 = (True, c3)"
    using l(3) by (simp add: handleData_wait_def plain_env_def conn_env_def)
  have 4: "conn_reach DefaultConfig (c3, {#PDataReady 1 [7] 0, PFlush 0 True []#})"
    using reach_own[OF 3 data_wait[OF w]] by simp
  let ?c4 = "upd_stream 0 (\<lambda>s. s\<lparr>pendingData := pendingData s @ [[7]], st_pendingBytes := st_pendingBytes s + 1\<rparr>) c3"
  have "handleData_finish True 1 [7] 0 c3 = (DataReturn False, ?c4)"
    by (simp add: handleData_finish_def l(2)) (simp add: dialled_stream_def run_stream_def new_stream_def)
  from reach_own[OF 4 data_finish[OF this]]
  have 5: "conn_reach DefaultConfig (?c4, {#PFlush 0 True [], PLoop#})"
    by (simp add: after_finish_def started_def frame_simps add_mset_commute)
  have "heap ?c4 0 = Some (dialled_stream\<lparr>st_conn := ConnOpen, pendingData := [[7]], st_pendingBytes := 1\<rparr>)"
    by (simp add: heap_upd_stream l(2)) (simp add: dialled_stream_def run_stream_def new_stream_def)
  then show ?thesis by (rule that[OF 5])
qed


end
