(* ===== verification/Conn_Credit.thy ===== *)
theory Conn_Credit
  imports Conn_Findings
begin

text \<open>
  Flow control: the credit of a stream, counted in DATA packets, and the CONTINUE packets that
  renew it.
\<close>

section \<open>Renewal\<close>

lemma sendPacket_open:
  assumes "\<not> isClosed (sendPacket i n c)"
  shows "\<not> isClosed c" "map wr_data (pendingWrites (sendPacket i n c)) = map wr_data (pendingWrites c) @ [sendPacket_frame i n]"
  using assms
  by (auto simp: write_defs Let_def split: prod.splits submit_outcome.splits if_splits)

lemma use_credit_open: "\<not> isClosed (use_credit i r c) \<Longrightarrow> \<not> isClosed c"
  by (auto simp: use_credit_def Let_def dest: sendPacket_open split: option.splits if_splits)

lemma heap_sendPacket:
  fixes c :: wispConnection
  shows "heap (sendPacket i n c) = heap c" "config (sendPacket i n c) = config c"
  using write_frame(7,8)[of i n c] by (simp_all add: conn_core_eq conn_auth_eq)

text \<open>One use, on a stream with credit \<open>m\<close>.\<close>

lemma use_credit_step:
  assumes "heap c r = Some s" "bufferRemaining s = of_nat m" "0 < m" "m < 2 ^ 32" "\<not> isClosed (use_credit i r c)"
  defines "L \<equiv> BufferRemainingLength (config c)"
  shows "heap (use_credit i r c) r = Some (s\<lparr>bufferRemaining := (if m = 1 then L else of_nat (m - 1))\<rparr>)"
    and "map wr_data (pendingWrites (use_credit i r c)) =
      map wr_data (pendingWrites c) @ (if m = 1 then [sendPacket_frame i L] else [])"
    and "config (use_credit i r c) = config c"
proof -
  have n: "bufferRemaining s - 1 = of_nat (m - 1)" using assms(2,3) by (simp add: of_nat_diff)
  have "(of_nat (m - 1) :: u32) = 0 \<longleftrightarrow> m - 1 = 0"
    unfolding word_of_nat_eq_0_iff using assms(3,4) by (auto dest: dvd_imp_le)
  then have z: "(of_nat (m - 1) :: u32) = 0 \<longleftrightarrow> m = 1" using assms(3) by linarith
  have zero: "bufferRemaining s = 1 \<longleftrightarrow> m = 1" using z unfolding n[symmetric] by simp
  note u = use_credit_def[of i r c] assms(1) zero Let_def
  show "heap (use_credit i r c) r = Some (s\<lparr>bufferRemaining := (if m = 1 then L else of_nat (m - 1))\<rparr>)"
    using assms(1) n by (auto simp: u L_def heap_sendPacket heap_upd_stream)
  show "map wr_data (pendingWrites (use_credit i r c)) =
      map wr_data (pendingWrites c) @ (if m = 1 then [sendPacket_frame i L] else [])"
    using assms(5) by (auto simp: u L_def dest: sendPacket_open(2) split: if_splits)
  show "config (use_credit i r c) = config c"
    by (auto simp: u heap_sendPacket frame_simps)
qed


definition credit_run :: wispConnection where
  "credit_run = (run_start (DefaultConfig\<lparr>BufferRemainingLength := 2\<rparr>))\<lparr>heap := [0 \<mapsto> run_stream\<lparr>bufferRemaining := 2\<rparr>]\<rparr>"

lemma credit_run_open: "\<not> isClosed ((use_credit 1 0 ^^ 3) credit_run)"
  by (simp add: credit_run_def run_start_def start_connection_def v2Handshake_def new_connection_def numeral_3_eq_3
      use_credit_def upd_stream_def write_defs sendPacket_frame_def streamId_bytes_put maxPendingQueueBytes_def
      DefaultConfig_def defaultPendingQueueBytes_def put_uint32_le_def Let_def)


section \<open>Credit that is not counted\<close>

text \<open>DATA for a stream that is being dialled: it is queued, and nothing is sent.\<close>

definition dialling_with :: "wispConnection \<Rightarrow> wispStream \<Rightarrow> bool" where
  "dialling_with c s \<longleftrightarrow> conn_reach DefaultConfig (c, {#PLoop, dialling#}) \<and> plain_env c \<and>
     heap c = [0 \<mapsto> s] \<and> streams c = [1 \<mapsto> 0] \<and> \<not> isV2 c \<and>
     pendingWrites c = pendingWrites (run_opened DefaultConfig 1)"

lemma lookup_open:
  assumes "heap c = [0 \<mapsto> s]" "streams c = [1 \<mapsto> 0]" "st_streamId s = 1" "isOpen s" "plain_env c"
  obtains c' where "handleData_lookup True 1 p c = (DataGo 0, c')" "heap c' = heap c" "streams c' = streams c"
    "plain_env c'" "spawned c' = spawned c" "pendingWrites c' = pendingWrites c" "isV2 c' = isV2 c"
proof -
  define c' where "c' = snd (handleData_lookup True 1 p c)"
  have "handleData_lookup True 1 p c = (DataGo 0, c')" "heap c' = heap c" "streams c' = streams c"
    "plain_env c'" "spawned c' = spawned c" "pendingWrites c' = pendingWrites c" "isV2 c' = isV2 c"
    using assms(1-4) plain_frame(3)[OF plain_frame(4)[OF assms(5)]] plain_frame(4)[OF assms(5)]
    by (auto simp: c'_def handleData_lookup_def cached_stream_def data_check_open_def cache_store_def Let_def
        split: option.splits if_splits)
  then show thesis by (rule that)
qed

lemma data_while_dialling:
  assumes "dialling_with c s" "st_streamId s = 1" "isOpen s" "\<not> connReadyDone s" "st_pendingBytes s < 16777216"
  obtains c' where "dialling_with c' (s\<lparr>pendingData := pendingData s @ [[7]], st_pendingBytes := st_pendingBytes s + 1\<rparr>)"
proof -
  have c: "conn_reach DefaultConfig (c, {#PLoop, dialling#})" "plain_env c" "heap c = [0 \<mapsto> s]"
    "streams c = [1 \<mapsto> 0]" "\<not> isV2 c" "pendingWrites c = pendingWrites (run_opened DefaultConfig 1)"
    using assms(1) by (auto simp: dialling_with_def)
  obtain c1 where l: "handleData_lookup True 1 [7] c = (DataGo 0, c1)" "heap c1 = heap c" "streams c1 = streams c"
    "plain_env c1" "spawned c1 = spawned c" "pendingWrites c1 = pendingWrites c" "isV2 c1 = isV2 c"
    by (rule lookup_open[OF c(3,4) assms(2,3) c(2)])
  have data: "is_data c data_bytes" "packet_stream data_bytes = 1" "drop 5 data_bytes = [7]"
    using c(5) by (simp_all add: is_data_def data_bytes_def packetTypeData_def packet_stream_def)
  have 1: "conn_reach DefaultConfig (c1, {#PData 1 [7] 0, dialling#})"
    using reach_own[OF c(1) data_lookup[OF data(1), of True, unfolded data(2,3), OF l(1)]]
    by (simp add: started_def l(5) after_lookup_def)
  have w: "handleData_wait 0 0 False [7] c1 = (True, c1)"
    using l(4) by (simp add: handleData_wait_def plain_env_def conn_env_def)
  let ?f = "\<lambda>s. s\<lparr>pendingData := pendingData s @ [[7]], st_pendingBytes := st_pendingBytes s + 1\<rparr>"
  have "handleData_finish True 1 [7] 0 c1 = (DataReturn False, upd_stream 0 ?f c1)"
    using assms(4,5) by (simp add: handleData_finish_def l(2) c(3))
  from reach_own[OF reach_own[OF 1 data_wait[OF w], simplified] data_finish[OF this]]
  have "conn_reach DefaultConfig (upd_stream 0 ?f c1, {#PLoop, dialling#})"
    by (simp add: after_finish_def started_def frame_simps)
  moreover have "heap (upd_stream 0 ?f c1) = [0 \<mapsto> ?f s]" by (auto simp: heap_upd_stream l(2) c(3))
  ultimately have "dialling_with (upd_stream 0 ?f c1) (?f s)"
    using l c plain_frame(1)[OF l(4)] by (simp add: dialling_with_def frame_simps)
  then show thesis by (rule that)
qed

lemma much_data_while_dialling:
  "k \<le> 16777216 \<Longrightarrow>
     \<exists>c. dialling_with c (dialled_stream\<lparr>pendingData := replicate k [7], st_pendingBytes := int k\<rparr>)"
proof (induction k)
  case 0
  obtain c where c: "conn_reach DefaultConfig (c, {#PLoop, dialling#})" "plain_env c"
    "heap c = [0 \<mapsto> dialled_stream]" "streams c = [1 \<mapsto> 0]" "isV2 c = False"
    "pendingWrites c = pendingWrites (run_opened DefaultConfig 1)"
    by (rule run_dialling)
  have "dialled_stream\<lparr>pendingData := [], st_pendingBytes := 0\<rparr> = dialled_stream"
    by (simp add: dialled_stream_def run_stream_def new_stream_def)
  then show ?case using c by (auto simp: dialling_with_def)
next
  case (Suc k)
  let ?s = "dialled_stream\<lparr>pendingData := replicate k [7], st_pendingBytes := int k\<rparr>"
  obtain c where c: "dialling_with c ?s" using Suc by auto
  have f: "st_streamId ?s = 1" "isOpen ?s" "\<not> connReadyDone ?s" "st_pendingBytes ?s < 16777216"
    using Suc.prems by (simp_all add: dialled_stream_def run_stream_def new_stream_def)
  show ?case by (rule data_while_dialling[OF c f]) (auto simp: replicate_append_same add.commute)
qed

text \<open>The flush of pending data, every write of which succeeds.\<close>

lemma flush_run:
  assumes "conn_reach cfg (c, {#PFlush 0 True ds, PLoop#})" "heap c 0 = Some s" "isOpen s"
  shows "\<exists>c'. conn_reach cfg (c', {#PFlush 0 True [], PLoop#}) \<and>
    heap c' 0 = Some (s\<lparr>st_written := st_written s @ ds\<rparr>) \<and> pendingWrites c' = pendingWrites c"
  using assms
proof (induction ds arbitrary: c s)
  case (Cons d ds)
  let ?c = "upd_stream 0 (target_written d) c"
  have "flush_one 0 d True c = (True, ?c)" using Cons.prems by (simp add: flush_one_def)
  from reach_own[OF Cons.prems(1) connect_flush[OF this]]
  have "conn_reach cfg (?c, {#PFlush 0 True ds, PLoop#})" by (simp add: if_proc_def add_mset_commute)
  from Cons.IH[OF this, of "target_written d s"] show ?case
    using Cons.prems by (simp add: heap_upd_stream target_written_def)
qed auto

lemma initial_grant: "map wr_data (pendingWrites (run_opened DefaultConfig 1)) = [sendPacket_frame 0 32768]"
  by (simp add: run_opened_def open_stream_def run_start_fields Let_def spawn_def)
     (simp add: run_start_def start_connection_def v2Handshake_def new_connection_def write_defs sendPacket_frame_def
       streamId_bytes_put maxPendingQueueBytes_def DefaultConfig_def defaultPendingQueueBytes_def put_uint32_le_def Let_def)

text \<open>
  C33: A client can be starved by the server's accounting: DATA sent while its stream is being dialled
  uses up the client's credit but is not counted by the server. After all the credit of the only
  grant has been used this way, every packet has been written to the target and all of the server's
  goroutines are waiting, but its counter is still full and no CONTINUE has been queued.
\<close>

theorem credit_starvation:
  "\<exists>c s. conn_reach DefaultConfig (c, {#PLoop, PRead 0#}) \<and> heap c 0 = Some s \<and> isOpen s \<and> connReadyDone s \<and>
     st_streamType s = streamTypeTCP \<and> st_written s = replicate 32768 [7] \<and> pendingData s = [] \<and>
     bufferRemaining s = 32768 \<and> map wr_data (pendingWrites c) = [sendPacket_frame 0 32768]"
proof -
  define ps :: "bytes list" where "ps = replicate 32768 [7]"
  let ?s = "dialled_stream\<lparr>pendingData := ps, st_pendingBytes := int 32768\<rparr>"
  have "\<exists>c. dialling_with c ?s" unfolding ps_def by (rule much_data_while_dialling) simp
  then obtain c where c: "conn_reach DefaultConfig (c, {#PLoop, dialling#})" "plain_env c" "heap c 0 = Some ?s"
    "pendingWrites c = pendingWrites (run_opened DefaultConfig 1)"
    unfolding dialling_with_def by (metis fun_upd_same)
  obtain c1 where c1: "handleConnect_dialled dial_env 0 (ConnectDial True (JoinHostPort ''a'' ''80'') ''a'' False False) None c = (True, c1)"
    "pendingWrites c1 = pendingWrites c" "heap c1 = (heap c)(0 \<mapsto> ?s\<lparr>st_conn := ConnOpen\<rparr>)"
    using run_dialled[OF c(2,3)] by metis
  have 1: "conn_reach DefaultConfig (c1, {#PPending 0 True, PLoop#})"
    using reach_own[OF c(1)[unfolded dialling_def add_mset_commute[of PLoop]] connect_dialled[OF c1(1)]]
    by (simp add: if_proc_def add_mset_commute)
  let ?t = "?s\<lparr>st_conn := ConnOpen, pendingData := [], st_pendingBytes := 0\<rparr>"
  obtain c2 where c2: "take_pending 0 c1 = (ps, c2)" "heap c2 0 = Some ?t" "pendingWrites c2 = pendingWrites c"
    by (simp add: take_pending_def c1(3) heap_upd_stream c1(2))
  have "isOpen ?t" by (simp add: dialled_stream_def run_stream_def new_stream_def)
  from flush_run[OF reach_own[OF 1 connect_pending[OF c2(1)]] c2(2) this] obtain c3 where
    c3: "conn_reach DefaultConfig (c3, {#PFlush 0 True [], PLoop#})" "pendingWrites c3 = pendingWrites c"
    "heap c3 0 = Some (?t\<lparr>st_written := st_written ?t @ ps\<rparr>)"
    unfolding c2(3) by blast
  let ?c = "connect_ready 0 True c3"
  have "conn_reach DefaultConfig (?c, {#PLoop, PRead 0#})"
    using reach_own[OF c3(1) connect_ready] by (simp add: add_mset_commute)
  moreover have "map wr_data (pendingWrites ?c) = [sendPacket_frame 0 32768]"
    using initial_grant by (simp add: connect_ready_def signalConnReady_def c3(2) c(4))
  ultimately show ?thesis using c3(3) unfolding ps_def[symmetric]
    by (intro exI[of _ ?c]) (simp add: connect_ready_def signalConnReady_def heap_upd_stream dialled_stream_def
        run_stream_def new_stream_def streamTypeTCP_def)
qed

end
