(* ===== verification/Conn_Packets.thy ===== *)
theory Conn_Packets
  imports Conn_System
begin

text \<open>
  The operations of the read loop that open something, for any relation that allows it, and from
  them every step of a connection: a contract that the primitive changes keep is kept by all
  interleavings. \<open>Conn_Lives\<close> and \<open>Conn_Slots\<close> interpret it.
\<close>

locale packet_ops = goroutine_ops +
  assumes open_new: "streams c i = None \<Longrightarrow>
      R c (c\<lparr>heap := (heap c)(next_ref c \<mapsto> new_stream ulow i port host), next_ref := Suc (next_ref c),
             streams := (streams c)(i \<mapsto> next_ref c), streamCount := wrap32 (streamCount c + 1)\<rparr>)"
    and ask_terminal: "R c (spawn (GoTwisp i cmd) c)"
    and info_answer: "R c (c\<lparr>authenticated := ok, streamConfirm := confirm\<rparr>)"
    and info_over: "R c (c\<lparr>handshakePending := False\<rparr>)"
    and terminal_new: "R c (c\<lparr>twisp_heap := (twisp_heap c)(next_ref c \<mapsto> twisp_start i),
             next_ref := Suc (next_ref c), twispStreams := (twispStreams c)(i \<mapsto> next_ref c)\<rparr>)"
begin

section \<open>Packets\<close>

lemma opened:
  assumes "R c0 c" shows "R c0 (open_stream ulow i t port host c)"
proof (cases "streams c i")
  case None
  let ?c = "c\<lparr>heap := (heap c)(next_ref c \<mapsto> new_stream ulow i port host), next_ref := Suc (next_ref c),
              streams := (streams c)(i \<mapsto> next_ref c), streamCount := wrap32 (streamCount c + 1)\<rparr>"
  have "R c0 ?c" by (rule trans[OF assms open_new[OF None]])
  then have "R c0 (spawn (GoConnect (next_ref c) t (dec_digits (unat port)) host) ?c)"
    by (rule trans[OF _ start]) (simp add: may_start_def)
  then show ?thesis using None by (simp add: open_stream_def Let_def)
qed (use assms in \<open>simp add: open_stream_def Let_def op_intros\<close>)

lemma twisp_connect: "R c0 c \<Longrightarrow> R c0 (handleTwispConnect now i cmd c)"
  by (auto simp: handleTwispConnect_def intro!: op_intros intro: trans[OF _ ask_terminal])

lemma connect_packet: "R c (handleConnectPacket ulow clk i p c)"
proof -
  obtain ok c1 where s: "source_allowed (clk 0) c = (ok, c1)" by fastforce
  then have "R c c1" using source[OF refl, of c "clk 0"] by simp
  then show ?thesis unfolding handleConnectPacket_def Let_def s
    by (auto intro!: op_intros opened twisp_connect split: bool.split)
qed

lemma info_packet: "R c (handleInfo bc d i p c)"
proof (cases "info_verdict bc (config c) p")
  case (InfoAccept ok confirm)
  have "R c (sendPacket 0 (BufferRemainingLength (config c)) (c\<lparr>authenticated := ok, streamConfirm := confirm\<rparr>))"
    by (intro op_intros info_answer)
  then show ?thesis using InfoAccept trans[OF _ info_over] by (simp add: handleInfo_def refl)
qed (auto simp: handleInfo_def intro!: op_intros)

lemma packet: "R c (handlePacket env k i p c)"
  by (auto simp: handlePacket_def intro: refl info_packet connect_packet close_packet resize)

lemma frame: "R c (snd (handleWispFrame env packet c))"
  using packet data by (auto simp: handleWispFrame_def Let_def refl)

lemma start_terminal: "R c (handleTwisp ok i cmd c)"
proof -
  let ?t = "next_ref c"
  let ?c = "c\<lparr>twisp_heap := (twisp_heap c)(?t \<mapsto> twisp_start i), next_ref := Suc ?t,
             twispStreams := (twispStreams c)(i \<mapsto> ?t)\<rparr>"
  have "R c (spawn (GoPtyReader ?t) ?c)" by (rule trans[OF terminal_new start]) (simp add: may_start_def)
  then have "R c (spawn (GoPtyWaiter ?t) (spawn (GoPtyReader ?t) ?c))"
    by (rule trans[OF _ start]) (simp add: may_start_def spawn_def)
  then show ?thesis by (auto simp: handleTwisp_def Let_def intro!: op_intros split: option.split)
qed

section \<open>Steps\<close>

lemma result: "R c (snd x) \<Longrightarrow> x = (y, c') \<Longrightarrow> R c c'"
  by simp

text \<open>Every step but the two of the connecting goroutine that use the shared semaphore.\<close>

lemma own_cases:
  assumes "own_step (c, ps) (c', ps')"
  obtains "R c c'"
  | env r t port host plan qs where "ps = add_mset (PStart (GoConnect r t port host)) qs"
      "ps' = after_plan r plan + qs" "handleConnect_plan env r t port host c = (plan, c')"
  | env r plan err go qs where "ps = add_mset (PDial r plan) qs"
      "ps' = if_proc go (PPending r (dialTCP plan)) + qs" "handleConnect_dialled env r plan err c = (go, c')"
  using assms
proof (cases rule: own_step.cases)
  case (ingress_batch r batch qs)
  then show ?thesis using that(1) ingress_take[OF refl, of c r] by simp
next
  case (terminal ok i cmd qs)
  show ?thesis by (rule that(1)) (simp add: terminal(3)[symmetric] start_terminal)
next
  case (connect_plan env r t port host plan qs)
  then show ?thesis using that(2) by blast
next
  case (connect_dialled env r plan err go qs)
  then show ?thesis using that(3) by blast
qed (auto simp: op_intros delete_all ready pty_waiter twisp_close
       intro!: that(1) elim!: result[rotated]
       intro: frame lookup wait finish take_pending flush_one read_turn ingress_write pty_turn)

end

text \<open>A relation that does not restrict the shared state holds of every step.\<close>

locale connection_ops = packet_ops + goroutine_ops_open
begin

lemma own: "own_step (c, ps) (c', ps') \<Longrightarrow> R c c'"
  by (erule own_cases) (auto intro: plan dest: dialled[OF refl, THEN result])

lemma step: "conn_step (c, ps) (c', ps') \<Longrightarrow> R c c'"
  by (erule conn_stepE) (auto intro: own shared_any[OF fields(1)[OF refl]])

end

end
