(* ===== verification/Conn_Lives.thy ===== *)
theory Conn_Lives
  imports Conn_Packets Conn_Runs
begin

text \<open>
  Every stream object of a connection lives by the rules of \<open>Stream_Life\<close>, whatever order the
  goroutines run in, and no goroutine or table ever holds a reference to nothing.
\<close>

section \<open>The heap after the primitive changes\<close>

lemma heap_stream_close:
  "heap (stream_close r reason c) =
     (case heap c r of None \<Rightarrow> heap c
      | Some s \<Rightarrow> if isOpen s then (heap c)(r \<mapsto> closed_stream s) else heap c)"
proof -
  have "heap (sendClosePacket i b c') = heap c'" for i b and c' :: wispConnection
    using write_frame(9)[of i b c'] by (simp add: conn_core_eq)
  then show ?thesis by (auto simp: stream_close_cases stream_closed_heap split: option.split)
qed

lemma next_ref_stream_close: "next_ref (stream_close r reason c) = next_ref c"
proof -
  have "next_ref (sendClosePacket i b c') = next_ref c'" for i b and c' :: wispConnection
    using write_frame(9)[of i b c'] by (simp add: conn_core_eq)
  then show ?thesis by (auto simp: stream_close_cases stream_closed_fields split: option.split)
qed

lemma cache_after_close:
  "streamCache (stream_close r reason c) k = Some x \<Longrightarrow> streamCache c k = Some x"
proof -
  have "streamCache (sendClosePacket i b c') = streamCache c'" for i b and c' :: wispConnection
    using write_frame(9)[of i b c'] by (simp add: conn_core_eq)
  then show "streamCache (stream_close r reason c) k = Some x \<Longrightarrow> streamCache c k = Some x"
    by (auto simp: stream_close_cases stream_closed_fields deleteWispStream_def Let_def split: option.splits if_splits)
qed

lemma rest_stream_close: "conn_rest (stream_close r reason c) = conn_rest c"
proof -
  have "conn_rest (upd_stream q f c') = conn_rest c'" for q f c'
    by (simp add: conn_rest_def upd_stream_def split: option.split)
  moreover have "conn_rest (deleteWispStream i c') = conn_rest c'" for i c'
    by (simp add: conn_rest_def deleteWispStream_def Let_def)
  ultimately show ?thesis
    by (simp add: stream_close_def signalConnReady_def Let_def frame_simps split: option.split)
qed

section \<open>Lives\<close>

definition born :: "int \<Rightarrow> wispStream \<Rightarrow> bool" where
  "born cap s \<longleftrightarrow> (\<exists>ulow i port host. (stream_step cap)\<^sup>*\<^sup>* (new_stream ulow i port host) s)"

definition fresh_above :: "wispConnection \<Rightarrow> bool" where
  "fresh_above c \<longleftrightarrow> (\<forall>r. next_ref c \<le> r \<longrightarrow> heap c r = None)"

definition lives :: "wispConnection \<Rightarrow> wispConnection \<Rightarrow> bool" where
  "lives c c' \<longleftrightarrow> config c' = config c \<and> (fresh_above c \<longrightarrow> fresh_above c' \<and>
     (\<forall>r s. heap c r = Some s \<longrightarrow> (\<exists>s'. heap c' r = Some s' \<and> (stream_step (maxPendingQueueBytes c))\<^sup>*\<^sup>* s s')) \<and>
     (\<forall>r s'. heap c r = None \<longrightarrow> heap c' r = Some s' \<longrightarrow> born (maxPendingQueueBytes c) s'))"

lemma livesE:
  assumes "lives c c'" "fresh_above c" "heap c r = Some s"
  obtains s' where "heap c' r = Some s'" "(stream_step (maxPendingQueueBytes c))\<^sup>*\<^sup>* s s'"
  using assms unfolding lives_def by blast

lemma livesD:
  assumes "lives c c'"
  shows "config c' = config c" "fresh_above c \<Longrightarrow> fresh_above c'"
    "fresh_above c \<Longrightarrow> heap c r = None \<Longrightarrow> heap c' r = Some s' \<Longrightarrow> born (maxPendingQueueBytes c) s'"
  using assms unfolding lives_def by blast+

lemma cap_config: "config c' = config c \<Longrightarrow> maxPendingQueueBytes c' = maxPendingQueueBytes c"
  by (simp add: maxPendingQueueBytes_def)

lemma stream_steps_moves: "(stream_move cap)\<^sup>*\<^sup>* s s' \<Longrightarrow> (stream_step cap)\<^sup>*\<^sup>* s s'"
  by (erule mono_rtranclp[rule_format, rotated]) (simp add: stream_step_def)

lemma lives_same_heap:
  "config c' = config c \<Longrightarrow> heap c' = heap c \<Longrightarrow> next_ref c \<le> next_ref c' \<Longrightarrow> lives c c'"
  by (auto simp: lives_def fresh_above_def)

lemma lives_trans:
  assumes "lives c0 c" "lives c c'" shows "lives c0 c'"
proof (cases "fresh_above c0")
  case True
  then have fr: "fresh_above c" "fresh_above c'" using livesD(2) assms by blast+
  have cfg: "config c' = config c0" "maxPendingQueueBytes c = maxPendingQueueBytes c0"
    using livesD(1)[OF assms(1)] livesD(1)[OF assms(2)] cap_config by simp_all
  have steps: "\<exists>s'. heap c' r = Some s' \<and> (stream_step (maxPendingQueueBytes c0))\<^sup>*\<^sup>* s s'"
    if "heap c0 r = Some s" for r s
    using livesE[OF assms(1) True that] livesE[OF assms(2) fr(1)] cfg(2) by (metis rtranclp_trans)
  have "born (maxPendingQueueBytes c0) s'" if "heap c0 r = None" "heap c' r = Some s'" for r s'
  proof (cases "heap c r")
    case None
    then show ?thesis using livesD(3)[OF assms(2) fr(1) None that(2)] cfg(2) by simp
  next
    case (Some s)
    have "born (maxPendingQueueBytes c0) s" by (rule livesD(3)[OF assms(1) True that(1) Some])
    moreover have "(stream_step (maxPendingQueueBytes c0))\<^sup>*\<^sup>* s s'"
      by (rule livesE[OF assms(2) fr(1) Some]) (use that cfg(2) in simp)
    ultimately show ?thesis unfolding born_def by (meson rtranclp_trans)
  qed
  then show ?thesis unfolding lives_def using cfg(1) steps fr by blast
qed (use assms in \<open>simp add: lives_def\<close>)

lemma lives_upd: "moves c r f \<Longrightarrow> lives c (upd_stream r f c)"
  by (auto simp: lives_def fresh_above_def frame_simps heap_upd_stream moves_def dest: stream_steps_moves)

lemma lives_close: "lives c (stream_close r reason c)"
  using stream_close_auth[of r reason c]
  by (auto simp: lives_def fresh_above_def conn_auth_eq heap_stream_close next_ref_stream_close stream_step_def
      intro!: r_into_rtranclp split: option.split)

lemma lives_open:
  "lives c (c\<lparr>heap := (heap c)(next_ref c \<mapsto> new_stream ulow i port host), next_ref := Suc (next_ref c),
             streams := m, streamCount := n\<rparr>)"
  unfolding lives_def fresh_above_def born_def by auto

interpretation l: connection_ops lives
proof unfold_locales
  fix c c' :: wispConnection
  assume "conn_core c' = conn_core c" "conn_auth c' = conn_auth c"
  then show "lives c c'" by (intro lives_same_heap) (simp_all add: conn_core_eq conn_auth_eq)
qed (use lives_trans lives_upd lives_close lives_open in
      \<open>auto intro!: lives_same_heap simp: spawn_def cache_store_def upd_twisp_def split: option.split\<close>)

lemma reach_lives:
  assumes "conn_reach cfg (c, ps)" "conn_step (c, ps) (c', ps')" "heap c r = Some s"
  obtains s' where "heap c' r = Some s'" "(stream_step (maxPendingQueueBytes c))\<^sup>*\<^sup>* s s'"
proof -
  have "fresh_above c" using conn_reach_inv[OF assms(1)] by (simp add: sys_inv_def conn_inv_def fresh_above_def)
  from livesE[OF l.step[OF assms(2)] this assms(3)] that show thesis .
qed

lemma reach_born:
  assumes "conn_reach cfg s" shows "\<forall>r t. heap (fst s) r = Some t \<longrightarrow> born (maxPendingQueueBytes (fst s)) t"
  using assms
proof (induction rule: conn_reach.induct)
  case (reach_start dns g ip cid v2)
  then show ?case using start_same(1)[of cfg dns g ip cid v2] by (simp add: conn_core_eq new_connection_def)
next
  case (reach_step s s')
  obtain c ps c' ps' where s: "s = (c, ps)" "s' = (c', ps')" by fastforce
  have st: "conn_step (c, ps) (c', ps')" and re: "conn_reach cfg (c, ps)" using reach_step s by simp_all
  have "fresh_above c" using conn_reach_inv[OF re] by (simp add: sys_inv_def conn_inv_def fresh_above_def)
  then have lv: "\<And>r t'. heap c r = None \<Longrightarrow> heap c' r = Some t' \<Longrightarrow> born (maxPendingQueueBytes c) t'"
    and cap: "maxPendingQueueBytes c' = maxPendingQueueBytes c"
    using livesD[OF l.step[OF st]] cap_config[of c' c] by blast+
  have "born (maxPendingQueueBytes c) t'" if "heap c' r = Some t'" for r t'
  proof (cases "heap c r")
    case (Some t)
    then obtain t2 where "heap c' r = Some t2" "(stream_step (maxPendingQueueBytes c))\<^sup>*\<^sup>* t t2"
      using reach_lives[OF re st] by blast
    moreover have "born (maxPendingQueueBytes c) t" using reach_step.IH Some s by simp
    ultimately show ?thesis using that unfolding born_def by (metis option.inject rtranclp_trans)
  qed (use lv that in blast)
  then show ?case using s cap by simp
qed

lemma run_lives:
  assumes "conn_step\<^sup>*\<^sup>* s s'" "conn_reach cfg s" "heap (fst s) r = Some t"
  shows "\<exists>t'. heap (fst s') r = Some t' \<and> (stream_step (maxPendingQueueBytes (fst s)))\<^sup>*\<^sup>* t t'"
    and "conn_reach cfg s'"
  using assms
proof (induction rule: rtranclp_induct)
  case (step y z)
  obtain c ps c' ps' where s: "y = (c, ps)" "z = (c', ps')" by fastforce
  { case 1
    obtain t2 where t2: "heap c r = Some t2" "(stream_step (maxPendingQueueBytes (fst s)))\<^sup>*\<^sup>* t t2"
      using step.IH(1) 1 s by auto
    have re: "conn_reach cfg (c, ps)" using step.IH(2) 1 s by simp
    have "config (fst s) = config c" using conn_reach_inv[OF re] conn_reach_inv[OF 1(1)] by simp
    then have cap: "maxPendingQueueBytes (fst s) = maxPendingQueueBytes c" by (rule cap_config)
    from reach_lives[OF re step.hyps(2)[unfolded s] t2(1)] show ?case
      using t2(2) cap s by (metis fst_conv rtranclp_trans)
  next
    case 2
    then show ?case using step by (auto intro: conn_reach.reach_step)
  }
qed auto

section \<open>Properties\<close>

text \<open>
  C13: Refinement of the life of a stream: whatever the goroutines of a connection do in whatever
  order, every stream object stays where it is and changes only by the moves of the abstract
  stream, so that a closed stream never opens again, a stream that became ready stays ready, its
  id is fixed, and what was written to its target is only ever extended.
\<close>

theorem streams_live_by_the_rules:
  assumes "conn_reach cfg (c, ps)" and "conn_step\<^sup>*\<^sup>* (c, ps) (c', ps')" and "heap c r = Some s"
  shows "\<exists>s'. heap c' r = Some s' \<and> (stream_step (maxPendingQueueBytes c))\<^sup>*\<^sup>* s s' \<and> flags_le s s'"
  using run_lives(1)[OF assms(2,1)] assms(3) stream_steps_flags by fastforce

theorem streams_live_by_the_rules_witness:
  "\<exists>s'. heap (deleteAllWispStreams [0] [] (run_opened DefaultConfig 1)) 0 = Some s' \<and> flags_le run_stream s'"
proof -
  let ?c = "run_opened DefaultConfig 1" and ?ps = "{#PStart (GoConnect 0 1 ''80'' ''a'')#}"
  have "FloodProtection DefaultConfig = None" by (simp add: DefaultConfig_def)
  then have 1: "conn_reach DefaultConfig (?c, add_mset PLoop ?ps)"
    using run_reach_opened[of DefaultConfig 1] by (simp add: streamTypeTerm_def)
  have "twispStreams ?c = Map.empty"
    by (simp add: run_opened_def open_stream_def run_start_fields Let_def spawn_def)
  then have "own_step (?c, add_mset PLoop ?ps) (deleteAllWispStreams [0] [] ?c, ?ps)"
    by (intro loop_end) (simp_all add: run_opened_fields)
  then have "conn_step\<^sup>*\<^sup>* (?c, add_mset PLoop ?ps) (deleteAllWispStreams [0] [] ?c, ?ps)"
    by (intro r_into_rtranclp own)
  from streams_live_by_the_rules[OF 1 this, of 0 run_stream] show ?thesis
    by (auto simp: run_opened_fields)
qed

text \<open>
  C16: In every reachable state the data waiting for a target that is not ready is counted exactly
  and at most 16 MiB, and the data queued for a writer is counted exactly and within the
  configured bound.
\<close>

theorem stream_buffers_bounded:
  assumes "conn_reach cfg (c, ps)" and "heap c r = Some s"
  shows "st_pendingBytes s = (\<Sum>p\<leftarrow>pendingData s. int (length p)) \<and> st_pendingBytes s \<le> 16777216 \<and>
    pendingIngBytes s = (\<Sum>p\<leftarrow>pendingIngress s. int (length p)) \<and> pendingIngBytes s \<le> maxPendingQueueBytes c"
proof -
  have "born (maxPendingQueueBytes c) s" using reach_born[OF assms(1)] assms(2) by simp
  then obtain ulow i port host where
    b: "(stream_step (maxPendingQueueBytes c))\<^sup>*\<^sup>* (new_stream ulow i port host) s"
    by (auto simp: born_def)
  have cap: "0 \<le> maxPendingQueueBytes c" by (simp add: maxPendingQueueBytes_def defaultPendingQueueBytes_def)
  have "buffers_ok (maxPendingQueueBytes c) (new_stream ulow i port host)"
    using cap by (simp add: buffers_ok_def new_stream_def maxPendingData_def)
  from stream_steps_buffers[OF b cap this] show ?thesis
    by (simp add: buffers_ok_def maxPendingData_def job_bytes_def)
qed

theorem stream_buffers_bounded_witness:
  "pendingIngBytes run_stream \<le> maxPendingQueueBytes (run_opened DefaultConfig 1)"
proof -
  have "FloodProtection DefaultConfig = None" by (simp add: DefaultConfig_def)
  then have "conn_reach DefaultConfig (run_opened DefaultConfig 1, {#PLoop, PStart (GoConnect 0 1 ''80'' ''a'')#})"
    by (rule run_reach_opened) (simp add: streamTypeTerm_def)
  from stream_buffers_bounded[OF this, of 0 run_stream] show ?thesis by (simp add: run_opened_fields)
qed

end
