(* ===== verification/Conn_Refs.thy ===== *)
theory Conn_Refs
  imports Conn_Lives
begin

text \<open>
  Typing of the references of a connection: every reference in a table, in the cache and in a
  goroutine points to an object of its kind. The branches of the model for a reference to nothing
  stand for no behaviour of the program; this is the proof that they are never taken.
\<close>

section \<open>Well-typed states\<close>

definition stream_ref :: "wispConnection \<Rightarrow> nat \<Rightarrow> bool" where
  "stream_ref c r \<longleftrightarrow> r \<in> dom (heap c)"

definition terminal_ref :: "wispConnection \<Rightarrow> nat \<Rightarrow> bool" where
  "terminal_ref c t \<longleftrightarrow> t \<in> dom (twisp_heap c)"

fun goroutine_typed :: "wispConnection \<Rightarrow> goroutine \<Rightarrow> bool" where
  "goroutine_typed c (GoConnect r t port host) = stream_ref c r"
| "goroutine_typed c (GoStreamClose r reason) = stream_ref c r"
| "goroutine_typed c (GoIngressWriter r) = stream_ref c r"
| "goroutine_typed c (GoTwisp i cmd) = True"
| "goroutine_typed c (GoTwispClose t reason) = terminal_ref c t"
| "goroutine_typed c (GoPtyReader t) = terminal_ref c t"
| "goroutine_typed c (GoPtyWaiter t) = terminal_ref c t"

fun proc_typed :: "wispConnection \<Rightarrow> proc \<Rightarrow> bool" where
  "proc_typed c PLoop = True"
| "proc_typed c (PData i p r) = stream_ref c r"
| "proc_typed c (PDataReady i p r) = stream_ref c r"
| "proc_typed c PPanic = True"
| "proc_typed c (PStart g) = goroutine_typed c g"
| "proc_typed c (PDial r plan) = stream_ref c r"
| "proc_typed c (PPending r tcp) = stream_ref c r"
| "proc_typed c (PFlush r tcp ds) = stream_ref c r"
| "proc_typed c (PRead r) = stream_ref c r"
| "proc_typed c (PIngress r b) = stream_ref c r"

definition refs_typed :: "wispConnection \<Rightarrow> bool" where
  "refs_typed c \<longleftrightarrow> ran (streams c) \<subseteq> dom (heap c) \<and> ran (streamCache c) \<subseteq> dom (heap c) \<and>
     ran (twispStreams c) \<subseteq> dom (twisp_heap c) \<and> (\<forall>g\<in>set (spawned c). goroutine_typed c g)"

section \<open>Every step keeps the types\<close>

definition grows :: "wispConnection \<Rightarrow> wispConnection \<Rightarrow> bool" where
  "grows c c' \<longleftrightarrow> dom (heap c) \<subseteq> dom (heap c') \<and> dom (twisp_heap c) \<subseteq> dom (twisp_heap c')"

definition keeps_types :: "wispConnection \<Rightarrow> wispConnection \<Rightarrow> bool" where
  "keeps_types c c' \<longleftrightarrow> grows c c' \<and> (refs_typed c \<longrightarrow> refs_typed c')"

lemma ref_grows: "grows c c' \<Longrightarrow> stream_ref c r \<Longrightarrow> stream_ref c' r"
  "grows c c' \<Longrightarrow> terminal_ref c t \<Longrightarrow> terminal_ref c' t"
  by (auto simp: grows_def stream_ref_def terminal_ref_def)

lemma goroutine_grows: "grows c c' \<Longrightarrow> goroutine_typed c g \<Longrightarrow> goroutine_typed c' g"
  by (cases g) (auto intro: ref_grows)

lemma proc_grows: "grows c c' \<Longrightarrow> proc_typed c p \<Longrightarrow> proc_typed c' p"
  by (cases p) (auto intro: ref_grows goroutine_grows)

text \<open>A change that only adds objects, forgets references, and starts no goroutine.\<close>

lemma keeps_typesI:
  assumes "grows c c'" "ran (streams c') \<subseteq> ran (streams c)" "ran (streamCache c') \<subseteq> ran (streamCache c)"
    "ran (twispStreams c') \<subseteq> ran (twispStreams c)" "spawned c' = spawned c"
  shows "keeps_types c c'"
  unfolding keeps_types_def
proof (intro conjI impI)
  assume "refs_typed c"
  then show "refs_typed c'" using assms goroutine_grows[OF assms(1)]
    unfolding refs_typed_def grows_def by (intro conjI) (blast intro: subset_trans, blast intro: subset_trans, blast intro: subset_trans, simp)
qed (rule assms(1))

lemma keeps_types_start:
  assumes "refs_typed c \<Longrightarrow> goroutine_typed c g" shows "keeps_types c (spawn g c)"
proof -
  have g: "grows c (spawn g c)" by (simp add: grows_def spawn_def)
  show ?thesis using assms goroutine_grows[OF g] g
    unfolding keeps_types_def refs_typed_def by (auto simp: spawn_def)
qed

lemma may_start_typed: "may_start c g \<Longrightarrow> refs_typed c \<Longrightarrow> goroutine_typed c g"
  by (cases g) (auto simp: may_start_def refs_typed_def stream_ref_def terminal_ref_def ran_def)

lemma keeps_types_close: "keeps_types c (stream_close r reason c)"
proof (rule keeps_typesI)
  have "dom (heap (stream_close r reason c)) = dom (heap c)"
    by (auto simp: heap_stream_close split: option.split)
  then show "grows c (stream_close r reason c)"
    using rest_stream_close[of r reason c] by (simp add: grows_def conn_rest_def)
  show "ran (streams (stream_close r reason c)) \<subseteq> ran (streams c)"
    "ran (streamCache (stream_close r reason c)) \<subseteq> ran (streamCache c)"
    by (auto simp: ran_def dest!: streams_after_close cache_after_close)
qed (use rest_stream_close[of r reason c] in \<open>simp_all add: conn_rest_def\<close>)

lemma keeps_types_same:
  "conn_core c' = conn_core c \<Longrightarrow> conn_rest c' = conn_rest c \<Longrightarrow> keeps_types c c'"
  by (rule keeps_typesI) (simp_all add: conn_core_eq conn_rest_def grows_def)

lemma keeps_types_upd: "keeps_types c (upd_stream r f c)"
  by (rule keeps_typesI) (auto simp: upd_stream_def grows_def split: option.split)

lemma keeps_types_terminal: "keeps_types c (upd_twisp t f c)"
  "keeps_types c ((upd_twisp t f c)\<lparr>twispStreams := (twispStreams c)(i := None)\<rparr>)"
  by (rule keeps_typesI; auto simp: upd_twisp_def grows_def ran_def split: option.split if_splits)+

lemma keeps_types_new:
  "keeps_types c (c\<lparr>heap := (heap c)(next_ref c \<mapsto> s), next_ref := n, streams := (streams c)(i \<mapsto> next_ref c), streamCount := k\<rparr>)"
  "keeps_types c (c\<lparr>twisp_heap := (twisp_heap c)(next_ref c \<mapsto> w), next_ref := n, twispStreams := (twispStreams c)(i \<mapsto> next_ref c)\<rparr>)"
proof -
  let ?s = "c\<lparr>heap := (heap c)(next_ref c \<mapsto> s), next_ref := n, streams := (streams c)(i \<mapsto> next_ref c), streamCount := k\<rparr>"
  let ?t = "c\<lparr>twisp_heap := (twisp_heap c)(next_ref c \<mapsto> w), next_ref := n, twispStreams := (twispStreams c)(i \<mapsto> next_ref c)\<rparr>"
  have g: "grows c ?s" "grows c ?t" by (auto simp: grows_def)
  show "keeps_types c ?s" "keeps_types c ?t"
    using g goroutine_grows[OF g(1)] goroutine_grows[OF g(2)]
    unfolding keeps_types_def refs_typed_def by (auto simp: ran_def split: if_splits)
qed

lemma keeps_types_cache: "streams c i = Some r \<Longrightarrow> keeps_types c (cache_store i r c)"
proof -
  assume r: "streams c i = Some r"
  have g: "grows c (cache_store i r c)" by (simp add: grows_def cache_store_def)
  show ?thesis using r g goroutine_grows[OF g]
    unfolding keeps_types_def refs_typed_def by (auto simp: cache_store_def ran_def split: if_splits)
qed

lemma keeps_types_trans: "keeps_types c0 c \<Longrightarrow> keeps_types c c' \<Longrightarrow> keeps_types c0 c'"
  unfolding keeps_types_def grows_def by blast

interpretation ty: connection_ops keeps_types
proof unfold_locales
  show "keeps_types c (spawn g c)" if "may_start c g" for c g
    using keeps_types_start may_start_typed that by blast
  show "keeps_types c (spawn (GoTwisp i cmd) c)" for c i cmd
    by (rule keeps_types_start) simp
  show "keeps_types c (c\<lparr>authenticated := ok, streamConfirm := confirm\<rparr>)" for c ok confirm
    by (rule keeps_types_same) (simp_all add: conn_core_def conn_rest_def)
  show "keeps_types c (c\<lparr>handshakePending := False\<rparr>)" for c
    by (rule keeps_types_same) (simp_all add: conn_core_def conn_rest_def)
  show "keeps_types c (c\<lparr>globals := gl\<rparr>)" for c gl
    by (rule keeps_types_same) (simp_all add: conn_core_def conn_rest_def)
qed (auto intro: keeps_types_trans keeps_types_same keeps_types_upd keeps_types_close keeps_types_cache
      keeps_types_terminal keeps_types_new)


section \<open>The goroutines of a run\<close>

lemma lookup_typed:
  assumes "handleData_lookup ok i p c = (DataGo r, c')" shows "stream_ref c' r"
  using assms
  by (auto simp: handleData_lookup_def data_check_open_def stream_ref_def Let_def split: option.splits if_splits)

lemma started_typed: "refs_typed c' \<Longrightarrow> p \<in># started c c' \<Longrightarrow> proc_typed c' p"
  by (auto simp: started_def refs_typed_def dest: in_set_dropD)

definition sys_typed :: "conn_sys \<Rightarrow> bool" where
  "sys_typed s \<longleftrightarrow> (let (c, ps) = s in refs_typed c \<and> (\<forall>p\<in>#ps. proc_typed c p))"

lemma own_step_typed:
  assumes "own_step (c, ps) (c', ps')" "sys_typed (c, ps)" "p \<in># ps'"
  shows "proc_typed c' p"
proof -
  have k: "keeps_types c c'" by (rule ty.own[OF assms(1)])
  then have ok: "refs_typed c'" and old: "\<forall>q\<in>#ps. proc_typed c' q"
    using assms(2) proc_grows by (auto simp: sys_typed_def keeps_types_def)
  have new: "\<forall>q\<in>#started c c'. proc_typed c' q" using started_typed[OF ok] by blast
  show ?thesis using assms(1,3) old new
    by (cases rule: own_step.cases)
       (auto simp: after_lookup_def after_finish_def after_plan_def if_proc_def dest: lookup_typed
          split: data_outcome.splits connect_plan.splits if_splits option.splits)
qed

lemma conn_step_typed:
  assumes "conn_step (c, ps) (c', ps')" "sys_typed (c, ps)"
  shows "sys_typed (c', ps')"
proof -
  have k: "keeps_types c c'" by (rule ty.step[OF assms(1)])
  then have "refs_typed c'" using assms(2) by (simp add: keeps_types_def sys_typed_def)
  moreover have "proc_typed c' p" if "p \<in># ps'" for p
    using assms(1)
  proof (rule conn_stepE)
    assume "own_step (c, ps) (c', ps')"
    then show ?thesis using own_step_typed assms(2) that by blast
  next
    fix dns g assume "ps' = ps"
    then show ?thesis using assms(2) that k proc_grows by (auto simp: sys_typed_def keeps_types_def)
  qed
  ultimately show ?thesis by (simp add: sys_typed_def)
qed

lemma conn_reach_typed: "conn_reach cfg s \<Longrightarrow> sys_typed s"
proof (induction rule: conn_reach.induct)
  case (reach_start dns g ip cid v2)
  let ?c = "start_connection (new_connection cfg dns g ip cid v2)"
  have "keeps_types (new_connection cfg dns g ip cid v2) ?c"
    by (rule keeps_types_same) (rule start_same)+
  moreover have "refs_typed (new_connection cfg dns g ip cid v2)"
    by (simp add: refs_typed_def new_connection_def)
  ultimately show ?case by (simp add: sys_typed_def keeps_types_def)
next
  case (reach_step s s')
  then show ?case by (cases s, cases s') (simp add: conn_step_typed)
qed

section \<open>Properties\<close>



end
