(* ===== verification/Conn_Slots.thy ===== *)
theory Conn_Slots
  imports Conn_Packets Conn_Runs
begin

text \<open>
  The slots of the semaphore that bounds the SYNs in flight: each step of a connection gives back
  exactly the slots that its goroutines no longer hold.
\<close>

section \<open>Holders\<close>

fun holds_syn :: "proc \<Rightarrow> bool" where
  "holds_syn (PDial r (ConnectDial tcp destination host via syn)) = syn"
| "holds_syn p = False"

definition syn_holders :: "proc multiset \<Rightarrow> int" where
  "syn_holders ps = int (size (filter_mset holds_syn ps))"

lemma syn_holders_simps [simp]:
  "syn_holders {#} = 0" "syn_holders (add_mset p ps) = (if holds_syn p then 1 else 0) + syn_holders ps"
  "syn_holders (ps + qs) = syn_holders ps + syn_holders qs" "syn_holders (started c c') = 0"
  "syn_holders (if_proc b p) = (if b \<and> holds_syn p then 1 else 0)"
  "\<not> holds_syn (after_lookup i payload res)" "\<not> holds_syn (after_finish out)"
  by (simp_all add: syn_holders_def started_def if_proc_def filter_mset_eq_conv after_lookup_def after_finish_def
      split: data_outcome.split)

lemma syn_holders_plan:
  "syn_holders (after_plan r plan) = (case plan of ConnectRejected _ \<Rightarrow> 0 | ConnectDial _ _ _ _ syn \<Rightarrow> if syn then 1 else 0)"
  by (simp add: after_plan_def split: connect_plan.split)

section \<open>Steps that leave the semaphore alone\<close>

definition same_syn :: "wispConnection \<Rightarrow> wispConnection \<Rightarrow> bool" where
  "same_syn c c' \<longleftrightarrow> syn_of (globals c') = syn_of (globals c)"

interpretation sy: packet_ops same_syn
  by unfold_locales
     (simp_all add: same_syn_def frame_simps upd_twisp_fields cache_store_def write_frame_globals)

section \<open>The two steps that use it\<close>

definition syn_taken :: "semaphore \<Rightarrow> semaphore" where
  "syn_taken s = s\<lparr>sem_current := wrap64 (sem_current s + 1)\<rparr>"

lemma connect_limits_syn:
  assumes "connect_limits env t port host n c = (res, c')"
    and "syn_of (globals c) = Some s" "0 < sem_max s"
  shows "(if res = Inr True then t = streamTypeTCP \<and> sem_current s < sem_max s \<and> syn_of (globals c') = Some (syn_taken s)
          else syn_of (globals c') = Some s)"
  using assms
  by (auto simp: connect_limits_def allow_window_def Let_def frame_simps Semaphore_TryAcquire_def syn_taken_def
      split: option.splits prod.splits if_splits)

lemma reject_syn: "reject_connect r reason c = (plan, c') \<Longrightarrow>
    syn_of (globals c') = syn_of (globals c) \<and> plan = ConnectRejected reason"
  by (auto simp: reject_connect_def frame_simps write_frame_globals)

lemma plan_syn:
  assumes "handleConnect_plan env r t port host c = (plan, c')"
    and "syn_of (globals c) = Some s" "0 < sem_max s"
  shows "case plan of
      ConnectDial tcp destination h via syn \<Rightarrow>
        if syn then sem_current s < sem_max s \<and> syn_of (globals c') = Some (syn_taken s)
        else syn_of (globals c') = Some s
    | ConnectRejected reason \<Rightarrow> syn_of (globals c') = Some s"
proof -
  let ?c = "upd_stream r (\<lambda>s. s\<lparr>st_hostname := NormalizeTargetHostname (ulower env) host\<rparr>) c"
  have g: "syn_of (globals (?c\<lparr>DNSCache := d\<rparr>)) = Some s" "syn_of (globals ?c) = Some s" for d
    using assms(2) by (simp_all add: frame_simps)
  show ?thesis
    using assms(1) unfolding handleConnect_plan_def Let_def
    by (auto split: if_splits prod.splits sum.splits dest!: reject_syn connect_limits_syn[OF _ g(1) assms(3)]
        simp: g assms(2) frame_simps releaseSyn_def)
qed

lemma dialled_syn:
  assumes "handleConnect_dialled env r (ConnectDial tcp destination h via syn) err c = (go, c')"
  shows "syn_of (globals c') = (if syn then Semaphore_Release (syn_of (globals c)) else syn_of (globals c))"
proof -
  define c2 where "c2 = releaseSyn syn (upd_stream r (\<lambda>s. if err = None then s\<lparr>st_conn := ConnOpen\<rparr> else s) c)"
  define portNum where "portNum = (case heap c2 r of None \<Rightarrow> 0 | Some s \<Rightarrow> st_portNum s)"
  obtain m c3 where mc: "(case globals c2 of
      None \<Rightarrow> (False, c2)
    | Some g \<Rightarrow> if tcp \<and> g_Signature g \<noteq> None then
        (case signature_dial (clock env 7) (connID c2) h portNum (err = None) (g_Signature g) of
           (m, sigs) \<Rightarrow> (m, c2\<lparr>globals := Some (g\<lparr>g_Signature := sigs\<rparr>)\<rparr>))
      else (False, c2)) = (m, c3)" by (rule prod.exhaust)
  have "syn_of (globals c2) = (if syn then Semaphore_Release (syn_of (globals c)) else syn_of (globals c))"
    by (cases "globals c") (auto simp: c2_def releaseSyn_def upd_globals_def frame_simps Semaphore_Release_def)
  moreover have "syn_of (globals c3) = syn_of (globals c2)"
    using mc by (auto split: option.splits prod.splits if_splits)
  moreover have "syn_of (globals c') = syn_of (globals c3)"
    using assms unfolding handleConnect_dialled_def connect_plan.case Let_def
      c2_def[symmetric] portNum_def[symmetric] mc
    by (auto simp: frame_simps write_frame_globals split: if_splits option.splits)
  ultimately show ?thesis by simp
qed


section \<open>Properties\<close>

lemma syn_release:
  "0 < sem_max s \<Longrightarrow> Semaphore_Release (Some s) = Some (s\<lparr>sem_current := wrap64 (sem_current s - 1)\<rparr>)"
  by (simp add: Semaphore_Release_def)

lemma same_syn_holders:
  assumes "own_step (c, ps) (c', ps')" "\<nexists>env r t port host plan qs. ps = add_mset (PStart (GoConnect r t port host)) qs \<and>
      ps' = after_plan r plan + qs \<and> handleConnect_plan env r t port host c = (plan, c')"
    "\<nexists>env r plan err go qs. ps = add_mset (PDial r plan) qs \<and> ps' = if_proc go (PPending r (dialTCP plan)) + qs \<and>
      handleConnect_dialled env r plan err c = (go, c')"
  shows "syn_holders ps' = syn_holders ps"
  using assms by (cases rule: own_step.cases) (auto split: option.split)

text \<open>
  C18: No slot of the SYN semaphore is lost or given back twice: every step of a connection, whatever
  the outcome of its checks and of the dial, changes the counter by exactly the change in the number
  of its goroutines that hold a slot, and takes a slot only when one is free.
\<close>

theorem syn_slots_balanced:
  assumes "own_step (c, ps) (c', ps')"
    and "syn_of (globals c) = Some s" and "0 < sem_max s" and "sem_max s < 2 ^ 63" and "- (2 ^ 63) < sem_current s"
    and "sem_current s < 2 ^ 63"
  shows "\<exists>s'. syn_of (globals c') = Some s' \<and> sem_max s' = sem_max s \<and>
    sem_current s' = sem_current s + syn_holders ps' - syn_holders ps \<and>
    (sem_current s < sem_current s' \<longrightarrow> sem_current s' \<le> sem_max s)"
proof -
  consider (plan) env r t port host plan qs where "ps = add_mset (PStart (GoConnect r t port host)) qs"
      "ps' = after_plan r plan + qs" "handleConnect_plan env r t port host c = (plan, c')"
    | (dialled) env r plan err go qs where "ps = add_mset (PDial r plan) qs"
      "ps' = if_proc go (PPending r (dialTCP plan)) + qs" "handleConnect_dialled env r plan err c = (go, c')"
    | (same) "same_syn c c'" "syn_holders ps' = syn_holders ps"
    using same_syn_holders[OF assms(1)] sy.own_cases[OF assms(1)] by metis
  then show ?thesis
  proof cases
    case plan
    then show ?thesis using plan_syn[OF plan(3) assms(2,3)] assms(4,5)
      by (auto simp: syn_holders_plan syn_taken_def split: connect_plan.splits if_splits)
  next
    case dialled
    show ?thesis
    proof (cases plan)
      case (ConnectDial tcp destination h via syn)
      then show ?thesis using dialled_syn[OF dialled(3)[unfolded ConnectDial]] dialled assms(2-6)
        by (auto simp: syn_release)
    next
      case (ConnectRejected reason)
      then show ?thesis using dialled assms(2) by (auto simp: handleConnect_dialled_def)
    qed
  qed (use assms(2) in \<open>simp add: same_syn_def\<close>)
qed


definition slot_globals :: Globals where
  "slot_globals = (BuildGlobals 0 StoreMissing DefaultConfig None)\<lparr>g_InFlightSyns := Some (NewSemaphore 5)\<rparr>"

definition slot_run :: wispConnection where
  "slot_run = (run_opened DefaultConfig 1)\<lparr>DNSCache := None, globals := Some slot_globals\<rparr>"

lemma slot_run_plan:
  "\<exists>c'. handleConnect_plan dial_env 0 1 ''80'' ''a'' slot_run = (ConnectDial True (JoinHostPort ''a'' ''80'') ''a'' False True, c')"
proof -
  have n: "NormalizeTargetHostname (ulower dial_env) ''a'' = ''a''"
    by (simp add: dial_env_def NormalizeTargetHostname_def to_lower_def is_ascii_def ascii_lower_def
        trim_space_ascii ascii_space_def trim_suffix_def has_suffix_def)
  have f: "globals slot_run = Some slot_globals" "config slot_run = DefaultConfig" "DNSCache slot_run = None"
    by (simp_all add: slot_run_def run_opened_fields)
  have u: "globals (upd_stream r f c) = globals c" "DNSCache (upd_stream r f c) = DNSCache c" for r f c
    by (simp_all add: frame_simps)
  have none: "g_PerDestSec slot_globals = None" "g_PerDestMin slot_globals = None" "g_Reputation slot_globals = None"
    "g_InFlightSyns slot_globals = Some (NewSemaphore 5)"
    by (simp_all add: slot_globals_def BuildGlobals_def DefaultConfig_def Let_def)
  have same: "slot_globals\<lparr>g_PerDestSec := None\<rparr> = slot_globals" "slot_globals\<lparr>g_PerDestMin := None\<rparr> = slot_globals"
    using none by (simp_all add: slot_globals_def)
  have "\<exists>c'. connect_limits dial_env 1 ''80'' ''a'' n (c\<lparr>DNSCache := d\<rparr>) = (Inr True, c')"
    if "globals c = Some slot_globals" for n c d
    using that none same
    by (simp add: connect_limits_def allow_window_def SlidingWindow_Allow_def Semaphore_TryAcquire_def
        NewSemaphore_def streamTypeTCP_def Let_def)
  note limits = this
  have host: "resolve_target dial_env DefaultConfig ''a'' None = (Inr ''a'', None)"
    by (simp add: resolve_target_def ParseIP_def Let_def)
  obtain c' where "connect_limits dial_env 1 ''80'' ''a''
      (case heap (upd_stream 0 (\<lambda>s. s\<lparr>st_hostname := ''a''\<rparr>) slot_run) 0 of None \<Rightarrow> 0 | Some s \<Rightarrow> st_portNum s)
      ((upd_stream 0 (\<lambda>s. s\<lparr>st_hostname := ''a''\<rparr>) slot_run)\<lparr>DNSCache := None\<rparr>) = (Inr True, c')"
    using limits u(1) f(1) by metis
  then show ?thesis
    unfolding handleConnect_plan_def Let_def n
    by (simp add: f u host hostname_blocked_def port_blocked_def streamTypeTCP_def streamTypeUDP_def)
       (simp add: DefaultConfig_def)
qed

theorem syn_slots_balanced_witness:
  "\<exists>c'. own_step (slot_run, {#PStart (GoConnect 0 1 ''80'' ''a'')#})
      (c', {#PDial 0 (ConnectDial True (JoinHostPort ''a'' ''80'') ''a'' False True)#}) \<and>
    (\<exists>s. syn_of (globals c') = Some s \<and> sem_max s = 5 \<and> sem_current s = 1)"
proof -
  let ?plan = "ConnectDial True (JoinHostPort ''a'' ''80'') ''a'' False True"
  obtain c' where "handleConnect_plan dial_env 0 1 ''80'' ''a'' slot_run = (?plan, c')"
    using slot_run_plan by blast
  from connect_plan[OF this, of "{#}"]
  have st: "own_step (slot_run, {#PStart (GoConnect 0 1 ''80'' ''a'')#}) (c', {#PDial 0 ?plan#})"
    by (simp add: after_plan_def)
  have s: "syn_of (globals slot_run) = Some (NewSemaphore 5)" by (simp add: slot_run_def slot_globals_def)
  from syn_slots_balanced[OF st s] st show ?thesis by (auto simp: NewSemaphore_def)
qed

end
