(* ===== verification/Server_Slots.thy ===== *)
theory Server_Slots
  imports Conn_Steps
begin

text \<open>
  The slots of the semaphore that bounds the connections of the server: taken by the handler of an
  accepted request, given back on every path that refuses it and at the end of the connection.
\<close>

definition limited :: "Globals option \<Rightarrow> bool" where
  "limited g \<longleftrightarrow> (case Option.bind g g_Connections of None \<Rightarrow> False | Some s \<Rightarrow> 0 < sem_max s)"

lemma slots_same:
  "g_Connections g' = g_Connections g \<Longrightarrow> slots_taken (Some g') = slots_taken (Some g)"
  "g_Connections g' = g_Connections g \<Longrightarrow> slots_ok (Some g') = slots_ok (Some g)"
  by (simp_all add: slots_taken_def slots_ok_def)

lemma acquire_slot:
  assumes "slots_ok (Some g)" "Semaphore_TryAcquire (g_Connections g) = (ok, sem)"
  shows "slots_ok (Some (g\<lparr>g_Connections := sem\<rparr>))"
    "slots_taken (Some (g\<lparr>g_Connections := sem\<rparr>)) = slots_taken (Some g) + (if ok \<and> limited (Some g) then 1 else 0)"
    "limited (Some (g\<lparr>g_Connections := sem\<rparr>)) = limited (Some g)"
  using assms
  by (cases "g_Connections g"; auto simp: slots_ok_def slots_taken_def limited_def Semaphore_TryAcquire_def split: option.splits if_splits)+

lemma release_slot:
  assumes "slots_ok g" "limited g \<Longrightarrow> 0 < slots_taken g"
  shows "slots_ok (release_slot g)" "slots_taken (release_slot g) = slots_taken g - (if limited g then 1 else 0)"
  using assms
  by (cases g; auto simp: slots_ok_def slots_taken_def limited_def Semaphore_Release_def release_slot_def
      split: option.splits if_splits)+

lemma slots_taken_nonneg: "slots_ok g \<Longrightarrow> 0 \<le> slots_taken g"
  by (auto simp: slots_ok_def slots_taken_def split: option.splits)

lemma stream_close_globals: "globals (stream_close r b c) = globals c"
  by (simp add: stream_close_def upd_stream_frame write_frame_globals Let_def split: option.split)

lemma twisp_close_globals: "globals (twisp_close t b c) = globals c"
proof -
  have "globals (c\<lparr>twispStreams := m\<rparr>) = globals c" for m and c :: wispConnection by simp
  then show ?thesis by (simp add: twisp_close_def write_frame_globals upd_twisp_fields split: option.split)
qed

lemma deleteAll_connections:
  "Option.bind (globals (deleteAllWispStreams refs trefs c)) g_Connections =
     Semaphore_Release (Option.bind (globals c) g_Connections)"
proof -
  have "globals (fold (\<lambda>r. stream_close r b) rs d) = globals d" for rs b d
    by (induction rs arbitrary: d) (simp_all add: stream_close_globals)
  moreover have "globals (fold (\<lambda>t. twisp_close t b) ts d) = globals d" for ts b d
    by (induction ts arbitrary: d) (simp_all add: twisp_close_globals)
  ultimately show ?thesis
    by (cases "globals c")
       (simp_all add: deleteAllWispStreams_def upd_globals_def Let_def write_frame_globals Semaphore_Release_def)
qed

text \<open>At the end of a connection its slot is given back.\<close>

lemma deleteAll_slot:
  assumes "slots_ok g" "limited g \<Longrightarrow> 0 < slots_taken g" "globals c = g"
  shows "slots_taken (globals (deleteAllWispStreams refs trefs c)) = slots_taken g - (if limited g then 1 else 0)"
  using assms deleteAll_connections[of refs trefs c]
  by (auto simp: slots_taken_def slots_ok_def limited_def Semaphore_Release_def split: option.splits if_splits)

section \<open>Properties\<close>

text \<open>
  C19: The server's connection slots are neither lost nor over-committed: a request takes a slot
  exactly when it is accepted, whatever it was refused for, the number taken stays within the
  configured maximum, and the end of an accepted connection, in whatever state it then is, gives
  its slot back.
\<close>

theorem connection_slots_balanced:
  assumes "slots_ok (srv_Globals s)" and "serve now upgrade_ok req s = (resp, s')"
  shows "slots_ok (srv_Globals s') \<and>
    (case resp of
       RespAccepted c \<Rightarrow>
         slots_taken (srv_Globals s') = slots_taken (srv_Globals s) + (if limited (srv_Globals s) then 1 else 0) \<and>
         slots_taken (globals (deleteAllWispStreams refs trefs (c'\<lparr>globals := srv_Globals s'\<rparr>))) = slots_taken (srv_Globals s)
     | _ \<Rightarrow> slots_taken (srv_Globals s') = slots_taken (srv_Globals s))"
proof (cases "srv_Globals s")
  case None
  then show ?thesis using assms
    by (auto simp: serve_def Let_def slots_taken_def slots_ok_def limited_def release_slot_def deleteAll_connections
        Semaphore_Release_def split: if_splits)
next
  case (Some g)
  obtain ok w where w: "SlidingWindow_Allow now (IP_String (ResolveClientIP (hr_RemoteAddr req) (hr_Header req)
      (if ParseRealIP (srv_config s) then trustedProxyNets (srv_config s) else []) (TrustedHeaders (srv_config s))))
      (g_ConnectionRate g) = (ok, w)" by fastforce
  define g1 where "g1 = g\<lparr>g_ConnectionRate := w\<rparr>"
  have g1: "slots_ok (Some g1)" "slots_taken (Some g1) = slots_taken (Some g)" "limited (Some g1) = limited (Some g)"
    using assms(1) Some by (simp_all add: g1_def slots_ok_def slots_taken_def limited_def)
  obtain got sem where sem: "Semaphore_TryAcquire (g_Connections g1) = (got, sem)" by fastforce
  define g2 where "g2 = g1\<lparr>g_Connections := sem\<rparr>"
  note a = acquire_slot[OF g1(1) sem, folded g2_def]
  have pos: "limited (Some g2) \<Longrightarrow> got \<Longrightarrow> 0 < slots_taken (Some g2)"
    using a(2,3) slots_taken_nonneg[OF g1(1)] by simp
  note rel = release_slot[OF a(1)] and fl = a(2,3) g1(2,3)
  let ?g3 = "map_option (\<lambda>g. g\<lparr>g_active := Suc (srv_connIDCounter s) # g_active g\<rparr>) (Some g2)"
  have g3: "slots_ok ?g3 = slots_ok (Some g2)" "slots_taken ?g3 = slots_taken (Some g2)" "limited ?g3 = limited (Some g2)"
    by (simp_all add: slots_ok_def slots_taken_def limited_def)
  consider (same) "s' = s" "\<forall>c. resp \<noteq> RespAccepted c" | (rate) "srv_Globals s' = Some g1" "\<forall>c. resp \<noteq> RespAccepted c"
    | (full) "\<not> got" "srv_Globals s' = Some g2" "\<forall>c. resp \<noteq> RespAccepted c"
    | (refused) "got" "srv_Globals s' = release_slot (Some g2)" "\<forall>c. resp \<noteq> RespAccepted c"
    | (accepted) c where "got" "srv_Globals s' = ?g3" "resp = RespAccepted c"
    using assms(2)
    by (auto simp: serve_def Let_def Some w g1_def[symmetric] sem g2_def[symmetric] split: if_splits)
  then show ?thesis
  proof cases
    case accepted
    then show ?thesis
      using a(1) pos fl deleteAll_slot[of ?g3 "c'\<lparr>globals := srv_Globals s'\<rparr>" refs trefs] unfolding Some
      by (simp add: g3[simplified])
  qed (use assms(1) a(1) g1(1) rel pos fl Some in \<open>auto split: response.split\<close>)
qed

definition slot_server :: server where
  "slot_server = \<lparr>srv_config = DefaultConfig, srv_DNSCache = None,
     srv_Globals = Some ((BuildGlobals 0 StoreMissing DefaultConfig None)\<lparr>g_Connections := Some (NewSemaphore 2)\<rparr>),
     srv_connIDCounter = 0\<rparr>"

definition slot_request :: http_request where
  "slot_request = \<lparr>hr_RemoteAddr = ''10.0.0.1:80'', hr_Header = (\<lambda>h. if h = ''Upgrade'' then ''websocket'' else [])\<rparr>"

lemma slot_accepted: "\<exists>c s'. serve 0 True slot_request slot_server = (RespAccepted c, s')"
proof -
  have ws: "equal_fold_ascii ''websocket'' ''websocket''"
    by (simp add: equal_fold_ascii_def runes_ascii is_ascii_def fold_rune_def)
  show ?thesis
    by (simp add: serve_def Let_def ws slot_server_def slot_request_def BuildGlobals_def DefaultConfig_def
        SlidingWindow_Allow_def Semaphore_TryAcquire_def NewSemaphore_def requiresV2_def)
qed

theorem connection_slots_balanced_witness:
  "\<exists>c s'. serve 0 True slot_request slot_server = (RespAccepted c, s') \<and> slots_taken (srv_Globals s') = 1 \<and>
     slots_taken (globals (deleteAllWispStreams [] [] (c\<lparr>globals := srv_Globals s'\<rparr>))) = 0"
proof -
  obtain c s' where r: "serve 0 True slot_request slot_server = (RespAccepted c, s')" using slot_accepted by blast
  have "slots_ok (srv_Globals slot_server)" "limited (srv_Globals slot_server)" "slots_taken (srv_Globals slot_server) = 0"
    by (simp_all add: slot_server_def slots_ok_def limited_def slots_taken_def NewSemaphore_def)
  with connection_slots_balanced[OF this(1) r, of "[]" "[]" c] r show ?thesis by auto
qed

end
