(* ===== verification/Config_Json.thy ===== *)
theory Config_Json
  imports Server_Config Dns_Cache
begin

text \<open>
  Reading the configuration (\<^verbatim>\<open>wisp/config.go\<close>): the filters' own
  \<^verbatim>\<open>UnmarshalJSON\<close> on a decoded JSON value, and \<^verbatim>\<open>LoadConfig\<close>. The scanner
  of \<^verbatim>\<open>encoding/json\<close> (text to value) and its reflection over the fields of
  \<^verbatim>\<open>Config\<close> are parameters.
\<close>

section \<open>JSON values\<close>

text \<open>
  The members of an object are in the order of the text, with repetitions. A number is the
  \<^verbatim>\<open>float64\<close> nearest to its literal, \<open>None\<close> where the literal is out of range.
\<close>

datatype json =
    JNull
  | JBool bool
  | JNumber "rat option"
  | JString string
  | JArray "json list"
  | JObject "(string \<times> json) list"

text \<open>Whether \<^verbatim>\<open>json.Unmarshal\<close> into an \<^verbatim>\<open>interface{}\<close> succeeds.\<close>

fun decodes_any :: "json \<Rightarrow> bool" where
  "decodes_any (JNumber v) = (v \<noteq> None)"
| "decodes_any (JArray vs) = list_all decodes_any vs"
| "decodes_any (JObject ms) = list_all (\<lambda>m. decodes_any (snd m)) ms"
| "decodes_any v = True"

text \<open>Into a \<^verbatim>\<open>[]string\<close>: a null element leaves the zero value.\<close>

fun string_element :: "json \<Rightarrow> string option" where
  "string_element (JString s) = Some s"
| "string_element JNull = Some []"
| "string_element v = None"

fun decode_strings :: "json \<Rightarrow> string list option" where
  "decode_strings JNull = Some []"
| "decode_strings (JArray vs) = those (map string_element vs)"
| "decode_strings v = None"

text \<open>Into a \<^verbatim>\<open>[]interface{}\<close>.\<close>

fun decode_array :: "json \<Rightarrow> json list option" where
  "decode_array JNull = Some []"
| "decode_array (JArray vs) = (if list_all decodes_any vs then Some vs else None)"
| "decode_array v = None"

text \<open>Into a map of raw messages: the keys.\<close>

fun decode_keys :: "json \<Rightarrow> string list option" where
  "decode_keys JNull = Some []"
| "decode_keys (JObject ms) = Some (map fst ms)"
| "decode_keys v = None"

text \<open>The raw message of a field; the last of several wins, and an absent one is empty.\<close>

definition raw_field :: "string \<Rightarrow> (string \<times> json) list \<Rightarrow> json option" where
  "raw_field name ms = map_of (rev ms) name"

section \<open>Filters\<close>

datatype filter_error =
    FilterNotObject | FilterField | FilterHostEmpty | FilterHostnames
  | FilterPort | FilterRangeSize | FilterRangeNumbers | FilterPortEntry | FilterPorts | FilterPortKey

fun add_hosts :: "(nat \<Rightarrow> nat) \<Rightarrow> string list \<Rightarrow> FilterSet \<Rightarrow> filter_error + FilterSet" where
  "add_hosts ulower [] f = Inr f"
| "add_hosts ulower (h # hs) f =
     (let host = NormalizeTargetHostname ulower h in
      if host = [] then Inl FilterHostEmpty
      else add_hosts ulower hs (f\<lparr>Hostnames := List.insert host (Hostnames f)\<rparr>))"

definition filter_hostnames :: "(nat \<Rightarrow> nat) \<Rightarrow> json \<Rightarrow> FilterSet \<Rightarrow> filter_error + FilterSet" where
  "filter_hostnames ulower v f =
     (case decode_strings v of
        Some arr \<Rightarrow> add_hosts ulower arr f
      | None \<Rightarrow> (case decode_keys v of
                  None \<Rightarrow> Inl FilterHostnames
                | Some ks \<Rightarrow> add_hosts ulower ks f))"

definition add_port :: "u16 \<Rightarrow> FilterSet \<Rightarrow> FilterSet" where
  "add_port p f = f\<lparr>Ports := List.insert p (Ports f)\<rparr>"

definition add_range :: "rat \<Rightarrow> rat \<Rightarrow> FilterSet \<Rightarrow> FilterSet" where
  "add_range start stop f = fold (\<lambda>i. add_port (of_int i)) [\<lfloor>start\<rfloor>..\<lfloor>stop\<rfloor>] f"

fun json_float :: "json \<Rightarrow> rat option" where
  "json_float (JNumber v) = v"
| "json_float v = None"

definition port_range :: "json list \<Rightarrow> FilterSet \<Rightarrow> filter_error + FilterSet" where
  "port_range v f =
     (if length v \<noteq> 2 then Inl FilterRangeSize
      else (case (json_float (v ! 0), json_float (v ! 1)) of
              (Some start, Some stop) \<Rightarrow>
                if validPortNumber start = None then Inl FilterPort
                else if validPortNumber stop = None then Inl FilterPort
                else if stop < start then Inr (add_range stop start f)
                else Inr (add_range start stop f)
            | _ \<Rightarrow> Inl FilterRangeNumbers))"

fun port_entry :: "json \<Rightarrow> FilterSet \<Rightarrow> filter_error + FilterSet" where
  "port_entry (JNumber (Some v)) f =
     (case validPortNumber v of None \<Rightarrow> Inl FilterPort | Some port \<Rightarrow> Inr (add_port port f))"
| "port_entry (JArray v) f = port_range v f"
| "port_entry v f = Inl FilterPortEntry"

fun add_ports :: "json list \<Rightarrow> FilterSet \<Rightarrow> filter_error + FilterSet" where
  "add_ports [] f = Inr f"
| "add_ports (v # vs) f = (case port_entry v f of Inl e \<Rightarrow> Inl e | Inr f' \<Rightarrow> add_ports vs f')"

text \<open>\<^verbatim>\<open>strconv.ParseUint(k, 10, 16)\<close>\<close>

definition parse_uint16 :: "string \<Rightarrow> nat option" where
  "parse_uint16 k =
     (if k \<noteq> [] \<and> list_all (\<lambda>c. 48 \<le> byte_at c \<and> byte_at c \<le> (57::nat)) k \<and> parse_dec 0 k \<le> 65535
      then Some (parse_dec 0 k) else None)"

fun add_port_keys :: "string list \<Rightarrow> FilterSet \<Rightarrow> filter_error + FilterSet" where
  "add_port_keys [] f = Inr f"
| "add_port_keys (k # ks) f =
     (case parse_uint16 k of
        None \<Rightarrow> Inl FilterPortKey
      | Some n \<Rightarrow> if n = 0 then Inl FilterPortKey else add_port_keys ks (add_port (of_nat n) f))"

definition filter_ports :: "json \<Rightarrow> FilterSet \<Rightarrow> filter_error + FilterSet" where
  "filter_ports v f =
     (case decode_array v of
        Some arr \<Rightarrow> add_ports arr f
      | None \<Rightarrow> (case decode_keys v of
                  None \<Rightarrow> Inl FilterPorts
                | Some ks \<Rightarrow> add_port_keys ks f))"

text \<open>
  The names of the fields must be written in lower case: the first decoding into the struct would
  take any case, the second, into the map of fields, refuses the others.
\<close>

fun FilterSet_UnmarshalJSON :: "(nat \<Rightarrow> nat) \<Rightarrow> json \<Rightarrow> FilterSet \<Rightarrow> filter_error + FilterSet" where
  "FilterSet_UnmarshalJSON ulower JNull f = Inr f"
| "FilterSet_UnmarshalJSON ulower (JObject ms) f =
     (if list_ex (\<lambda>m. fst m \<noteq> ''hostnames'' \<and> fst m \<noteq> ''ports'') ms then Inl FilterField
      else (case (case raw_field ''hostnames'' ms of None \<Rightarrow> Inr f | Some v \<Rightarrow> filter_hostnames ulower v f) of
              Inl e \<Rightarrow> Inl e
            | Inr f1 \<Rightarrow> (case raw_field ''ports'' ms of None \<Rightarrow> Inr f1 | Some v \<Rightarrow> filter_ports v f1)))"
| "FilterSet_UnmarshalJSON ulower v f = Inl FilterNotObject"

section \<open>Loading\<close>

text \<open>
  What \<^verbatim>\<open>json.Decoder\<close> (with \<^verbatim>\<open>DisallowUnknownFields\<close>) does with a text: the first
  value decoded over a configuration, and the outcome of decoding what follows.
\<close>

datatype trailing = TrailingEOF | TrailingValue | TrailingInvalid

record config_decoder =
  decode_first :: "string \<Rightarrow> Config \<Rightarrow> bool \<times> Config"
  decode_next :: "string \<Rightarrow> trailing"

datatype load_error = LoadDecode | LoadMultiple | LoadTrailing | LoadOpen

definition decodeConfig :: "config_decoder \<Rightarrow> string \<Rightarrow> Config \<Rightarrow> load_error option \<times> Config" where
  "decodeConfig dec content cfg =
     (case decode_first dec content cfg of
        (False, cfg') \<Rightarrow> (Some LoadDecode, cfg')
      | (True, cfg') \<Rightarrow>
          (case decode_next dec content of
             TrailingEOF \<Rightarrow> (None, cfg')
           | TrailingValue \<Rightarrow> (Some LoadMultiple, cfg')
           | TrailingInvalid \<Rightarrow> (Some LoadTrailing, cfg')))"

text \<open>\<open>read\<close> gives the content of a file that can be opened.\<close>

definition LoadConfig :: "config_decoder \<Rightarrow> (string \<Rightarrow> string option) \<Rightarrow> string \<Rightarrow> load_error option \<times> Config" where
  "LoadConfig dec read config =
     (let cfg = DefaultConfig; trimConfig = trim_space config in
      if has_prefix trimConfig ''{'' then decodeConfig dec trimConfig cfg
      else (case read config of
              None \<Rightarrow> (Some LoadOpen, cfg)
            | Some content \<Rightarrow> decodeConfig dec content cfg))"

section \<open>Filters as they are written\<close>

text \<open>An entry of the list of ports: a number, or a pair in either order.\<close>

datatype port_spec = PortOne rat | PortSpan rat rat

fun port_json :: "port_spec \<Rightarrow> json" where
  "port_json (PortOne v) = JNumber (Some v)"
| "port_json (PortSpan a b) = JArray [JNumber (Some a), JNumber (Some b)]"

definition port_ok :: "rat \<Rightarrow> bool" where
  "port_ok v \<longleftrightarrow> of_int \<lfloor>v\<rfloor> = v \<and> 1 \<le> v \<and> v \<le> 65535"

fun spec_ok :: "port_spec \<Rightarrow> bool" where
  "spec_ok (PortOne v) = port_ok v"
| "spec_ok (PortSpan a b) = (port_ok a \<and> port_ok b)"

fun spec_ports :: "port_spec \<Rightarrow> u16 set" where
  "spec_ports (PortOne v) = {of_int \<lfloor>v\<rfloor>}"
| "spec_ports (PortSpan a b) = of_int ` {\<lfloor>min a b\<rfloor>..\<lfloor>max a b\<rfloor>}"

definition filter_json :: "string list \<Rightarrow> port_spec list \<Rightarrow> json" where
  "filter_json hosts specs =
     JObject [(''hostnames'', JArray (map JString hosts)), (''ports'', JArray (map port_json specs))]"

lemma add_port_sets [simp]:
  "set (Ports (add_port p f)) = insert p (set (Ports f))" "Hostnames (add_port p f) = Hostnames f"
  by (simp_all add: add_port_def)

lemma fold_add_port:
  "set (Ports (fold (\<lambda>i. add_port (of_int i)) is f)) = set (Ports f) \<union> of_int ` set is \<and>
   Hostnames (fold (\<lambda>i. add_port (of_int i)) is f) = Hostnames f"
  by (induction "is" arbitrary: f) auto

lemma add_range_sets [simp]:
  "set (Ports (add_range a b f)) = set (Ports f) \<union> of_int ` {\<lfloor>a\<rfloor>..\<lfloor>b\<rfloor>}"
  "Hostnames (add_range a b f) = Hostnames f"
  using fold_add_port[of "[\<lfloor>a\<rfloor>..\<lfloor>b\<rfloor>]" f] by (simp_all add: add_range_def)

lemma validPortNumber_ok: "validPortNumber v = (if port_ok v then Some (of_int \<lfloor>v\<rfloor>) else None)"
  by (auto simp: validPortNumber_def port_ok_def)

lemma port_entry_spec:
  "case port_entry (port_json p) f of
     Inl e \<Rightarrow> \<not> spec_ok p
   | Inr f' \<Rightarrow> spec_ok p \<and> set (Ports f') = set (Ports f) \<union> spec_ports p \<and> Hostnames f' = Hostnames f"
  by (cases p) (auto simp: validPortNumber_ok port_range_def min_def max_def)

lemma add_ports_specs:
  "case add_ports (map port_json ps) f of
     Inl e \<Rightarrow> \<not> list_all spec_ok ps
   | Inr f' \<Rightarrow> list_all spec_ok ps \<and> set (Ports f') = set (Ports f) \<union> \<Union> (spec_ports ` set ps) \<and>
       Hostnames f' = Hostnames f"
proof (induction ps arbitrary: f)
  case (Cons p ps)
  show ?case
  proof (cases "port_entry (port_json p) f")
    case (Inr f')
    then show ?thesis using port_entry_spec[of p f] Cons.IH[of f'] by (auto split: sum.splits)
  qed (use port_entry_spec[of p f] in simp)
qed simp

lemma add_hosts_sets:
  "case add_hosts ulower hs f of
     Inl e \<Rightarrow> \<not> list_all (\<lambda>h. NormalizeTargetHostname ulower h \<noteq> []) hs
   | Inr f' \<Rightarrow> list_all (\<lambda>h. NormalizeTargetHostname ulower h \<noteq> []) hs \<and>
       set (Hostnames f') = set (Hostnames f) \<union> NormalizeTargetHostname ulower ` set hs \<and> Ports f' = Ports f"
proof (induction hs arbitrary: f)
  case (Cons h hs)
  show ?case
    using Cons.IH[of "f\<lparr>Hostnames := List.insert (NormalizeTargetHostname ulower h) (Hostnames f)\<rparr>"]
    by (auto simp: Let_def split: sum.splits)
qed simp

lemma decode_strings_list [simp]: "those (map (string_element \<circ> JString) hs) = Some hs"
  by (induction hs) simp_all

lemma decode_array_specs: "decode_array (JArray (map port_json ps)) = Some (map port_json ps)"
proof -
  have "decodes_any (port_json p)" for p by (cases p) simp_all
  then show ?thesis by (simp add: list_all_iff)
qed

section \<open>Properties\<close>


end
