(* ===== verification/Logger.thy ===== *)
theory Logger
  imports Server_Config
begin

text \<open>
  \<^verbatim>\<open>wisp/logger.go\<close>: which messages are printed. The text of the key-value pairs, which
  \<^verbatim>\<open>%v\<close> makes, is the parameter \<open>fmt\<close>; a method's result is the line it prints, if
  any.
\<close>

definition levelDebug :: int where "levelDebug = 0"
definition levelInfo :: int where "levelInfo = 1"
definition levelWarn :: int where "levelWarn = 2"
definition levelError :: int where "levelError = 3"
definition levelNone :: int where "levelNone = 4"

lemmas level_defs = levelDebug_def levelInfo_def levelWarn_def levelError_def levelNone_def

text \<open>A nil logger is \<open>None\<close>; \<open>log_inner\<close> is whether there is one to print with.\<close>

record Log =
  log_level :: int
  log_inner :: bool

definition newLogger :: "(nat \<Rightarrow> nat) \<Rightarrow> string \<Rightarrow> Log option" where
  "newLogger ulower level =
     (let name = to_lower ulower (trim_space level);
          lvl = (if name = ''debug'' then levelDebug
                 else if name = ''info'' then levelInfo
                 else if name = ''warn'' \<or> name = ''warning'' then levelWarn
                 else if name = ''error'' then levelError
                 else if name = ''none'' then levelNone
                 else levelInfo)
      in Some \<lparr>log_level = lvl, log_inner = True\<rparr>)"

definition log_line :: "('a list \<Rightarrow> string) \<Rightarrow> string \<Rightarrow> string \<Rightarrow> 'a list \<Rightarrow> string" where
  "log_line fmt prefix msg kv =
     (if kv = [] then ''['' @ prefix @ ''] '' @ msg else ''['' @ prefix @ ''] '' @ msg @ '' '' @ fmt kv)"

definition log_at :: "int \<Rightarrow> string \<Rightarrow> Log option \<Rightarrow> ('a list \<Rightarrow> string) \<Rightarrow> string \<Rightarrow> 'a list \<Rightarrow> string option" where
  "log_at level prefix l fmt msg kv =
     (case l of
        None \<Rightarrow> None
      | Some l \<Rightarrow> if \<not> log_inner l \<or> level < log_level l then None else Some (log_line fmt prefix msg kv))"

definition Log_Debug :: "Log option \<Rightarrow> ('a list \<Rightarrow> string) \<Rightarrow> string \<Rightarrow> 'a list \<Rightarrow> string option" where
  "Log_Debug = log_at levelDebug ''DEBUG''"

definition Log_Info :: "Log option \<Rightarrow> ('a list \<Rightarrow> string) \<Rightarrow> string \<Rightarrow> 'a list \<Rightarrow> string option" where
  "Log_Info = log_at levelInfo ''INFO''"

definition Log_Warn :: "Log option \<Rightarrow> ('a list \<Rightarrow> string) \<Rightarrow> string \<Rightarrow> 'a list \<Rightarrow> string option" where
  "Log_Warn = log_at levelWarn ''WARN''"

definition Log_Error :: "Log option \<Rightarrow> ('a list \<Rightarrow> string) \<Rightarrow> string \<Rightarrow> 'a list \<Rightarrow> string option" where
  "Log_Error = log_at levelError ''ERROR''"

text \<open>The severities are ordered: a logger that prints a message prints every more severe one.\<close>

lemma more_severe_printed:
  "Log_Debug l fmt msg kv \<noteq> None \<Longrightarrow> Log_Info l fmt msg kv \<noteq> None"
  "Log_Info l fmt msg kv \<noteq> None \<Longrightarrow> Log_Warn l fmt msg kv \<noteq> None"
  "Log_Warn l fmt msg kv \<noteq> None \<Longrightarrow> Log_Error l fmt msg kv \<noteq> None"
  by (auto simp: Log_Debug_def Log_Info_def Log_Warn_def Log_Error_def log_at_def level_defs
      split: option.splits if_splits)

lemma none_is_silent:
  "to_lower ulower (trim_space level) = ''none'' \<Longrightarrow> Log_Error (newLogger ulower level) fmt msg kv = None"
  by (simp add: newLogger_def Log_Error_def log_at_def level_defs Let_def)

end
