(* ===== verification/Proxy_Dial.thy ===== *)
theory Proxy_Dial
  imports Server_Config
begin

text \<open>
  Dialling through a proxy (\<^verbatim>\<open>wisp/proxy.go\<close>). The network is an argument: what each
  operation on it answers; the operations that are made, in their order, are part of the result.
  SOCKS5 is a library of its own and a parameter.
\<close>

section \<open>URLs\<close>

text \<open>The further parts of a parsed URL; the credentials are a name and a password, empty if absent.\<close>

record proxy_url = parsed_url +
  url_Host :: string
  url_Port :: string
  url_User :: "(string \<times> string) option"

definition withDefaultPort :: "proxy_url \<Rightarrow> string \<Rightarrow> string" where
  "withDefaultPort u defaultPort =
     (if url_Port u \<noteq> [] then url_Host u else JoinHostPort (url_Hostname u) defaultPort)"

section \<open>Base64\<close>

definition base64_char :: "nat \<Rightarrow> char" where
  "base64_char n = ''ABCDEFGHIJKLMNOPQRSTUVWXYZabcdefghijklmnopqrstuvwxyz0123456789+/'' ! (n mod 64)"

text \<open>\<^verbatim>\<open>base64.StdEncoding.EncodeToString\<close>\<close>

fun base64_encode :: "nat list \<Rightarrow> string" where
  "base64_encode [] = []"
| "base64_encode [a] = [base64_char (a div 4), base64_char (a mod 4 * 16), CHR ''='', CHR ''='']"
| "base64_encode [a, b] =
     [base64_char (a div 4), base64_char (a mod 4 * 16 + b div 16), base64_char (b mod 16 * 4), CHR ''='']"
| "base64_encode (a # b # c # bs) =
     [base64_char (a div 4), base64_char (a mod 4 * 16 + b div 16), base64_char (b mod 16 * 4 + c div 64),
      base64_char c] @ base64_encode bs"

section \<open>The network\<close>

record connect_request =
  req_Method :: string
  req_Opaque :: string
  req_Host :: string
  req_Header :: "(string \<times> string) list"

datatype proxy_io =
    IoDial string
  | IoSetDeadline
  | IoClearDeadline
  | IoHandshake string
  | IoWriteRequest connect_request
  | IoReadResponse
  | IoClose

text \<open>
  The answers: an error or nothing from the dial, the handshake and the write; the status and the
  bytes already read behind the header from the response. \<open>net_Timeout\<close> is the dialler's.
\<close>

record proxy_network =
  net_Timeout :: duration
  net_dial :: "string option"
  net_handshake :: "string option"
  net_write :: "string option"
  net_response :: "string + nat \<times> string"

datatype proxy_error =
    ProxyURL | ProxyScheme | ProxySOCKS5 string | ProxyDial string | ProxyHandshake string
  | ProxyWrite string | ProxyResponse string | ProxyRefused nat

definition setProxyDeadline :: "proxy_network \<Rightarrow> proxy_io list" where
  "setProxyDeadline net = (if 0 < net_Timeout net then [IoSetDeadline] else [])"

definition proxy_request :: "proxy_url \<Rightarrow> string \<Rightarrow> connect_request" where
  "proxy_request u destination =
     \<lparr>req_Method = ''CONNECT'', req_Opaque = destination, req_Host = destination,
      req_Header = (''Proxy-Connection'', ''Keep-Alive'') #
        (case url_User u of
           None \<Rightarrow> []
         | Some (name, password) \<Rightarrow>
             [(''Proxy-Authorization'', ''Basic '' @ base64_encode (map of_char (name @ '':'' @ password)))])\<rparr>"

definition is_https :: "proxy_url \<Rightarrow> bool" where
  "is_https u \<longleftrightarrow> equal_fold_ascii (url_Scheme u) ''https''"

text \<open>
  The result is an error or the bytes that the connection's reader already holds. \<open>failed\<close> is the
  deferred close; the connection is wrapped in TLS or not, but it is the one that was dialled.
\<close>

definition dialHTTPConnect ::
  "proxy_network \<Rightarrow> proxy_url \<Rightarrow> string \<Rightarrow> (proxy_error + string) \<times> proxy_io list" where
  "dialHTTPConnect net u destination =
     (let addr = withDefaultPort u (if is_https u then ''443'' else ''80'');
          failed = (\<lambda>e ios. (Inl e, ios @ [IoClose]))
      in case net_dial net of
           Some e \<Rightarrow> (Inl (ProxyDial e), [IoDial addr])
         | None \<Rightarrow>
             (let tls = (if is_https u
                         then setProxyDeadline net @ [IoHandshake (url_Hostname u)] else []);
                  ios1 = IoDial addr # tls
              in if is_https u \<and> net_handshake net \<noteq> None
                 then failed (ProxyHandshake (the (net_handshake net))) ios1
                 else
                   (let ios2 = ios1 @ (if is_https u then [IoClearDeadline] else []) @
                               setProxyDeadline net @ [IoWriteRequest (proxy_request u destination)]
                    in case net_write net of
                         Some e \<Rightarrow> failed (ProxyWrite e) ios2
                       | None \<Rightarrow>
                           (case net_response net of
                              Inl e \<Rightarrow> failed (ProxyResponse e) (ios2 @ [IoReadResponse])
                            | Inr (status, buffered) \<Rightarrow>
                                if status \<noteq> 200 then failed (ProxyRefused status) (ios2 @ [IoReadResponse])
                                else (Inr buffered, ios2 @ [IoReadResponse, IoClearDeadline])))))"

text \<open>
  \<open>socks5 address credentials destination\<close> is the library's dialler: an error, or a connection.
\<close>

definition dialSOCKS5 ::
  "(string \<Rightarrow> (string \<times> string) option \<Rightarrow> string \<Rightarrow> string option) \<Rightarrow> proxy_url \<Rightarrow> string
     \<Rightarrow> (proxy_error + string) \<times> proxy_io list" where
  "dialSOCKS5 socks5 u destination =
     (case socks5 (withDefaultPort u ''1080'') (url_User u) destination of
        Some e \<Rightarrow> (Inl (ProxySOCKS5 e), [])
      | None \<Rightarrow> (Inr [], []))"

definition dialProxy ::
  "(nat \<Rightarrow> nat) \<Rightarrow> (string \<Rightarrow> proxy_url option) \<Rightarrow>
     (string \<Rightarrow> (string \<times> string) option \<Rightarrow> string \<Rightarrow> string option) \<Rightarrow>
     proxy_network \<Rightarrow> string \<Rightarrow> string \<Rightarrow> (proxy_error + string) \<times> proxy_io list" where
  "dialProxy ulower url_parse socks5 net rawURL destination =
     (case url_parse rawURL of
        None \<Rightarrow> (Inl ProxyURL, [])
      | Some u \<Rightarrow>
          (let scheme = to_lower ulower (url_Scheme u) in
           if scheme \<in> {''socks5'', ''socks5h''} then dialSOCKS5 socks5 u destination
           else if scheme \<in> {''http'', ''https''} then dialHTTPConnect net u destination
           else (Inl ProxyScheme, [])))"

section \<open>Properties\<close>

text \<open>
  C32: No connection to a proxy is leaked and no credential is sent in clear to an HTTPS proxy: when
  the dial succeeded, the connection is closed exactly once and last if the call fails, and never
  if it succeeds; the request, which carries the credentials, follows the TLS handshake.
\<close>

theorem dialHTTPConnect_closes:
  "case dialHTTPConnect net u destination of (res, ios) \<Rightarrow>
     (if net_dial net = None \<and> isl res then last ios = IoClose \<and> count_list ios IoClose = 1 else IoClose \<notin> set ios) \<and>
     (if is_https u then IoWriteRequest req \<notin> set (takeWhile (\<lambda>io. io \<noteq> IoHandshake (url_Hostname u)) ios)
      else IoHandshake name \<notin> set ios) \<and>
     (if isl res then True else IoWriteRequest (proxy_request u destination) \<in> set ios \<and>
        (\<exists>buffered. net_response net = Inr (200, buffered) \<and> res = Inr buffered))"
  by (cases "net_dial net"; cases "is_https u"; cases "net_handshake net"; cases "net_write net")
     (auto simp: dialHTTPConnect_def setProxyDeadline_def Let_def split: sum.splits prod.splits if_splits)

lemma dialProxy_supported:
  assumes "validateProxyURL ulower (\<lambda>raw. map_option parsed_url.truncate (url_parse raw)) raw = None"
    and "trim_space raw \<noteq> []"
  shows "fst (dialProxy ulower url_parse socks5 net raw destination) \<notin> {Inl ProxyURL, Inl ProxyScheme}"
proof -
  obtain u where u: "url_parse raw = Some u"
    "to_lower ulower (url_Scheme u) \<in> {''socks5'', ''socks5h'', ''http'', ''https''}"
    using assms by (auto simp: validateProxyURL_def parsed_url.defs split: option.splits if_splits)
  have "fst (dialHTTPConnect net u destination) \<notin> {Inl ProxyURL, Inl ProxyScheme}"
    by (auto simp: dialHTTPConnect_def Let_def split: option.splits sum.splits prod.splits if_splits)
  moreover have "fst (dialSOCKS5 socks5 u destination) \<notin> {Inl ProxyURL, Inl ProxyScheme}"
    by (simp add: dialSOCKS5_def split: option.split)
  ultimately show ?thesis using u by (auto simp: dialProxy_def Let_def)
qed

end
