(* ===== verification/Command.thy ===== *)
theory Command
  imports Handler Config_Json Logger Proxy_Dial
begin

text \<open>
  The command (\<^verbatim>\<open>main.go\<close>): how the flags and the configuration become a running server.
  The flags are parsed; what \<^verbatim>\<open>net/http\<close> does, the delivery of signals and the
  serving of files are outside, but what the command does about them is here.
\<close>

section \<open>Configuration\<close>

text \<open>\<open>fAllowLoopbackIPs\<close> is \<open>None\<close> where the flag is not set on the command line.\<close>

record main_flags =
  fConfig :: string
  fPort :: int
  fHost :: string
  fAllowLoopbackIPs :: "bool option"

definition flag_config :: "main_flags \<Rightarrow> Config \<Rightarrow> Config" where
  "flag_config fl cfg =
     (let cfg1 = (if fPort fl \<noteq> 0 then cfg\<lparr>Port := fPort fl\<rparr> else cfg)
      in case fAllowLoopbackIPs fl of None \<Rightarrow> cfg1 | Some b \<Rightarrow> cfg1\<lparr>AllowLoopbackIPs := b\<rparr>)"

section \<open>Routes\<close>

datatype route = RouteHealth | RouteStats | RouteFiles | RouteWisp

text \<open>The patterns that are registered, in order.\<close>

definition main_routes :: "Config \<Rightarrow> (string \<times> route) list" where
  "main_routes cfg =
     [(''/health'', RouteHealth), (''/stats'', RouteStats)] @
     (if StaticDir cfg \<noteq> [] then [(''/'', RouteFiles), (''/wisp'', RouteWisp)] else [(''/'', RouteWisp)])"

text \<open>
  The choice of \<^verbatim>\<open>http.ServeMux\<close> among these patterns for a cleaned path: a pattern that
  ends in a slash stands for all paths below it, another for itself, and the longest one wins.
\<close>

definition pattern_matches :: "string \<Rightarrow> string \<Rightarrow> bool" where
  "pattern_matches p path \<longleftrightarrow> path = p \<or> (has_suffix p ''/'' \<and> has_prefix path p)"

fun mux_handler :: "(string \<times> route) list \<Rightarrow> string \<Rightarrow> (string \<times> route) option" where
  "mux_handler [] path = None"
| "mux_handler ((p, h) # rs) path =
     (case mux_handler rs path of
        None \<Rightarrow> if pattern_matches p path then Some (p, h) else None
      | Some (q, k) \<Rightarrow> if pattern_matches p path \<and> length q < length p then Some (p, h) else Some (q, k))"

definition health_body :: string where
  "health_body = ''{'' @ [CHR 0x22] @ ''status'' @ [CHR 0x22] @ '':'' @ [CHR 0x22] @ ''ok'' @ [CHR 0x22] @ ''}'' @ [CHR 0x0A]"

section \<open>Start\<close>

datatype main_outcome =
    MainLoadFailed load_error
  | MainExit2 config_error
  | MainServe server string "(string \<times> route) list"

definition main_start ::
  "(nat \<Rightarrow> nat) \<Rightarrow> (string \<Rightarrow> proxy_url option) \<Rightarrow> config_decoder \<Rightarrow> (string \<Rightarrow> string option) \<Rightarrow> gotime \<Rightarrow> store_read
     \<Rightarrow> main_flags \<Rightarrow> main_outcome" where
  "main_start ulow url_parse dec read now file fl =
     (let parse = (\<lambda>raw. map_option parsed_url.truncate (url_parse raw)) in
      case (if fConfig fl \<noteq> [] then LoadConfig dec read (fConfig fl) else (None, DefaultConfig)) of
        (Some e, _) \<Rightarrow> MainLoadFailed e
      | (None, cfg0) \<Rightarrow>
          (let cfg = flag_config fl cfg0 in
           case Validate ulow parse (Some cfg) of
             Some e \<Rightarrow> MainExit2 e
           | None \<Rightarrow>
               (case NewWispHandler ulow parse now file
                       \<lparr>srv_config = CreateWispConfig (Some cfg), srv_DNSCache = None, srv_Globals = None,
                        srv_connIDCounter = 0\<rparr> of
                  Inl e \<Rightarrow> MainExit2 e
                | Inr srv \<Rightarrow> MainServe srv (JoinHostPort (fHost fl) (format_int (Port cfg))) (main_routes cfg))))"

section \<open>End\<close>

text \<open>
  The goroutine that waits for a signal, and what follows \<^verbatim>\<open>ListenAndServe\<close>: the lines
  that are printed and the server and its active connections. \<open>err\<close> is the error of
  \<^verbatim>\<open>server.Shutdown\<close>.
\<close>

datatype listen_result = ListenServerClosed | ListenFailed string

definition main_signal ::
  "string \<Rightarrow> string option \<Rightarrow> server \<Rightarrow> wispConnection list \<Rightarrow> string list \<times> server \<times> wispConnection list" where
  "main_signal sig err s cs =
     (case Shutdown s cs of
        (s', cs') \<Rightarrow>
          ((''[INFO] Shutting down (signal: '' @ sig @ '')'') #
             (case err of None \<Rightarrow> [] | Some e \<Rightarrow> [''[INFO] Shutdown error: '' @ e]), s', cs'))"

definition main_end ::
  "listen_result \<Rightarrow> server \<Rightarrow> wispConnection list \<Rightarrow> string list \<times> server \<times> wispConnection list" where
  "main_end res s cs =
     (case Shutdown s cs of
        (s', cs') \<Rightarrow>
          ((case res of ListenServerClosed \<Rightarrow> [] | ListenFailed e \<Rightarrow> [''[INFO] Failed to start wispurr: '' @ e]), s', cs'))"

section \<open>Properties\<close>

lemma mux_handler_main:
  "map_option snd (mux_handler (main_routes cfg) ''/wisp'') = Some RouteWisp"
  "map_option snd (mux_handler (main_routes cfg) ''/health'') = Some RouteHealth"
proof -
  have m: "pattern_matches ''/wisp'' ''/wisp''" "pattern_matches ''/'' ''/wisp''" "\<not> pattern_matches ''/health'' ''/wisp''"
    "\<not> pattern_matches ''/stats'' ''/wisp''" "pattern_matches ''/health'' ''/health''" "pattern_matches ''/'' ''/health''"
    "\<not> pattern_matches ''/stats'' ''/health''" "\<not> pattern_matches ''/wisp'' ''/health''"
    by (simp_all add: pattern_matches_def has_suffix_def)
  show "map_option snd (mux_handler (main_routes cfg) ''/wisp'') = Some RouteWisp"
    "map_option snd (mux_handler (main_routes cfg) ''/health'') = Some RouteHealth"
    by (cases "StaticDir cfg = []"; simp add: main_routes_def m)+
qed

lemma Validate_nets: "Validate ulow parse (Some (cfg\<lparr>trustedProxyNets := nets\<rparr>)) = Validate ulow parse (Some cfg)"
  by (simp add: Validate_def split del: if_split cong: if_cong option.case_cong)

lemma main_start_serve:
  assumes "main_start ulow url_parse dec read now file fl = MainServe srv addr rs"
  obtains cfg where "Validate ulow (\<lambda>raw. map_option parsed_url.truncate (url_parse raw)) (Some cfg) = None"
    "srv_config srv = cfg\<lparr>trustedProxyNets := trusted_nets (TrustedProxies cfg)\<rparr>"
    "addr = JoinHostPort (fHost fl) (format_int (Port cfg))" "rs = main_routes cfg"
    "srv_Globals srv \<noteq> None" "srv_DNSCache srv \<noteq> None"
    "fPort fl \<noteq> 0 \<Longrightarrow> Port cfg = fPort fl"
proof -
  let ?load = "if fConfig fl \<noteq> [] then LoadConfig dec read (fConfig fl) else (None, DefaultConfig)"
  let ?parse = "\<lambda>raw. map_option parsed_url.truncate (url_parse raw)"
  obtain e cfg0 where c: "?load = (e, cfg0)" by fastforce
  define cfg where "cfg = flag_config fl cfg0"
  have e: "e = None" using assms unfolding main_start_def Let_def c by (cases e) simp_all
  note start = assms[unfolded main_start_def Let_def c e prod.case option.case cfg_def[symmetric]]
  have v: "Validate ulow ?parse (Some cfg) = None"
    using start by (cases "Validate ulow ?parse (Some cfg)") simp_all
  have "NewWispHandler ulow ?parse now file
      \<lparr>srv_config = cfg\<lparr>trustedProxyNets := []\<rparr>, srv_DNSCache = None, srv_Globals = None, srv_connIDCounter = 0\<rparr> =
    Inr (createWispHandler ulow now file
      \<lparr>srv_config = cfg\<lparr>trustedProxyNets := []\<rparr>, srv_DNSCache = None, srv_Globals = None, srv_connIDCounter = 0\<rparr>)"
    by (simp add: NewWispHandler_def Validate_nets v)
  then have "srv = createWispHandler ulow now file
      \<lparr>srv_config = cfg\<lparr>trustedProxyNets := []\<rparr>, srv_DNSCache = None, srv_Globals = None, srv_connIDCounter = 0\<rparr>"
    "addr = JoinHostPort (fHost fl) (format_int (Port cfg))" "rs = main_routes cfg"
    using start v by (simp_all add: CreateWispConfig_def)
  moreover have "fPort fl \<noteq> 0 \<Longrightarrow> Port cfg = fPort fl"
    by (simp add: cfg_def flag_config_def Let_def split: option.split)
  ultimately show thesis
    using that[of cfg] v by (simp add: createWispHandler_def InitResolver_def Let_def)
qed


definition no_decoder :: config_decoder where
  "no_decoder = \<lparr>decode_first = (\<lambda>_ cfg. (False, cfg)), decode_next = (\<lambda>_. TrailingEOF)\<rparr>"

definition no_flags :: main_flags where
  "no_flags = \<lparr>fConfig = [], fPort = 0, fHost = [], fAllowLoopbackIPs = None\<rparr>"

lemma Validate_default: "Validate (\<lambda>x. x) parse (Some DefaultConfig) = None"
proof -
  have low: "to_lower (\<lambda>x. x) (trim_space w) = w" if "w \<in> {''resolve'', ''ipv4first'', ''info''}" for w
    using that by (auto simp: to_lower_ascii trim_space_ascii is_ascii_def ascii_lower_def ascii_space_def)
  have "validHTTPHeaderName ''CF-Connecting-IP''" "validHTTPHeaderName ''X-Forwarded-For''"
    by (simp_all add: validHTTPHeaderName_def)
  moreover have "trim_space [] = []" by (simp add: trim_space_ascii is_ascii_def)
  ultimately show ?thesis
    by (simp add: Validate_def DefaultConfig_def validateProxyURL_def low[simplified])
qed


lemma conn_close_closed [simp]: "isClosed (conn_close c)" "isClosed c \<Longrightarrow> conn_close c = c"
  by (simp_all add: conn_close_def close_drain_def send_done_def)

text \<open>
  A shutdown stops the resolver's cache and the maintenance, closes every active connection, and can
  be repeated: the second one, after \<^verbatim>\<open>ListenAndServe\<close> has returned, changes nothing.
\<close>

theorem Shutdown_complete:
  "case main_signal sig err s cs of (lines, s', cs') \<Rightarrow>
     main_end ListenServerClosed s' cs' = ([], s', cs') \<and>
     (case srv_DNSCache s' of None \<Rightarrow> srv_DNSCache s = None | Some d \<Rightarrow> dns_stopped d) \<and>
     (case srv_Globals s' of
        None \<Rightarrow> srv_Globals s = None \<and> cs' = cs
      | Some g \<Rightarrow> g_stopped g \<and> cs' = map conn_close cs \<and> list_all isClosed cs')"
  by (auto simp: main_signal_def main_end_def Shutdown_def DNSCache_Close_def Let_def list_all_iff
      split: option.splits)

end
