(* ===== verification/Reputation_Store.thy ===== *)
theory Reputation_Store
  imports Reputation
begin

text \<open>
  The store of the scores (\<^verbatim>\<open>SaveNow\<close> and \<^verbatim>\<open>RunMaintenance\<close> of
  \<^verbatim>\<open>wisp/reputation.go\<close>) on a file system that maps paths to contents. The JSON encoder
  and decoder are the parameters \<open>marshal\<close> and \<open>unmarshal\<close>; the outcomes of the system calls
  are arguments.
\<close>

section \<open>Saving\<close>

type_synonym file_system = "string \<rightharpoonup> string"

text \<open>A write that fails may have left no file or a part of the data.\<close>

datatype write_outcome = WriteOk | WriteFailed "string option"

record save_world =
  sw_mkdir :: bool
  sw_write :: write_outcome
  sw_rename :: bool

definition snapshot :: "reputation \<Rightarrow> repSnapshot" where
  "snapshot r = \<lparr>snap_Sources = Some (sources r), snap_Dests = Some (dests r)\<rparr>"

definition WriteFile :: "string \<Rightarrow> string \<Rightarrow> write_outcome \<Rightarrow> file_system \<Rightarrow> file_system" where
  "WriteFile path content outcome fs =
     (case outcome of
        WriteOk \<Rightarrow> fs(path \<mapsto> content)
      | WriteFailed None \<Rightarrow> fs
      | WriteFailed (Some part) \<Rightarrow> fs(path \<mapsto> part))"

definition Rename :: "string \<Rightarrow> string \<Rightarrow> file_system \<Rightarrow> file_system" where
  "Rename old new fs = fs(new := fs old, old := None)"

text \<open>
  \<^verbatim>\<open>SaveNow\<close>: whether it fails, and the file systems from before the call to after it, one
  for each system call that changes files.
\<close>

definition SaveNow ::
  "(repSnapshot \<Rightarrow> string option) \<Rightarrow> save_world \<Rightarrow> reputation option \<Rightarrow> file_system \<Rightarrow> bool \<times> file_system list" where
  "SaveNow marshal w rep fs =
     (case rep of
        None \<Rightarrow> (False, [fs])
      | Some r \<Rightarrow>
          (let path = StorePath (rep_cfg r) in
           if path = [] then (False, [fs])
           else (case marshal (snapshot r) of
                   None \<Rightarrow> (True, [fs])
                 | Some content \<Rightarrow>
                     if \<not> sw_mkdir w then (True, [fs])
                     else
                       (let tmp = path @ ''.tmp''; fs1 = WriteFile tmp content (sw_write w) fs
                        in if sw_write w \<noteq> WriteOk then (True, [fs, fs1])
                           else if \<not> sw_rename w then (True, [fs, fs1])
                           else (False, [fs, fs1, Rename tmp path fs1])))))"

text \<open>What \<^verbatim>\<open>Load\<close> finds in the file system.\<close>

definition read_store :: "(string \<Rightarrow> repSnapshot option) \<Rightarrow> string \<Rightarrow> file_system \<Rightarrow> store_read" where
  "read_store unmarshal path fs =
     (case fs path of
        None \<Rightarrow> StoreMissing
      | Some content \<Rightarrow> (case unmarshal content of None \<Rightarrow> StoreMalformed | Some s \<Rightarrow> StoreSnapshot s))"

section \<open>Maintenance\<close>

text \<open>What the loop of \<^verbatim>\<open>RunMaintenance\<close> waits for: a tick, with the clock, or the stop.\<close>

datatype maintenance_event = MaintTick gotime gotime gotime save_world | MaintStop save_world

fun maintenance_loop ::
  "(repSnapshot \<Rightarrow> string option) \<Rightarrow> maintenance_event list \<Rightarrow> reputation option \<times> file_system
     \<Rightarrow> reputation option \<times> file_system" where
  "maintenance_loop marshal [] (rep, fs) = (rep, fs)"
| "maintenance_loop marshal (MaintStop w # es) (rep, fs) = (rep, last (snd (SaveNow marshal w rep fs)))"
| "maintenance_loop marshal (MaintTick now now' now'' w # es) (rep, fs) =
     (let rep' = maintenance_tick now now' now'' rep
      in maintenance_loop marshal es (rep', last (snd (SaveNow marshal w rep' fs))))"

definition RunMaintenance ::
  "(repSnapshot \<Rightarrow> string option) \<Rightarrow> maintenance_event list \<Rightarrow> reputation option \<Rightarrow> file_system
     \<Rightarrow> reputation option \<times> file_system" where
  "RunMaintenance marshal es rep fs =
     (if rep = None then (rep, fs) else maintenance_loop marshal es (rep, fs))"

section \<open>Properties\<close>

lemma SaveNow_cases:
  assumes "SaveNow marshal w (Some r) fs = (err, fss)" "StorePath (rep_cfg r) \<noteq> []"
  obtains (untouched) "err" "fss = [fs]"
  | (written) content fs1 where "err" "fss = [fs, fs1]"
      "fs1 = WriteFile (StorePath (rep_cfg r) @ ''.tmp'') content (sw_write w) fs"
  | (saved) content fs1 where "\<not> err" "marshal (snapshot r) = Some content"
      "fs1 = fs(StorePath (rep_cfg r) @ ''.tmp'' \<mapsto> content)"
      "fss = [fs, fs1, Rename (StorePath (rep_cfg r) @ ''.tmp'') (StorePath (rep_cfg r)) fs1]"
  using assms by (auto simp: SaveNow_def WriteFile_def Let_def split: option.splits if_splits)

lemma WriteFile_other: "q \<noteq> path \<Longrightarrow> WriteFile path content outcome fs q = fs q"
  by (simp add: WriteFile_def split: write_outcome.split option.split)

lemma WriteFile_diff: "WriteFile path content outcome fs q \<noteq> fs q \<Longrightarrow> q = path"
  using WriteFile_other by metis

text \<open>
  C29: The store file is replaced atomically: at every moment of a save, also if it fails or the
  machine stops in the middle, the file is the old one or holds the complete new snapshot, and no
  other file but the temporary one is touched; the save reports success exactly when the file holds
  the new snapshot and the temporary file is gone.
\<close>

theorem SaveNow_atomic:
  assumes "SaveNow marshal w (Some r) fs = (err, fss)" and "StorePath (rep_cfg r) = path" and "path \<noteq> []"
    and "fs' \<in> set fss"
  shows "(fs' path = fs path \<or> (\<exists>content. marshal (snapshot r) = Some content \<and> fs' path = Some content)) \<and>
    {q. fs' q \<noteq> fs q} \<subseteq> {path, path @ ''.tmp''} \<and>
    (if err then last fss path = fs path
     else last fss path = marshal (snapshot r) \<and> last fss (path @ ''.tmp'') = None)"
proof -
  have ne: "path @ ''.tmp'' \<noteq> path" by simp
  show ?thesis
    using assms(2-4) ne
    by (cases rule: SaveNow_cases[OF assms(1)])
       (auto simp: WriteFile_other Rename_def split: if_splits dest: WriteFile_diff)
qed

text \<open>
  What was saved is what is loaded: after a successful save, a server that starts on the same
  store has exactly the scores, for an encoder that the decoder inverts.
\<close>

theorem SaveNow_then_Load:
  assumes "\<And>s content. marshal s = Some content \<Longrightarrow> unmarshal content = Some s"
    and "SaveNow marshal w (Some r) fs = (False, fss)" and "StorePath (rep_cfg r) \<noteq> []"
  shows "Load (read_store unmarshal (StorePath (rep_cfg r)) (last fss)) (NewReputation now (rep_cfg r)) =
    (False, Some (r\<lparr>lastDecay := now\<rparr>))"
  using assms(3) assms(1)
  by (cases rule: SaveNow_cases[OF assms(2,3)])
     (auto simp: Rename_def read_store_def Load_def NewReputation_def snapshot_def)

definition demo_rep :: reputation where
  "demo_rep = \<lparr>rep_cfg = \<lparr>rc_Enabled = True, StorePath = ''s'', DecayPerHour = 0, EvictAfter = 0, EvictDays = 0,
     Weights = [], DestWeights = [], rc_Thresholds = \<lparr>Warn = 0, Throttle = 0, Strict = 0\<rparr>, SaveIntervalSeconds = 0\<rparr>,
     sources = Map.empty, dests = Map.empty, lastDecay = 5\<rparr>"

definition demo_marshal :: "repSnapshot \<Rightarrow> string option" where
  "demo_marshal s = (if s = snapshot demo_rep then Some ''{}'' else None)"

lemma demo_save:
  "SaveNow demo_marshal \<lparr>sw_mkdir = True, sw_write = WriteOk, sw_rename = True\<rparr> (Some demo_rep) [''s'' \<mapsto> ''old''] =
     (False, [[''s'' \<mapsto> ''old''], [''s'' \<mapsto> ''old'', ''s.tmp'' \<mapsto> ''{}''],
       Rename ''s.tmp'' ''s'' [''s'' \<mapsto> ''old'', ''s.tmp'' \<mapsto> ''{}'']])"
  by (simp add: SaveNow_def demo_marshal_def WriteFile_def demo_rep_def Let_def)

theorem SaveNow_atomic_witness:
  "[''s'' \<mapsto> ''old'', ''s.tmp'' \<mapsto> ''{}''] ''s'' \<in> {Some ''old'', Some ''{}''}"
  using SaveNow_atomic[OF demo_save, of "''s''" "[''s'' \<mapsto> ''old'', ''s.tmp'' \<mapsto> ''{}'']"]
  by (simp add: demo_rep_def)

theorem SaveNow_then_Load_witness:
  "fst (Load (read_store (\<lambda>_. Some (snapshot demo_rep)) ''s'' (Rename ''s.tmp'' ''s'' [''s'' \<mapsto> ''old'', ''s.tmp'' \<mapsto> ''{}'']))
     (NewReputation 9 (rep_cfg demo_rep))) = False"
proof -
  have m: "Some (snapshot demo_rep) = Some s" if "demo_marshal s = Some content" for s content
    using that by (simp add: demo_marshal_def split: if_splits)
  have p: "StorePath (rep_cfg demo_rep) = ''s''" by (simp add: demo_rep_def)
  from SaveNow_then_Load[OF m demo_save, where now = 9] show ?thesis by (simp add: p)
qed

end
