(* ===== verification/Session.thy ===== *)
theory Session
  imports Conn_Findings Ws_Client
begin

text \<open>
  The WebSocket reader and the handlers together: \<^verbatim>\<open>readLoop\<close> with its calls carried out one
  after the other, between which the other goroutines rest. Such a session is a run of the
  interleaved system, so that all that holds of its states holds here; and what a client writes,
  in whatever frames and reads, arrives at the stream.
\<close>

section \<open>The read loop on a connection\<close>

text \<open>
  The calls in their order; the \<open>n\<close>-th gets its answers from \<open>e n\<close>. \<open>False\<close> after a panic.
\<close>

fun session :: "(nat \<Rightarrow> packet_env) \<Rightarrow> ws_action list \<Rightarrow> wispConnection \<Rightarrow> bool \<times> wispConnection" where
  "session e [] c = (True, c)"
| "session e (WsFrame p pooled # acts) c =
     (case handleWispFrame (e 0) p c of
        (DataPanic, c') \<Rightarrow> (False, c')
      | (_, c') \<Rightarrow> session (\<lambda>n. e (Suc n)) acts c')"
| "session e (WsClose code # acts) c = session (\<lambda>n. e (Suc n)) acts (sendWSClose (pe_done (e 0)) code c)"
| "session e (WsPong p # acts) c = session (\<lambda>n. e (Suc n)) acts (writeRawPong p c)"

section \<open>A session is a run\<close>

lemma frame_no_data:
  assumes "\<not> is_data c packet" "handleWispFrame env packet c = (res, c')"
  shows "res = DataReturn False"
  using assms by (auto simp: handleWispFrame_def is_data_def Let_def split: if_splits)

lemma frame_data:
  assumes "is_data c packet"
  shows "handleWispFrame env packet c = handleDataPacket env (packet_stream packet) (drop 5 packet) c"
  using assms by (auto simp: handleWispFrame_def is_data_def packet_stream_def Let_def)

text \<open>One packet, from the head of the loop to the head of the loop, or to a panic.\<close>

lemma packet_run:
  assumes "conn_reach cfg (c, add_mset PLoop ps)" "handleWispFrame env packet c = (res, c')"
  shows "\<exists>qs. conn_reach cfg (c', add_mset (after_finish res) qs)"
proof (cases "is_data c packet")
  case False
  from reach_own[OF assms(1) loop_packet[OF False assms(2)]] frame_no_data[OF False assms(2)]
  show ?thesis by (auto simp: after_finish_def)
next
  case True
  let ?i = "packet_stream packet" and ?p = "drop 5 packet"
  obtain out c1 where l: "handleData_lookup (pe_write_ok env) ?i ?p c = (out, c1)" by fastforce
  obtain qs where 1: "conn_reach cfg (c1, add_mset (after_lookup ?i ?p out) qs)"
    using reach_own[OF assms(1) data_lookup[OF True l]] by blast
  note h = assms(2)[unfolded frame_data[OF True] handleDataPacket_def l prod.case]
  show ?thesis
  proof (cases out)
    case (DataGo r)
    obtain ok c2 where w: "handleData_wait (pe_clock env 2) (pe_clock env 3) (pe_stopped env) ?p c1 = (ok, c2)" by fastforce
    have 2: "conn_reach cfg (c2, add_mset (if ok then PDataReady ?i ?p r else PLoop) qs)"
      using reach_own[OF _ data_wait[OF w], of cfg ?i r qs] 1 by (simp add: after_lookup_def DataGo)
    show ?thesis
    proof (cases ok)
      case True
      then have f: "handleData_finish (pe_write_ok env) ?i ?p r c2 = (res, c')" using h by (simp add: DataGo w)
      show ?thesis using reach_own[OF _ data_finish[OF f]] 2 True by force
    qed (use 2 h w DataGo in \<open>auto simp: after_finish_def\<close>)
  qed (use 1 h in \<open>auto simp: after_lookup_def after_finish_def\<close>)
qed

lemma session_run:
  assumes "conn_reach cfg (c, add_mset PLoop ps)" "\<forall>p. WsPong p \<in> set acts \<longrightarrow> length p \<le> 125"
    "session e acts c = (ok, c')"
  shows "\<exists>qs. conn_reach cfg (c', add_mset (if ok then PLoop else PPanic) qs)"
  using assms
proof (induction acts arbitrary: c ps e)
  case Nil
  then show ?case by auto
next
  case (Cons a acts)
  show ?case
  proof (cases a)
    case (WsFrame p pooled)
    obtain res c1 where h: "handleWispFrame (e 0) p c = (res, c1)" by fastforce
    obtain qs where 1: "conn_reach cfg (c1, add_mset (after_finish res) qs)"
      using packet_run[OF Cons.prems(1) h] by blast
    show ?thesis
      using Cons.IH[of c1 qs "\<lambda>n. e (Suc n)"] Cons.prems(2,3) 1
      by (cases res) (auto simp: WsFrame h after_finish_def)
  next
    case (WsClose code)
    show ?thesis
      using Cons.IH[OF reach_own[OF Cons.prems(1) loop_close], of "\<lambda>n. e (Suc n)"] Cons.prems(2,3)
      by (auto simp: WsClose)
  next
    case (WsPong p)
    have "length p \<le> 125" using Cons.prems(2) by (simp add: WsPong)
    from Cons.IH[OF reach_own[OF Cons.prems(1) loop_pong[OF this]], of "\<lambda>n. e (Suc n)"] Cons.prems(2,3)
    show ?thesis by (auto simp: WsPong)
  qed
qed

text \<open>The pongs of the loop are short enough, and its calls do not depend on the chunks.\<close>

lemma readLoop_calls:
  assumes "maxPayloadSize cfg < 2 ^ 63"
  obtains acts where "readLoop (maxPayloadSize cfg) net = Some acts" "\<forall>p. WsPong p \<in> set acts \<longrightarrow> length p \<le> 125"
proof -
  let ?acts = "decode_stream (maxPayloadSize cfg) 0 [] (concat (chunks net))"
  have r: "readLoop (maxPayloadSize cfg) net = Some ?acts" by (simp add: readLoop_decode_stream)
  have "list_all (action_ok (maxPayloadSize cfg)) ?acts" using decode_stream_limits[OF _ assms] by simp
  then have "\<forall>p. WsPong p \<in> set ?acts \<longrightarrow> length p \<le> 125" by (fastforce simp: list_all_iff action_ok_def)
  then show thesis by (rule that[OF r])
qed

section \<open>DATA for a stream that is ready\<close>

lemma data_packet_parts [simp]:
  "packet_stream (data_packet i d) = i" "drop 5 (data_packet i d) = d" "data_packet i d ! 0 = packetTypeData"
  "length (data_packet i d) = 5 + length d"
  by (simp_all add: data_packet_def packet_stream_def codec_simps)

text \<open>A TCP stream whose dial is over and whose writer takes its data.\<close>

definition ready_stream :: "wispConnection \<Rightarrow> u32 \<Rightarrow> nat \<Rightarrow> wispStream \<Rightarrow> bool" where
  "ready_stream c i r s \<longleftrightarrow>
     streams c i = Some r \<and> heap c r = Some s \<and> isOpen s \<and> connReadyDone s \<and> st_streamType s = streamTypeTCP \<and> ingressActive s"

lemma cached_ready:
  assumes "conn_inv c" "streams c i = Some r"
  shows "cached_stream i c = None \<or> cached_stream i c = Some r"
proof -
  have "r' = r" if "streamCache c (cache_slot i) = Some r'" "heap c r' = Some s" "st_streamId s = i" for r' s
  proof -
    have "\<exists>j. open_as c r' j \<and> cache_slot j = cache_slot i"
      by (rule conjunct2[OF conjunct2[OF conjunct2[OF conjunct2[OF assms(1)[unfolded conn_inv_def]]]], rule_format]) (rule that(1))
    then obtain j where "open_as c r' j" by blast
    then have op: "open_as c r' i" using that by (auto simp: open_as_def)
    have "streams c i = Some r' \<longleftrightarrow> open_as c r' i" using assms(1) unfolding conn_inv_def by (elim conjE) (rule spec, erule spec)
    then show "r' = r" using op assms(2) by simp
  qed
  then show ?thesis by (auto simp: cached_stream_def split: option.splits)
qed

lemma core_use_credit:
  assumes "heap c r = Some s"
  shows "\<exists>n. heap (use_credit i r c) r = Some (s\<lparr>bufferRemaining := n\<rparr>)"
    "streams (use_credit i r c) = streams c" "conn_auth (use_credit i r c) = conn_auth c"
proof -
  have core: "heap (sendPacket j n c') = heap c'" "streams (sendPacket j n c') = streams c'" for j n and c' :: wispConnection
    using write_frame(7)[of j n c'] by (simp_all add: conn_core_eq)
  show "\<exists>n. heap (use_credit i r c) r = Some (s\<lparr>bufferRemaining := n\<rparr>)"
    "streams (use_credit i r c) = streams c" "conn_auth (use_credit i r c) = conn_auth c"
    using assms by (auto simp: use_credit_def Let_def core heap_upd_stream frame_simps)
qed

text \<open>One DATA packet is queued behind what the stream has queued already.\<close>

lemma data_queued:
  assumes "conn_inv c" "handshake_over c" "ready_stream c i r s" "\<not> pe_stopped env"
    "pendingIngBytes s + int (length d) \<le> maxPendingQueueBytes c"
  shows "\<exists>c' s'. handleWispFrame env (data_packet i d) c = (DataReturn True, c') \<and> ready_stream c' i r s' \<and>
    conn_auth c' = conn_auth c \<and> pendingIngress s' = pendingIngress s @ [d] \<and>
    pendingIngBytes s' = pendingIngBytes s + int (length d)"
proof -
  have r: "streams c i = Some r" "heap c r = Some s" "isOpen s" "connReadyDone s" "st_streamType s = streamTypeTCP" "ingressActive s"
    using assms(3) by (simp_all add: ready_stream_def)
  have data: "is_data c (data_packet i d)" using assms(2) by (simp add: is_data_def handshake_over_def)
  obtain c1 where l: "handleData_lookup (pe_write_ok env) i d c = (DataGo r, c1)"
    "streams c1 = streams c" "heap c1 = heap c" "conn_auth c1 = conn_auth c"
  proof -
    have inv: "conn_inv (c\<lparr>ingressBytes := n\<rparr>)" for n by (rule conn_inv_core[OF assms(1)]) (simp add: conn_core_def)
    show thesis
      using cached_ready[OF inv[of "ingressBytes c + of_nat (length d)"], where i = i and r = r] r
      by (intro that[of "snd (handleData_lookup (pe_write_ok env) i d c)"])
         (auto simp: handleData_lookup_def data_check_open_def cache_store_def conn_auth_def Let_def split: option.splits)
  qed
  obtain c2 where w: "handleData_wait (pe_clock env 2) (pe_clock env 3) (pe_stopped env) d c1 = (True, c2)"
    "streams c2 = streams c" "heap c2 = heap c" "conn_auth c2 = conn_auth c"
    using l assms(4)
    by (intro that[of "snd (handleData_wait (pe_clock env 2) (pe_clock env 3) (pe_stopped env) d c1)"])
       (auto simp: handleData_wait_def BandwidthLimiter_Wait_def conn_auth_def split: option.splits prod.splits)
  let ?f = "\<lambda>s. s\<lparr>pendingIngress := pendingIngress s @ [d], pendingIngBytes := pendingIngBytes s + int (length d),
    ingressWriting := True\<rparr>"
  have m: "maxPendingQueueBytes c2 = maxPendingQueueBytes c"
    using w(4) by (simp add: maxPendingQueueBytes_def conn_auth_def)
  have sp: "streams (spawn g c') = streams c'" "heap (spawn g c') = heap c'" for g c' by (simp_all add: spawn_def)
  obtain c3 where q: "queueIngressOwned r d c2 = (True, c3)"
    "streams c3 = streams c" "heap c3 r = Some (?f s)" "conn_auth c3 = conn_auth c"
    using w r assms(5)
    by (intro that[of "snd (queueIngressOwned r d c2)"])
       (auto simp: queueIngressOwned_def submitIngress_def m heap_upd_stream sp frame_simps Let_def)
  have f: "handleData_finish (pe_write_ok env) i d r c2 = (DataReturn True, use_credit i r c3)"
    using w(3) r by (simp add: handleData_finish_def q(1))
  have "handleWispFrame env (data_packet i d) c = (DataReturn True, use_credit i r c3)"
    by (simp add: frame_data[OF data] handleDataPacket_def l(1) w(1) f)
  moreover obtain n where "heap (use_credit i r c3) r = Some ((?f s)\<lparr>bufferRemaining := n\<rparr>)"
    using core_use_credit(1)[OF q(3)] by blast
  ultimately show ?thesis
    using core_use_credit(2,3)[OF q(3), of i] q(2,4) r by (auto simp: ready_stream_def)
qed

text \<open>The messages of a client's frames.\<close>

fun item_packets :: "client_item \<Rightarrow> bytes list" where
  "item_packets (Whole k p) = [p]"
| "item_packets (Ping k p) = []"
| "item_packets (Fragmented k p ms k' p') = [p @ mid_payload ms @ p']"

definition frames_of :: "ws_action list \<Rightarrow> bytes list" where
  "frames_of acts = concat (map (\<lambda>a. case a of WsFrame p _ \<Rightarrow> [p] | _ \<Rightarrow> []) acts)"

lemma frames_of_simps [simp]:
  "frames_of [] = []" "frames_of (WsFrame p b # acts) = p # frames_of acts" "frames_of (WsPong p # acts) = frames_of acts"
  "frames_of (WsClose n # acts) = frames_of acts" "frames_of (xs @ ys) = frames_of xs @ frames_of ys"
  by (simp_all add: frames_of_def)

lemma frames_of_mids [simp]: "frames_of (mid_pongs ms) = []"
  by (induction ms rule: mid_pongs.induct) auto

lemma frames_of_items: "frames_of (concat (map item_actions items)) = concat (map item_packets items)"
proof (induction items)
  case (Cons i items)
  then show ?case by (cases i) simp_all
qed simp

lemma upload_run:
  assumes "conn_reach cfg (c, add_mset PLoop ps)" "\<forall>p. WsPong p \<in> set acts \<longrightarrow> length p \<le> 125"
    "frames_of acts = map (data_packet i) ds" "handshake_over c" "ready_stream c i r s" "\<And>n. \<not> pe_stopped (e n)"
    "pendingIngBytes s + (\<Sum>d\<leftarrow>ds. int (length d)) \<le> maxPendingQueueBytes c"
  shows "\<exists>c' s'. session e acts c = (True, c') \<and> ready_stream c' i r s' \<and> pendingIngress s' = pendingIngress s @ ds"
  using assms
proof (induction acts arbitrary: c ps e ds s)
  case Nil
  then show ?case by auto
next
  case (Cons a acts)
  have keep: "handshake_over c'" "ready_stream c' i r s" "maxPendingQueueBytes c' = maxPendingQueueBytes c"
    if "conn_core c' = conn_core c" "conn_auth c' = conn_auth c" for c'
    using that Cons.prems(4,5)
    by (simp_all add: handshake_over_def ready_stream_def conn_core_eq conn_auth_def maxPendingQueueBytes_def)
  show ?case
  proof (cases a)
    case (WsFrame p pooled)
    then obtain d ds' where ds: "ds = d # ds'" "p = data_packet i d" "frames_of acts = map (data_packet i) ds'"
      using Cons.prems(3) by (cases ds) auto
    have "conn_inv c" using conn_reach_inv[OF Cons.prems(1)] by (simp add: sys_inv_def)
    moreover have nn: "0 \<le> (\<Sum>d\<leftarrow>ds'. int (length d))" by (rule sum_list_nonneg) auto
    ultimately obtain c1 s1 where 1: "handleWispFrame (e 0) p c = (DataReturn True, c1)" "ready_stream c1 i r s1"
      "conn_auth c1 = conn_auth c" "pendingIngress s1 = pendingIngress s @ [d]"
      "pendingIngBytes s1 = pendingIngBytes s + int (length d)"
      using data_queued[of c i r s "e 0" d] Cons.prems(4-7) by (auto simp: ds)
    obtain qs where "conn_reach cfg (c1, add_mset PLoop qs)"
      using packet_run[OF Cons.prems(1) 1(1)] by (auto simp: after_finish_def)
    moreover have "handshake_over c1" "maxPendingQueueBytes c1 = maxPendingQueueBytes c"
      using 1(3) Cons.prems(4) by (simp_all add: handshake_over_def conn_auth_def maxPendingQueueBytes_def)
    ultimately have "\<exists>c' s'. session (\<lambda>n. e (Suc n)) acts c1 = (True, c') \<and> ready_stream c' i r s' \<and>
        pendingIngress s' = pendingIngress s1 @ ds'"
      using Cons.prems(2,6,7) 1(2,5) by (intro Cons.IH[of c1 qs ds' s1]) (simp_all add: ds)
    then show ?thesis by (simp add: WsFrame ds(2) 1(1)[unfolded ds(2)] ds(1) 1(4))
  next
    case (WsClose code)
    have "\<exists>c' s'. session (\<lambda>n. e (Suc n)) acts (sendWSClose (pe_done (e 0)) code c) = (True, c') \<and>
        ready_stream c' i r s' \<and> pendingIngress s' = pendingIngress s @ ds"
      using Cons.prems(2,3,6,7) keep[of "sendWSClose (pe_done (e 0)) code c"]
      by (intro Cons.IH[OF reach_own[OF Cons.prems(1) loop_close]]) (simp_all add: WsClose frame_simps)
    then show ?thesis by (simp add: WsClose)
  next
    case (WsPong p)
    then have short: "length p \<le> 125" using Cons.prems(2) by simp
    have "\<exists>c' s'. session (\<lambda>n. e (Suc n)) acts (writeRawPong p c) = (True, c') \<and>
        ready_stream c' i r s' \<and> pendingIngress s' = pendingIngress s @ ds"
      using Cons.prems(2,3,6,7) keep[of "writeRawPong p c"]
      by (intro Cons.IH[OF reach_own[OF Cons.prems(1) loop_pong[OF short]]]) (simp_all add: WsPong frame_simps)
    then show ?thesis by (simp add: WsPong)
  qed
qed

section \<open>Properties\<close>

text \<open>
  C5: The read loop and the handlers compose: from any reachable state of a connection, whatever bytes
  the client sends and however the network cuts them into reads, carrying out the calls of
  \<^verbatim>\<open>readLoop\<close> one after the other is a run of the interleaved system, which ends at the head of
  the loop or in a panic. So every invariant of the reachable states holds after it; and the deferred
  \<^verbatim>\<open>deleteAllWispStreams\<close> leaves no stream.
\<close>

theorem session_is_a_run:
  assumes "conn_reach cfg (c, add_mset PLoop ps)" and "maxPayloadSize cfg < 2 ^ 63"
  shows "\<exists>acts ok c' qs. readLoop (maxPayloadSize cfg) net = Some acts \<and> session e acts c = (ok, c') \<and>
     conn_reach cfg (c', add_mset (if ok then PLoop else PPanic) qs) \<and>
     (ok \<longrightarrow> (\<forall>refs trefs. set refs = ran (streams c') \<and> set trefs = ran (twispStreams c') \<longrightarrow>
        conn_reach cfg (deleteAllWispStreams refs trefs c', qs) \<and>
        streams (deleteAllWispStreams refs trefs c') = Map.empty))"
proof -
  obtain acts where acts: "readLoop (maxPayloadSize cfg) net = Some acts" "\<forall>p. WsPong p \<in> set acts \<longrightarrow> length p \<le> 125"
    using readLoop_calls[OF assms(2)] .
  obtain ok c' where s: "session e acts c = (ok, c')" by fastforce
  obtain qs where qs: "conn_reach cfg (c', add_mset (if ok then PLoop else PPanic) qs)"
    using session_run[OF assms(1) acts(2) s] by blast
  have "conn_inv c'" using conn_reach_inv[OF qs] by (simp add: sys_inv_def)
  then have "ok \<longrightarrow> (\<forall>refs trefs. set refs = ran (streams c') \<and> set trefs = ran (twispStreams c') \<longrightarrow>
      conn_reach cfg (deleteAllWispStreams refs trefs c', qs) \<and>
      streams (deleteAllWispStreams refs trefs c') = Map.empty)"
    using reach_own[OF _ loop_end, of cfg c' qs] qs deleteAll_streams by auto
  then show ?thesis using acts(1) s qs by blast
qed

text \<open>The messages a version 1 client sends first: CONNECT, then DATA before the stream is ready.\<close>

definition first_bytes :: bytes where
  "first_bytes = client_frame True 0x2 [1, 2, 3, 4] (connect_bytes 1) @ client_frame True 0x2 [5, 6, 7, 8] (data_packet 1 [7])"

lemma default_payload: "maxPayloadSize DefaultConfig < 2 ^ 63"
  by (simp add: maxPayloadSize_def DefaultConfig_def)

theorem session_is_a_run_witness:
  "\<exists>acts ok c' qs. readLoop (maxPayloadSize DefaultConfig) \<lparr>chunks = [take 5 first_bytes, drop 5 first_bytes], err_with_data = True\<rparr> = Some acts \<and>
     session (\<lambda>_. run_env) acts (run_start DefaultConfig) = (ok, c') \<and>
     conn_reach DefaultConfig (c', add_mset (if ok then PLoop else PPanic) qs)"
  using session_is_a_run[OF run_reach_start default_payload,
      of "\<lparr>chunks = [take 5 first_bytes, drop 5 first_bytes], err_with_data = True\<rparr>" "\<lambda>_. run_env"]
  by blast

text \<open>
  C3: What a client uploads arrives: to an open TCP stream it sends DATA in any frames it likes (whole
  messages, fragments, pings in between, a new masking key each time), and the network cuts the bytes
  anywhere. If the payloads fit the queue, exactly these payloads, in their order, are queued for the
  target behind what was queued before, and the stream stays open.
\<close>

theorem upload_arrives_in_order:
  assumes "conn_reach cfg (c, add_mset PLoop ps)" and "handshake_over c" and "ready_stream c i r s"
    and "list_all (item_ok (maxPayloadSize cfg)) items" and "maxPayloadSize cfg < 2 ^ 63"
    and "concat (map item_packets items) = map (data_packet i) ds"
    and "concat (chunks net) = concat (map item_bytes items)"
    and "\<And>n. \<not> pe_stopped (e n)"
    and "pendingIngBytes s + (\<Sum>d\<leftarrow>ds. int (length d)) \<le> maxPendingQueueBytes c"
  shows "\<exists>acts c' s'. readLoop (maxPayloadSize cfg) net = Some acts \<and> session e acts c = (True, c') \<and>
     ready_stream c' i r s' \<and> pendingIngress s' = pendingIngress s @ ds"
proof -
  let ?acts = "concat (map item_actions items)"
  have r: "readLoop (maxPayloadSize cfg) net = Some ?acts"
    using decode_items[OF assms(4,5)] assms(7) by (simp add: readLoop_decode_stream)
  obtain acts where acts: "readLoop (maxPayloadSize cfg) net = Some acts" "\<forall>p. WsPong p \<in> set acts \<longrightarrow> length p \<le> 125"
    using readLoop_calls[OF assms(5)] .
  have eq: "acts = ?acts" using r acts(1) by simp
  have "frames_of acts = map (data_packet i) ds" unfolding eq by (simp only: frames_of_items assms(6))
  from upload_run[where e = e, OF assms(1) acts(2) this assms(2,3,8,9)] obtain c' s' where
    "session e acts c = (True, c')" "ready_stream c' i r s'" "pendingIngress s' = pendingIngress s @ ds" by blast
  then show ?thesis using acts(1) by (intro exI conjI)
qed

text \<open>Two messages, the second in two fragments with a ping between them, cut into two reads.\<close>

definition upload_items :: "client_item list" where
  "upload_items = [Whole [1, 2, 3, 4] (data_packet 1 [7]),
     Fragmented [0, 0, 0, 0] (take 3 (data_packet 1 [8, 9])) [(True, [1, 1, 1, 1], [5])] [9, 9, 9, 9] (drop 3 (data_packet 1 [8, 9]))]"

lemma run_ready:
  obtains c s where "conn_reach DefaultConfig (c, {#PLoop, PRead 0#})" "handshake_over c" "ready_stream c 1 0 s"
    "pendingIngress s = []" "pendingIngBytes s = 0"
proof -
  obtain c where c: "conn_reach DefaultConfig (c, {#PLoop, PFlush 0 True []#})" "isV2 c = False"
    "streams c = [1 \<mapsto> 0]" "heap c = [0 \<mapsto> dialled_stream\<lparr>st_conn := ConnOpen\<rparr>]"
    by (rule run_flushing)
  let ?c = "connect_ready 0 True c"
  have "conn_reach DefaultConfig (?c, {#PLoop, PRead 0#})"
    using reach_own[OF c(1)[unfolded add_mset_commute[of PLoop]] connect_ready] by (simp add: add_mset_commute)
  moreover have "handshake_over ?c" by (simp add: handshake_over_def connect_ready_def signalConnReady_def frame_simps c(2))
  moreover have "ready_stream ?c 1 0 (dialled_stream\<lparr>st_conn := ConnOpen, ingressActive := True, connReadyDone := True\<rparr>)"
    by (simp add: ready_stream_def connect_ready_def signalConnReady_def heap_upd_stream frame_simps c(3,4)
        dialled_stream_def run_stream_def new_stream_def streamTypeTCP_def)
  ultimately show thesis
    by (rule that) (simp_all add: dialled_stream_def run_stream_def new_stream_def)
qed

theorem upload_arrives_in_order_witness:
  "\<exists>c acts c' s'. conn_reach DefaultConfig (c, {#PLoop, PRead 0#}) \<and>
     readLoop (maxPayloadSize DefaultConfig)
       \<lparr>chunks = [take 9 (concat (map item_bytes upload_items)), drop 9 (concat (map item_bytes upload_items))], err_with_data = False\<rparr> = Some acts \<and>
     session (\<lambda>_. run_env) acts c = (True, c') \<and> ready_stream c' 1 0 s' \<and> pendingIngress s' = [[7], [8, 9]]"
proof -
  obtain c s where c: "conn_reach DefaultConfig (c, {#PLoop, PRead 0#})" "handshake_over c" "ready_stream c 1 0 s"
    "pendingIngress s = []" "pendingIngBytes s = 0"
    by (rule run_ready)
  let ?items = "concat (map item_bytes upload_items)"
  let ?net = "\<lparr>chunks = [take 9 ?items, drop 9 ?items], err_with_data = False\<rparr>"
  have "list_all (item_ok (maxPayloadSize DefaultConfig)) upload_items"
    by (simp add: upload_items_def mids_ok_def ping_ok_def maxPayloadSize_def DefaultConfig_def)
  moreover have "concat (map item_packets upload_items) = map (data_packet 1) [[7], [8, 9]]"
    by (simp add: upload_items_def)
  moreover have "concat (chunks ?net) = ?items" by simp
  moreover have "\<not> pe_stopped run_env" by (simp add: run_env_def)
  moreover have "pendingIngBytes s + (\<Sum>d\<leftarrow>[[7], [8, 9] :: bytes]. int (length d)) \<le> maxPendingQueueBytes c"
    using conn_reach_inv[OF c(1)] c(5)
    by (simp add: maxPendingQueueBytes_def DefaultConfig_def)
  ultimately show ?thesis
    using upload_arrives_in_order[OF c(1-3) _ default_payload, of upload_items "[[7], [8, 9]]" ?net "\<lambda>_. run_env"] c(1,4)
    by auto
qed

end
