(* ===== verification/Conn_Frames.thy ===== *)
theory Conn_Frames
  imports Conn_Packets Conn_Safety Writer
begin

text \<open>
  What a client reads: every frame a connection queues is one that a client can read, and the bytes on
  the wire are decoded into the messages of the accepted frames, in order; what a target sends is among
  them, read by read. The operations of a connection, interpreted for the relation \<open>sends\<close>.
\<close>

section \<open>Every step queues frames only\<close>

lemma pending_upd_stream [simp]: "pendingWrites (upd_stream r f c) = pendingWrites c"
  by (simp add: upd_stream_def split: option.split)

lemma pending_stream_closed: "pendingWrites (stream_closed r s c) = pendingWrites c"
  by (simp add: stream_closed_def signalConnReady_def deleteWispStream_def upd_stream_def Let_def split: option.split)

lemma sends_stream_close: "sends c (stream_close r reason c)"
  by (auto simp: stream_close_cases split: option.split
      intro: sends_trans[OF sends_same[OF pending_stream_closed] sends_frames(5)])

lemma pending_primitive [simp]:
  "pendingWrites (spawn g c) = pendingWrites c" "pendingWrites (cache_store i r c) = pendingWrites c"
  "pendingWrites (upd_twisp t tf c) = pendingWrites c"
  by (simp_all add: spawn_def cache_store_def upd_twisp_def split: option.split)

interpretation fr: connection_ops sends
  by unfold_locales (auto intro: sends_trans sends_stream_close)

section \<open>The first frame\<close>

lemma info_length: "length (buildServerInfoPacket cfg) \<le> 64 + length (Motd cfg)"
  by (simp add: buildServerInfoPacket_def addExtension_def bytes_of_string_def Let_def)

lemma info_frame:
  assumes "length (Motd cfg) < 2 ^ 63"
  shows "server_frame (sendRawFrame_frame (buildServerInfoPacket cfg))"
proof (rule packet_frame)
  show "server_packet (buildServerInfoPacket cfg)" by (simp add: buildServerInfoPacket_eq server_packet_def)
  show "length (buildServerInfoPacket cfg) < 2 ^ 64" using info_length[of cfg] assms by simp
qed

lemma start_sends:
  assumes "length (Motd (config c)) < 2 ^ 63"
  shows "sends c (start_connection c)"
proof (cases "isV2 c")
  case True
  have "sends (c\<lparr>handshakePending := True\<rparr>) (start_connection c)"
    using True assms by (simp add: start_connection_def v2Handshake_def sendRawFrame_def frame_simps info_frame)
  then show ?thesis by (rule sends_trans[OF sends_same[of "c\<lparr>handshakePending := True\<rparr>" c], rotated]) simp
qed (simp add: start_connection_def frame_simps)

definition frames_ok :: "wispConnection \<Rightarrow> bool" where
  "frames_ok c \<longleftrightarrow> list_all (\<lambda>w. server_frame (wr_data w)) (pendingWrites c)"

lemma sends_ok: "sends c c' \<Longrightarrow> frames_ok c \<Longrightarrow> frames_ok c'"
  by (auto simp: sends_def frames_ok_def list_all_iff)

lemma reach_frames:
  assumes "conn_reach cfg s" "length (Motd cfg) < 2 ^ 63"
  shows "frames_ok (fst s)"
  using assms(1)
proof (induction rule: conn_reach.induct)
  case (reach_start dns g ip cid v2)
  have "frames_ok (new_connection cfg dns g ip cid v2)" by (simp add: new_connection_def frames_ok_def)
  then show ?case
    using start_sends[of "new_connection cfg dns g ip cid v2"] assms(2)
    by (auto simp: new_connection_def elim: sends_ok)
next
  case (reach_step s s')
  then show ?case by (cases s; cases s') (auto dest: fr.step elim: sends_ok)
qed

section \<open>Reading what the writer wrote\<close>

definition accepted_frames :: "wsys \<Rightarrow> bytes list" where
  "accepted_frames s = map wr_data (ws_accepted s)"

lemma wire_prefix:
  assumes "wreach cfg s" "ws_intact s"
  shows "\<exists>g. concat (accepted_frames s) = ws_wire s @ g"
  using wreach_inv[OF assms(1)] assms(2) by (auto simp: wire_order_def accepted_frames_def reqs_data_def)

lemma idle_wire:
  assumes "wreach cfg s" "ws_intact s" "\<not> writeActive (ws_q s)" "pendingWrites (ws_q s) = []"
  shows "ws_wire s = concat (accepted_frames s)"
proof -
  have "one_writer s" "wire_order s" using wreach_inv[OF assms(1)] by simp_all
  moreover have "ws_pc s i \<noteq> PcBatch b" for i b
    using \<open>one_writer s\<close> assms(3) in_writers[of i "ws_pc s"] by (auto simp: one_writer_def)
  ultimately show ?thesis
    using assms(2,4) by (auto simp: wire_order_def in_flight_def accepted_frames_def reqs_data_def)
qed

text \<open>A run in which one frame is accepted, taken and written.\<close>

definition buffer_req :: writeReq where
  "buffer_req = \<lparr>wr_data = sendPacket_frame 0 5, wr_pooled = False, wr_done = None\<rparr>"

definition sent_state :: wsys where
  "sent_state =
     (run_state_of (run_queue False [] 0 False) ((\<lambda>_. PcIdle)(0 := PcIdle, 1 := PcIdle)) [buffer_req] True)
       \<lparr>ws_wire := sendPacket_frame 0 5\<rparr>"

lemma buffer_req_simps [simp]: "wr_data buffer_req = sendPacket_frame 0 5" "wr_done buffer_req = None"
    "length (sendPacket_frame 0 5) = 11"
  by (simp_all add: buffer_req_def sendPacket_frame_def streamId_bytes_def put_uint32_le_def)

lemma sent_reach: "wreach DefaultConfig sent_state"
proof -
  have 0: "run_reach False [] 0 False (\<lambda>_. PcIdle) [] True"
    using wreach_start[of DefaultConfig] by (simp add: wsys_start_def run_state_of_def)
  have 1: "run_reach False [] 0 False ((\<lambda>_. PcIdle)(0 := PcSubmit buffer_req)) [] True"
    using wreach_step[OF 0 w_enter[of _ 0 buffer_req]] by (simp add: run_step_simps)
  have 2: "run_reach False [buffer_req] 11 True ((\<lambda>_. PcIdle)(0 := PcIdle, 1 := PcWriter)) [buffer_req] True"
    using wreach_step[OF 1 w_start[of _ 0 buffer_req _ 1]] by (simp add: run_step_simps)
  have 3: "run_reach False [] 0 True ((\<lambda>_. PcIdle)(0 := PcIdle, 1 := PcBatch [buffer_req])) [buffer_req] True"
    using wreach_step[OF 2 w_take[of _ 1]] by (simp add: run_step_simps)
  have 4: "wreach DefaultConfig
     ((run_state_of (run_queue False [] 0 True) ((\<lambda>_. PcIdle)(0 := PcIdle, 1 := PcWriter)) [buffer_req] True)
        \<lparr>ws_wire := sendPacket_frame 0 5\<rparr>)"
    using wreach_step[OF 3 w_written[of _ 1]] by (simp add: run_step_simps)
  show ?thesis
    using wreach_step[OF 4 w_exit[of _ 1]] by (simp add: run_step_simps sent_state_def)
qed

section \<open>What a target sends\<close>

text \<open>
  \<^verbatim>\<open>ReadBufPool\<close> as \<^verbatim>\<open>createWispHandler\<close> fills it; a \<^verbatim>\<open>Read\<close> behind the header room of
  such a buffer fits.
\<close>

definition new_read_buffer :: "Config \<Rightarrow> bytes" where
  "new_read_buffer cfg = replicate (nat (15 + TcpBufferSize cfg)) 0"

lemma new_read_buffer_fits:
  assumes "Validate ulow parse (Some cfg) = None" "length d \<le> length (drop maxHeaderLen (new_read_buffer cfg))"
  shows "read_fits (new_read_buffer cfg) d"
proof -
  have "1024 \<le> TcpBufferSize cfg" "TcpBufferSize cfg \<le> 16 * 1024 * 1024"
    using assms(1) by (auto simp: Validate_def split: if_splits option.splits)
  then have "15 + length d \<le> nat (15 + TcpBufferSize cfg)" "nat (15 + TcpBufferSize cfg) < 2 ^ 63"
    using assms(2) by (simp_all add: new_read_buffer_def maxHeaderLen_def nat_less_iff le_diff_conv2)
  then show ?thesis by (simp add: read_fits_def new_read_buffer_def maxHeaderLen_def)
qed

text \<open>
  The loop of \<^verbatim>\<open>readFromConnection\<close> over successful reads: the buffer, the bytes read and the two
  readings of the clock of each.
\<close>

fun read_turns :: "nat \<Rightarrow> (bytes \<times> bytes \<times> gotime \<times> gotime) list \<Rightarrow> wispConnection \<Rightarrow> bool \<times> wispConnection" where
  "read_turns r [] c = (True, c)"
| "read_turns r ((buf, d, now, now') # ts) c =
     (case readFromConnection_turn r buf d ReadNil now now' False c of
        (False, c') \<Rightarrow> (False, c')
      | (True, c') \<Rightarrow> read_turns r ts c')"

lemma pooled_queued:
  assumes "\<not> isClosed c" "pendingBytes c + int (length f) \<le> maxPendingQueueBytes c"
  shows "\<not> isClosed (queueWritePooled f c)" "pendingBytes (queueWritePooled f c) = pendingBytes c + int (length f)"
    "pendingWrites (queueWritePooled f c) = pendingWrites c @ [\<lparr>wr_data = f, wr_pooled = True, wr_done = None\<rparr>]"
    "config (queueWritePooled f c) = config c"
  using assms by (auto simp: write_defs Let_def split: prod.splits submit_outcome.splits if_splits)

definition data_frame_of :: "u32 \<Rightarrow> bytes \<Rightarrow> bytes" where
  "data_frame_of i d = sendRawFrame_frame (data_packet i d)"

lemma data_frame_of:
  assumes "read_fits buf d"
  shows "frame_in_place (read_behind_header buf d) i (length d) = data_frame_of i d"
  using assms unfolding read_fits_def read_behind_header_def data_frame_of_def data_packet_def
  by (subst frame_in_place_eq) (simp_all add: streamId_bytes_put)

lemma data_frame_of_length: "length (data_frame_of i d) \<le> length d + 15"
  by (simp add: data_frame_of_def data_packet_def sendRawFrame_frame_def Let_def)

lemma turn_queued:
  assumes "heap c r = Some s" "read_fits buf d" "d \<noteq> []" "\<not> isClosed c"
    "pendingBytes c + int (length d + 15) \<le> maxPendingQueueBytes c"
  shows "\<exists>c'. readFromConnection_turn r buf d ReadNil now now' False c = (True, c') \<and> heap c' = heap c \<and>
    \<not> isClosed c' \<and> config c' = config c \<and> pendingBytes c' \<le> pendingBytes c + int (length d + 15) \<and>
    map wr_data (pendingWrites c') = map wr_data (pendingWrites c) @ [data_frame_of (st_streamId s) d]"
proof -
  let ?f = "data_frame_of (st_streamId s) d"
  obtain c1 where c1: "(case globals c of None \<Rightarrow> (True, c)
      | Some g \<Rightarrow> (case BandwidthLimiter_Wait now now' False (remoteIP c) (int (length d)) (g_Bandwidth g) of
           (ok, l) \<Rightarrow> (ok, c\<lparr>globals := Some (g\<lparr>g_Bandwidth := l\<rparr>)\<rparr>))) = (True, c1)"
    "heap c1 = heap c" "isClosed c1 = isClosed c" "pendingWrites c1 = pendingWrites c" "pendingBytes c1 = pendingBytes c"
    "config c1 = config c"
    by (intro that[of "snd (case globals c of None \<Rightarrow> (True, c)
        | Some g \<Rightarrow> (case BandwidthLimiter_Wait now now' False (remoteIP c) (int (length d)) (g_Bandwidth g) of
             (ok, l) \<Rightarrow> (ok, c\<lparr>globals := Some (g\<lparr>g_Bandwidth := l\<rparr>)\<rparr>)))"])
       (auto simp: BandwidthLimiter_Wait_def split: prod.splits option.splits if_splits)
  let ?c2 = "c1\<lparr>egressBytes := egressBytes c1 + of_nat (length d)\<rparr>"
  have room: "\<not> isClosed ?c2" "pendingBytes ?c2 + int (length ?f) \<le> maxPendingQueueBytes ?c2"
  proof -
    have "maxPendingQueueBytes ?c2 = maxPendingQueueBytes c" using c1(6) by (simp add: maxPendingQueueBytes_def)
    then show "pendingBytes ?c2 + int (length ?f) \<le> maxPendingQueueBytes ?c2"
      using assms(5) c1(5) data_frame_of_length[of "st_streamId s" d] by simp
  qed (use assms(4) c1(3) in simp)
  have h: "heap (queueWritePooled ?f ?c2) = heap c"
  proof -
    have "conn_core (queueWritePooled ?f ?c2) = conn_core ?c2" by (simp only: frame_simps)
    then show ?thesis using c1(2) by (simp add: conn_core_eq)
  qed
  have "readFromConnection_turn r buf d ReadNil now now' False c = (True, queueWritePooled ?f ?c2)"
    using assms(1,3) by (simp add: readFromConnection_turn_def c1(1) data_frame_of[OF assms(2)])
  then show ?thesis
    using pooled_queued[OF room] h c1 data_frame_of_length[of "st_streamId s" d] by simp
qed

lemma turns_queued:
  assumes "heap c r = Some s" "list_all (\<lambda>(buf, d, _). read_fits buf d \<and> d \<noteq> []) ts" "\<not> isClosed c"
    "pendingBytes c + (\<Sum>(buf, d, _)\<leftarrow>ts. int (length d + 15)) \<le> maxPendingQueueBytes c"
  shows "\<exists>c'. read_turns r ts c = (True, c') \<and> \<not> isClosed c' \<and>
    map wr_data (pendingWrites c') = map wr_data (pendingWrites c) @ map (\<lambda>(buf, d, _). data_frame_of (st_streamId s) d) ts"
  using assms
proof (induction ts arbitrary: c)
  case Nil
  then show ?case by simp
next
  case (Cons t ts)
  obtain buf d now now' where t: "t = (buf, d, now, now')" by (cases t)
  have "0 \<le> (\<Sum>(buf, d, _)\<leftarrow>ts. int (length d + 15))" by (rule sum_list_nonneg) auto
  then have "pendingBytes c + int (length d + 15) \<le> maxPendingQueueBytes c" using Cons.prems(4) by (simp add: t)
  then obtain c1 where c1: "readFromConnection_turn r buf d ReadNil now now' False c = (True, c1)" "heap c1 = heap c"
    "\<not> isClosed c1" "config c1 = config c" "pendingBytes c1 \<le> pendingBytes c + int (length d + 15)"
    "map wr_data (pendingWrites c1) = map wr_data (pendingWrites c) @ [data_frame_of (st_streamId s) d]"
    using turn_queued[of c r s buf d now now'] Cons.prems(1-3) by (auto simp: t)
  have m: "maxPendingQueueBytes c1 = maxPendingQueueBytes c" using c1(4) by (simp add: maxPendingQueueBytes_def)
  from Cons.IH[of c1] c1 m Cons.prems show ?case by (auto simp: t)
qed

section \<open>Properties\<close>

text \<open>
  C8: Whatever a client, the remotes and the terminals send and in whatever order the goroutines run,
  every frame in a connection's outgoing queue is a complete WebSocket frame with its length in its
  header: a binary message with a well-formed Wisp packet, a pong, or a close.
\<close>

theorem queued_frames_wellformed:
  assumes "conn_reach cfg (c, ps)" and "length (Motd cfg) < 2 ^ 63"
  shows "list_all (\<lambda>w. server_frame (wr_data w)) (pendingWrites c)"
  using reach_frames[OF assms] by (simp add: frames_ok_def)

theorem queued_frames_wellformed_witness:
  "list_all (\<lambda>w. server_frame (wr_data w))
     (pendingWrites (start_connection (new_connection DefaultConfig None None ''10.0.0.1'' 1 False))) \<and>
   pendingWrites (start_connection (new_connection DefaultConfig None None ''10.0.0.1'' 1 False)) =
     [\<lparr>wr_data = sendPacket_frame 0 (BufferRemainingLength DefaultConfig), wr_pooled = False, wr_done = None\<rparr>]"
  using queued_frames_wellformed[OF reach_start[of DefaultConfig None None "''10.0.0.1''" 1 False]]
  by (simp add: start_connection_def new_connection_def write_defs Let_def sendPacket_frame_def streamId_bytes_put
      maxPendingQueueBytes_def DefaultConfig_def defaultPendingQueueBytes_def put_uint32_le_def)

text \<open>
  C7: While no write has failed and the connection is open, the client decodes the bytes that have
  arrived into exactly the messages of the accepted frames, from the first on and in order, and keeps a
  part of the next frame; when the writer is idle and nothing is queued, it has decoded all of them.
\<close>

theorem client_reads_in_order:
  assumes "wreach cfg s" and "ws_intact s" and "list_all server_frame (accepted_frames s)"
  shows "(\<exists>k r. read_so_far (accepted_frames s) k r \<and>
            decode_frames (ws_wire s) = (map frame_message (take k (accepted_frames s)), r)) \<and>
         (writeActive (ws_q s) \<or> pendingWrites (ws_q s) \<noteq> [] \<or>
            decode_frames (ws_wire s) = (map frame_message (accepted_frames s), []))"
proof (intro conjI)
  obtain g where "concat (accepted_frames s) = ws_wire s @ g" using wire_prefix[OF assms(1,2)] by blast
  then show "\<exists>k r. read_so_far (accepted_frames s) k r \<and>
      decode_frames (ws_wire s) = (map frame_message (take k (accepted_frames s)), r)"
    using decode_frames_prefix[OF assms(3)] by blast
  show "writeActive (ws_q s) \<or> pendingWrites (ws_q s) \<noteq> [] \<or>
      decode_frames (ws_wire s) = (map frame_message (accepted_frames s), [])"
    using idle_wire[OF assms(1,2)] decode_frames_all[OF assms(3)] by metis
qed

theorem client_reads_in_order_witness:
  "decode_frames (ws_wire sent_state) = ([(0x82, [packetTypeContinue, 0, 0, 0, 0, 5, 0, 0, 0])], [])"
proof -
  have f: "accepted_frames sent_state = [sendPacket_frame 0 5]"
    by (simp add: accepted_frames_def sent_state_def run_state_of_def)
  have "decode_frames (ws_wire sent_state) = (map frame_message (accepted_frames sent_state), [])"
    using client_reads_in_order[OF sent_reach] server_frames(2)[of 0 5]
    by (auto simp: f) (simp_all add: sent_state_def run_state_of_def)
  then show ?thesis
    by (simp add: f frame_message_def decode_frame_def sendPacket_frame_def streamId_bytes_def put_uint32_le_def)
qed

text \<open>
  C4: What a target sends arrives: as long as the client's queue has room, the loop of
  \<^verbatim>\<open>readFromConnection\<close> queues for every read one frame, in order, which a client decodes into a DATA
  packet with the id of the stream and exactly the bytes read.
\<close>

theorem download_arrives_in_order:
  assumes "heap c r = Some s" and "list_all (\<lambda>(buf, d, _). read_fits buf d \<and> d \<noteq> []) ts" and "\<not> isClosed c"
    and "pendingBytes c + (\<Sum>(buf, d, _)\<leftarrow>ts. int (length d + 15)) \<le> maxPendingQueueBytes c"
  shows "\<exists>c' fs. read_turns r ts c = (True, c') \<and> \<not> isClosed c' \<and>
    map wr_data (pendingWrites c') = map wr_data (pendingWrites c) @ fs \<and>
    decode_frames (concat fs) = (map (\<lambda>(buf, d, _). (0x82, data_packet (st_streamId s) d)) ts, [])"
proof -
  let ?fs = "map (\<lambda>(buf, d, _). data_frame_of (st_streamId s) d) ts"
  have f: "server_frame (data_frame_of (st_streamId s) d) \<and> frame_message (data_frame_of (st_streamId s) d) = (0x82, data_packet (st_streamId s) d)"
    if "read_fits buf d" for buf d
    using data_frame[of d buf "st_streamId s"] that unfolding data_frame_of[OF that] by (simp add: read_fits_def)
  have "list_all server_frame ?fs" using assms(2) f by (fastforce simp: list_all_iff)
  then have "decode_frames (concat ?fs) = (map frame_message ?fs, [])" by (rule decode_frames_all)
  moreover have "map frame_message ?fs = map (\<lambda>(buf, d, _). (0x82, data_packet (st_streamId s) d)) ts"
    using assms(2) f by (fastforce simp: list_all_iff)
  ultimately show ?thesis using turns_queued[OF assms] by auto
qed

text \<open>Two reads from the target of stream 1, the first too long for a frame with a one-byte length.\<close>

definition target_stream :: wispStream where
  "target_stream = new_stream (\<lambda>x. x) 1 80 ''a''"

definition reading_conn :: wispConnection where
  "reading_conn = (new_connection DefaultConfig None None ''10.0.0.1'' 1 False)\<lparr>heap := [0 \<mapsto> target_stream]\<rparr>"

theorem download_arrives_in_order_witness:
  "\<exists>c' fs. read_turns 0 [(replicate 300 0, replicate 200 7, 0, 0), (replicate 300 0, [8, 9], 0, 0)] reading_conn = (True, c') \<and>
    map wr_data (pendingWrites c') = fs \<and>
    decode_frames (concat fs) = ([(0x82, data_packet 1 (replicate 200 7)), (0x82, data_packet 1 [8, 9])], [])"
proof -
  let ?ts = "[(replicate 300 0, replicate 200 7, 0, 0), (replicate 300 0, [8, 9], 0, 0)] :: (bytes \<times> bytes \<times> gotime \<times> gotime) list"
  have c: "heap reading_conn 0 = Some target_stream" "\<not> isClosed reading_conn" "pendingBytes reading_conn = 0"
    "pendingWrites reading_conn = []" "maxPendingQueueBytes reading_conn = 67108864" "st_streamId target_stream = 1"
    by (simp_all add: reading_conn_def new_connection_def target_stream_def new_stream_def maxPendingQueueBytes_def DefaultConfig_def)
  have "list_all (\<lambda>(buf, d, _). read_fits buf d \<and> d \<noteq> []) ?ts" by (simp add: read_fits_def maxHeaderLen_def)
  from download_arrives_in_order[OF c(1) this c(2)] show ?thesis by (auto simp: c)
qed

end
