(* ===== verification/Terminal_Findings.thy ===== *)
theory Terminal_Findings
  imports Conn_Runs
begin

text \<open>
  Terminals that the end of their connection does not reach: the registry holds one terminal
  for each identifier, and what it does not hold is never killed.
\<close>

section \<open>Two terminals under one identifier\<close>

text \<open>The state after a terminal has started.\<close>

definition with_terminal :: "wispConnection \<Rightarrow> wispConnection" where
  "with_terminal c = spawn (GoPtyWaiter (next_ref c)) (spawn (GoPtyReader (next_ref c))
     (c\<lparr>twisp_heap := (twisp_heap c)(next_ref c \<mapsto> twisp_start 1), next_ref := Suc (next_ref c),
        twispStreams := (twispStreams c)(1 \<mapsto> next_ref c)\<rparr>))"

lemma splitShell_a: "splitShell ''a'' = Some [''a'']"
  by (simp add: splitShell_def shell_char_def shell_start_def shell_escape_char_def shell_quote_char_def
      shell_double_char_def)

lemma terminal_starts: "handleTwisp True 1 ''a'' c = with_terminal c"
  by (simp add: handleTwisp_def splitShell_a with_terminal_def Let_def)

text \<open>Both CONNECT packets are read before the first goroutine runs.\<close>

definition ann_twice :: wispConnection where "ann_twice = spawn (GoTwisp 1 ''a'') ann_terminal"

lemma ann_reach_twice:
  "conn_reach ann_config (ann_twice, {#PStart (GoTwisp 1 ''a''), PStart (GoTwisp 1 ''a''), PLoop#})"
proof -
  have start: "started ann_start ann_ready = {#}" "started ann_ready ann_terminal = {#PStart (GoTwisp 1 ''a'')#}"
    by (simp_all add: started_def ann_ready_empty ann_terminal_def ann_terminal_eq spawn_def)
  have frame: "handleWispFrame run_env (connect_bytes streamTypeTerm) ann_terminal = (DataReturn False, ann_twice)"
    unfolding ann_twice_def by (rule ann_terminal_packet) (simp_all add: ann_terminal_def ann_terminal_eq ann_ready_fields spawn_def)
  have data: "\<not> is_data ann_terminal (connect_bytes streamTypeTerm)"
    by (simp add: is_data_def connect_bytes_parts packetTypeConnect_def packetTypeData_def)
  have "conn_reach ann_config (ann_terminal, {#PLoop, PStart (GoTwisp 1 ''a'')#})"
    using ann_reach_terminal by (simp add: start add_mset_commute)
  from reach_own[OF this loop_packet[OF data frame]] show ?thesis
    by (simp add: started_def ann_twice_def spawn_def add_mset_commute)
qed

definition ann_two :: wispConnection where "ann_two = with_terminal (with_terminal ann_twice)"

lemma with_terminal_started: "started c (with_terminal c) = {#PStart (GoPtyReader (next_ref c)), PStart (GoPtyWaiter (next_ref c))#}"
  by (simp add: started_def with_terminal_def spawn_def)

lemma ann_reach_two: "conn_reach ann_config (ann_two, {#PLoop, PStart (GoPtyReader 0), PStart (GoPtyWaiter 0),
    PStart (GoPtyReader 1), PStart (GoPtyWaiter 1)#})"
proof -
  have n: "next_ref ann_twice = 0" "next_ref (with_terminal ann_twice) = 1"
    by (simp_all add: ann_twice_def ann_terminal_def ann_terminal_eq spawn_def ann_ready_empty with_terminal_def)
  have 1: "conn_reach ann_config (with_terminal ann_twice,
      {#PStart (GoTwisp 1 ''a''), PLoop#} + started ann_twice (with_terminal ann_twice))"
    by (rule reach_own[OF ann_reach_twice terminal[OF terminal_starts]])
  then have "conn_reach ann_config (with_terminal ann_twice,
      add_mset (PStart (GoTwisp 1 ''a'')) {#PLoop, PStart (GoPtyReader 0), PStart (GoPtyWaiter 0)#})"
    by (simp add: with_terminal_started n add_mset_commute)
  from reach_own[OF this terminal[OF terminal_starts]] show ?thesis
    by (simp add: with_terminal_started n ann_two_def add_mset_commute)
qed

lemma ann_two_fields: "streams ann_two = Map.empty" "twispStreams ann_two = [1 \<mapsto> 1]"
  "twisp_heap ann_two = [0 \<mapsto> twisp_start 1, 1 \<mapsto> twisp_start 1]"
  by (simp_all add: ann_two_def with_terminal_def ann_twice_def ann_terminal_def ann_terminal_eq spawn_def
      ann_ready_empty fun_upd_twist)

section \<open>Properties\<close>

text \<open>
  C37: A client that opens two terminals under one identifier and disconnects leaves the first one
  running: the connection is closed, its read loop has ended and its registry is empty, but the
  terminal is open and its goroutines wait for the command to end.
\<close>

theorem terminal_outlives_connection:
  "\<exists>c s. conn_reach ann_config (c, {#PStart (GoPtyReader 0), PStart (GoPtyWaiter 0), PStart (GoPtyReader 1), PStart (GoPtyWaiter 1)#}) \<and>
     isClosed c \<and> twispStreams c = Map.empty \<and> twisp_heap c 0 = Some s \<and> tw_isOpen s"
proof -
  let ?c = "deleteAllWispStreams [] [1] ann_two"
  have 1: "conn_reach ann_config (?c, {#PStart (GoPtyReader 0), PStart (GoPtyWaiter 0), PStart (GoPtyReader 1), PStart (GoPtyWaiter 1)#})"
    by (rule reach_own[OF ann_reach_two]) (rule loop_end, simp_all add: ann_two_fields)
  let ?d = "conn_close ann_two"
  have d: "isClosed ?d" by (simp add: conn_close_def close_drain_def send_done_def)
  have "conn_rest ?d = conn_rest ann_two" by (simp add: frame_simps)
  then have "twispStreams ?d = [1 \<mapsto> 1]" "twisp_heap ?d = [0 \<mapsto> twisp_start 1, 1 \<mapsto> twisp_start 1]"
    by (simp_all add: conn_rest_def ann_two_fields)
  then have "twispStreams ?c = Map.empty \<and> twisp_heap ?c 0 = Some (twisp_start 1) \<and> isClosed ?c"
    using d by (simp add: deleteAllWispStreams_def twisp_close_def sendClosePacket_def upd_twisp_def twisp_start_def
        upd_globals_def Let_def split: option.split)
  then show ?thesis using 1 by (intro exI[of _ ?c] exI[of _ "twisp_start 1"]) (simp add: twisp_start_def)
qed

end
