(* ===== verification/Maintenance.thy ===== *)
theory Maintenance
  imports Server_Globals Dns_Cache
begin

text \<open>
  The goroutines that evict what is idle (\<^verbatim>\<open>runMaintenance\<close> of
  \<^verbatim>\<open>wisp/runtime.go\<close>, \<^verbatim>\<open>cleanup\<close> of \<^verbatim>\<open>wisp/dnscache.go\<close>): a client
  cannot tell whether they have run, with one exception, the bandwidth limiter.
\<close>

section \<open>Windows\<close>

text \<open>
  The entry of a key after an eviction is the entry, or none where its window is over at every
  later call.
\<close>

definition entry_over :: "gotime \<Rightarrow> duration \<Rightarrow> window_entry option \<Rightarrow> bool" where
  "entry_over now window e \<longleftrightarrow> (case e of None \<Rightarrow> True | Some e \<Rightarrow> we_start e + window \<le> now)"

lemma sw_step_over:
  assumes "entry_over now window e" "now \<le> t" "window < 2 ^ 63"
  shows "limit \<le> 0 \<or> sw_step (Some (limit, window)) t e = sw_step (Some (limit, window)) t None"
  using assms by (auto simp: sw_step_def entry_over_def time_sub_def split: option.splits)

lemma run_entry_over:
  assumes "entry_over now window e" "\<forall>t \<in> set ts. now \<le> t" "window < 2 ^ 63"
  shows "run_entry (sw_step (Some (limit, window))) ts e = run_entry (sw_step (Some (limit, window))) ts None"
proof (cases "limit \<le> 0")
  case True
  then have "sw_step (Some (limit, window)) t d = (True, d)" for t d by (simp add: sw_step_def)
  then have "run_entry (sw_step (Some (limit, window))) ts d = replicate (length ts) True" for d
    by (induction ts) simp_all
  then show ?thesis by simp
next
  case False
  show ?thesis
  proof (cases ts)
    case (Cons t us)
    then show ?thesis using sw_step_over[OF assms(1), of t limit] assms(2,3) False by simp
  qed simp
qed

lemma evicted_entry:
  assumes "sw_window w \<le> idle"
  shows "sw_entry (SlidingWindow_Evict now idle (Some w)) key = sw_entry (Some w) key \<or>
    (sw_entry (SlidingWindow_Evict now idle (Some w)) key = None \<and> entry_over now (sw_window w) (sw_entry (Some w) key))"
  using assms
  by (auto simp: SlidingWindow_Evict_def sw_entry_def entry_over_def delete_where_def split: option.splits)

lemma evict_same_results:
  assumes "sw_window w \<le> idle" "sw_window w < 2 ^ 63" "\<forall>c \<in> set calls. now \<le> fst c"
  shows "results_for key calls (run_ops SlidingWindow_Allow calls (SlidingWindow_Evict now idle (Some w))) =
    results_for key calls (run_ops SlidingWindow_Allow calls (Some w))"
proof -
  have cfg: "sw_cfg (SlidingWindow_Evict now idle (Some w)) = Some (sw_limit w, sw_window w)" "sw_cfg (Some w) = Some (sw_limit w, sw_window w)"
    by (simp_all add: sw_cfg_def SlidingWindow_Evict_def)
  have "\<forall>t \<in> set (map fst (filter (\<lambda>c. snd c = key) calls)). now \<le> t" using assms(3) by auto
  then show ?thesis
    using evicted_entry[OF assms(1), of now key] run_entry_over[OF _ _ assms(2)]
    by (auto simp: sw.key_independent cfg)
qed

section \<open>The windows of the server\<close>

text \<open>What \<^verbatim>\<open>BuildGlobals\<close> builds: no window outlives the time after which it is evicted.\<close>

definition windows_ok :: "Globals \<Rightarrow> bool" where
  "windows_ok g \<longleftrightarrow>
     (case g_PerSource g of None \<Rightarrow> True | Some w \<Rightarrow> sw_window w = second) \<and>
     (case g_PerDestSec g of None \<Rightarrow> True | Some w \<Rightarrow> sw_window w = second) \<and>
     (case g_PerDestMin g of None \<Rightarrow> True | Some w \<Rightarrow> sw_window w = minute) \<and>
     (case g_ConnectionRate g of None \<Rightarrow> True | Some w \<Rightarrow> 0 \<le> sw_window w \<and> sw_window w < 2 ^ 62)"

lemma window_new [simp]: "NewSlidingWindow n d = w \<Longrightarrow> sw_window w = d"
  by (auto simp: NewSlidingWindow_def)

lemma flood_windows_ok: "windows_ok g \<Longrightarrow> windows_ok (flood_globals fp g)"
  by (simp add: windows_ok_def flood_globals_def NewSlidingWindow_def)

definition first_globals :: "gotime \<Rightarrow> Config \<Rightarrow> Globals" where
  "first_globals now cfg = \<lparr>g_PerSource = None,
     g_ConnectionRate = (if 0 < ConnectionsLimitPerIP cfg \<and> 0 < ConnectionWindowSeconds cfg
       then Some (NewSlidingWindow (ConnectionsLimitPerIP cfg) (wrap64 (ConnectionWindowSeconds cfg * second))) else None),
     g_Bandwidth = (if 0 < BandwidthLimitKbps cfg
       then NewBandwidthLimiter (wrap64 (BandwidthLimitKbps cfg * 1000) div 8) else None),
     g_PerDestSec = None, g_PerDestMin = None, g_InFlightSyns = None, g_Connections = None,
     g_Egress = PolicyFromConfig cfg, g_Reputation = None, g_Signature = None,
     g_active = [], g_stopped = False, g_startedAt = now, g_totalIngressBytes = 0, g_totalEgressBytes = 0\<rparr>"

lemma BuildGlobals_eq: "BuildGlobals now file cfg None =
    (let g1 = (case FloodProtection cfg of None \<Rightarrow> first_globals now cfg
       | Some fp \<Rightarrow> if fp_Enabled fp then flood_globals fp (first_globals now cfg) else first_globals now cfg)
     in case Server_Config.Reputation cfg of None \<Rightarrow> g1
        | Some rc \<Rightarrow> if rc_Enabled rc then g1\<lparr>g_Reputation := reputation_globals now file rc\<rparr> else g1)"
  by (simp only: BuildGlobals_def option.case Let_def first_globals_def)

lemma BuildGlobals_windows_ok:
  assumes "ConnectionWindowSeconds cfg * second < 2 ^ 62"
  shows "windows_ok (BuildGlobals now file cfg None)"
proof -
  have d: "0 \<le> wrap64 (ConnectionWindowSeconds cfg * second) \<and> wrap64 (ConnectionWindowSeconds cfg * second) < 2 ^ 62"
    if "0 < ConnectionWindowSeconds cfg"
    using that assms by (simp add: wrap64_id)
  have 0: "windows_ok (first_globals now cfg)"
    using d by (simp add: windows_ok_def first_globals_def NewSlidingWindow_def)
  have r: "windows_ok (g\<lparr>g_Reputation := r\<rparr>) = windows_ok g" for g r by (simp add: windows_ok_def)
  show ?thesis
    using 0 flood_windows_ok[OF 0] r by (simp add: BuildGlobals_eq Let_def split: option.split)
qed

text \<open>The windows of the four limiters after a tick, and after a call of another goroutine.\<close>

lemma windows_ok_tick: "windows_ok g \<Longrightarrow> windows_ok (globals_maintenance now g)"
  by (auto simp: windows_ok_def globals_maintenance_def SlidingWindow_Evict_def split: option.splits)

lemma window_allow: "map_option sw_window (snd (SlidingWindow_Allow now key w)) = map_option sw_window w"
  by (auto simp: SlidingWindow_Allow_def Let_def split: option.splits)

lemma windows_evicted:
  assumes "windows_ok g" "\<forall>c \<in> set calls. now \<le> fst c"
    and "get \<in> {g_PerSource, g_ConnectionRate, g_PerDestSec, g_PerDestMin}"
  shows "results_for key calls (run_ops SlidingWindow_Allow calls (get (globals_maintenance now g))) =
    results_for key calls (run_ops SlidingWindow_Allow calls (get g))"
proof (cases "get g")
  case None
  then show ?thesis using assms(3) by (auto simp: globals_maintenance_def SlidingWindow_Evict_def)
next
  case (Some w)
  have "\<exists>idle. get (globals_maintenance now g) = SlidingWindow_Evict now idle (Some w) \<and> sw_window w \<le> idle \<and> sw_window w < 2 ^ 63"
    using assms(1,3) Some by (auto simp: globals_maintenance_def windows_ok_def wrap64_id)
  then show ?thesis using evict_same_results[OF _ _ assms(2)] Some by metis
qed

section \<open>The bandwidth limiter\<close>

text \<open>
  A bucket may owe more time than the ten minutes after which it is forgotten: at 1 kbit/s a
  frame of 256 KiB is paid for after 35 minutes.
\<close>

definition slow_limiter :: BandwidthLimiter where
  "slow_limiter = \<lparr>bytesPerSecond = 125, burst = second, buckets = Map.empty\<rparr>"

lemma slow_cost: "bandwidth_cost 125 262144 = 2097152000000"
  by code_simp


definition slow_after :: "BandwidthLimiter option" where
  "slow_after = snd (reserve (0, 262144) ''a'' (Some slow_limiter))"

lemma slow_after: "slow_after = Some (slow_limiter\<lparr>buckets := [''a'' \<mapsto> \<lparr>bb_next = 2096152000000, bb_lastSeen = 0\<rparr>]\<rparr>)"
  by (simp add: slow_after_def reserve_def slow_limiter_def slow_cost Let_def zero_time_def)

lemma small_cost: "bandwidth_cost 125 1000 = 8000000000"
  by code_simp

section \<open>The DNS cache\<close>

lemma expire_invisible:
  assumes "now \<le> t"
  shows "fst (LookupIPAddr ulow t t' resolve host (expire now d)) = fst (LookupIPAddr ulow t t' resolve host d)"
  using assms
  by (auto simp: LookupIPAddr_def expire_def delete_where_def Let_def split: option.splits sum.splits)

section \<open>Properties\<close>

text \<open>
  C28: Eviction is invisible: whenever a tick of \<^verbatim>\<open>runMaintenance\<close> falls, every later call
  of the four request windows gets the answer it would have got without it.
\<close>

theorem eviction_invisible:
  assumes "windows_ok g" and "\<forall>c \<in> set calls. now \<le> fst c"
    and "get \<in> {g_PerSource, g_ConnectionRate, g_PerDestSec, g_PerDestMin}"
  shows "results_for key calls (run_ops SlidingWindow_Allow calls (get (globals_maintenance now g))) =
    results_for key calls (run_ops SlidingWindow_Allow calls (get g)) \<and> windows_ok (globals_maintenance now g)"
  using windows_evicted[OF assms] windows_ok_tick[OF assms(1)] by blast

theorem eviction_invisible_witness:
  "results_for ''a'' [(200 * second, ''a''), (200 * second, ''a'')]
     (run_ops SlidingWindow_Allow [(200 * second, ''a''), (200 * second, ''a'')]
       (g_PerSource (globals_maintenance (150 * second)
         ((first_globals 0 DefaultConfig)\<lparr>g_PerSource := Some \<lparr>sw_limit = 1, sw_window = second,
            sw_entries = [''a'' \<mapsto> \<lparr>we_start = 0, we_count = 1\<rparr>]\<rparr>\<rparr>)))) = [True, False]"
proof -
  let ?g = "(first_globals 0 DefaultConfig)\<lparr>g_PerSource := Some \<lparr>sw_limit = 1, sw_window = second,
      sw_entries = [''a'' \<mapsto> \<lparr>we_start = 0, we_count = 1\<rparr>]\<rparr>\<rparr>"
  have "windows_ok ?g" by (simp add: windows_ok_def first_globals_def DefaultConfig_def)
  from eviction_invisible[OF this, of "[(200 * second, ''a''), (200 * second, ''a'')]" "150 * second" g_PerSource "''a''"]
  show ?thesis by (simp add: SlidingWindow_Allow_def time_sub_def wrap64_id)
qed

text \<open>
  C38: The bandwidth limiter forgets what a client still owes when it has been silent for ten
  minutes: of two frames, the second of which would have been paid for after 35 minutes, the
  second is granted after ten, while the first still waits.
\<close>

theorem bandwidth_debt_forgotten:
  "fst (reserve (601 * second, 1000) ''a'' slow_after) = Some 2104152000000 \<and>
   fst (reserve (601 * second, 1000) ''a'' (g_Bandwidth (globals_maintenance (601 * second)
      ((first_globals 0 DefaultConfig)\<lparr>g_Bandwidth := slow_after\<rparr>)))) = Some (608 * second)"
  by (simp add: slow_after reserve_def slow_limiter_def small_cost globals_maintenance_def BandwidthLimiter_Evict_def
      delete_where_def zero_time_def Let_def)

end
