(* ===== verification/Platform.thy ===== *)
theory Platform
  imports Conn_System
begin

text \<open>
  The files that the build chooses by platform: the terminals of Windows
  (\<^verbatim>\<open>wisp/windows.go\<close>, in place of \<^verbatim>\<open>wisp/twisp.go\<close>) and the socket options
  (\<^verbatim>\<open>wisp/sockopt.go\<close> on Linux, \<^verbatim>\<open>wisp/other.go\<close> elsewhere).
\<close>

section \<open>Terminals on Windows\<close>

text \<open>\<open>None\<close> is the nil error.\<close>

definition writePty_windows :: "bytes \<Rightarrow> twispStream \<Rightarrow> string option \<times> twispStream" where
  "writePty_windows data s = (None, s)"

definition resize_windows :: "u16 \<Rightarrow> u16 \<Rightarrow> twispStream \<Rightarrow> twispStream" where
  "resize_windows rows cols s = s"

definition twisp_close_windows :: "nat \<Rightarrow> byte \<Rightarrow> wispConnection \<Rightarrow> wispConnection" where
  "twisp_close_windows t reason c =
     (case twisp_heap c t of
        None \<Rightarrow> c
      | Some s \<Rightarrow>
          if \<not> tw_isOpen s then c
          else sendClosePacket (tw_streamId s) reason
                 ((upd_twisp t (\<lambda>s. s\<lparr>tw_isOpen := False\<rparr>) c)
                    \<lparr>twispStreams := twisp_remove (tw_streamId s) (twispStreams c)\<rparr>))"

text \<open>No terminal is ever started there, and the other operations are those of Unix.\<close>

lemma handleTwisp_windows_keeps: "conn_rest (handleTwisp_windows i cmd c) = conn_rest c"
  by (simp add: handleTwisp_windows_def frame_simps)

lemma twisp_close_windows_eq: "twisp_close_windows = twisp_close"
  by (intro ext) (simp add: twisp_close_windows_def twisp_close_def)

lemma handleTwisp_windows_is_failure:
  assumes "\<not> isClosed c" "splitShell cmd = Some args" "args \<noteq> []"
  shows "conn_core (handleTwisp_windows i cmd c) = conn_core (handleTwisp False i cmd c) \<and>
    conn_rest (handleTwisp_windows i cmd c) = conn_rest (handleTwisp False i cmd c)"
  using assms by (simp add: handleTwisp_windows_def handleTwisp_def frame_simps)

section \<open>Socket options\<close>

text \<open>
  What is known of a \<^verbatim>\<open>net.Conn\<close>: whether it is a \<^verbatim>\<open>*net.TCPConn\<close> and whether its
  raw connection can be had; the system calls made on it are the result.
\<close>

record sock_conn =
  sock_tcp :: bool
  sock_raw :: bool

datatype sock_call = SetsockoptInt string string int

definition setTCPLowLatency :: "sock_conn \<Rightarrow> sock_call list" where
  "setTCPLowLatency c =
     (if \<not> sock_tcp c then [] else if \<not> sock_raw c then []
      else [SetsockoptInt ''IPPROTO_TCP'' ''TCP_QUICKACK'' 1])"

definition rearmTCPQuickAck :: "sock_conn \<Rightarrow> sock_call list" where
  "rearmTCPQuickAck c =
     (if \<not> sock_tcp c then [] else if \<not> sock_raw c then []
      else [SetsockoptInt ''IPPROTO_TCP'' ''TCP_QUICKACK'' 1])"

definition setTCPLowLatency_other :: "sock_conn \<Rightarrow> sock_call list" where
  "setTCPLowLatency_other c = []"

definition rearmTCPQuickAck_other :: "sock_conn \<Rightarrow> sock_call list" where
  "rearmTCPQuickAck_other c = []"

lemma rearm_same: "rearmTCPQuickAck = setTCPLowLatency"
  by (intro ext) (simp add: rearmTCPQuickAck_def setTCPLowLatency_def)

end
