(* ===== verification/Spec2Isabelle.thy ===== *)
theory Spec2Isabelle
  imports Writer Ingress Conn_Properties Conn_Dial Conn_Credit Conn_Refs Conn_Slots Server_Slots Command Reputation_Store
    Session Conn_Frames Terminal_Findings Maintenance Platform
begin

text \<open>
  wispurr is a server of the Wisp protocol, written in Go: a client opens one WebSocket and
  multiplexes over it any number of TCP and UDP streams, which the server dials on its behalf. The
  development models the server's own logic, package \<^verbatim>\<open>wisp\<close> and \<^verbatim>\<open>main.go\<close>, and
  proves what makes it correct.

  How the parts interact. \<^verbatim>\<open>main.go\<close> reads flags and configuration and starts the
  handler of \<^verbatim>\<open>wisp/wisp.go\<close>, which admits connections (client address, request window,
  semaphore) and upgrades them. Each connection has one read loop (\<^verbatim>\<open>wisp/wsreader.go\<close>):
  it turns the bytes of the socket into WebSocket messages and these into Wisp packets, and calls the
  packet handlers (\<^verbatim>\<open>wisp/wisp-connection.go\<close>). A CONNECT adds a stream and starts a goroutine
  that checks the target (filters, egress policy, DNS cache, rate limits), dials it, flushes what has
  arrived meanwhile and then copies target to client (\<^verbatim>\<open>wisp/wisp-stream.go\<close>); DATA goes to the
  target directly or through the stream's queue and its writer; all frames for the client go through
  one outgoing queue with one writer. The limiters, scores and signatures (\<^verbatim>\<open>wisp/runtime.go\<close>)
  are shared by all connections.

  The theories, in the order of their imports, and what they model.
  \<^item> \<open>Wisp_Prelude\<close>: generic lemmas, the collections \<open>frame_simps\<close>, \<open>inv_intros\<close>,
    \<open>codec_simps\<close>, and three interfaces as locales: \<open>fixed_codec\<close> (fixed-width integers on the
    wire), \<open>keyed_store\<close> (state kept per key: keys do not affect each other, and a run projects
    to the calls of one key), \<open>byte_queue\<close> (a queue with a byte counter).
  \<^item> \<open>Go_Bytes\<close>, \<open>Go_Strings\<close>, \<open>Go_Net\<close>, \<open>Go_Float\<close>: what the server uses of Go's
    \<^verbatim>\<open>encoding/binary\<close>, \<^verbatim>\<open>strings\<close>, \<^verbatim>\<open>strconv\<close>, \<^verbatim>\<open>unicode/utf8\<close>,
    \<^verbatim>\<open>net\<close>, \<^verbatim>\<open>net/netip\<close> and \<^verbatim>\<open>float64\<close>, written from the standard library.
  \<^item> \<open>Constants\<close>, \<open>Frames\<close>: \<^verbatim>\<open>wisp/constants.go\<close> and every frame that the server writes,
    with the decoders that read them back.
  \<^item> \<open>Ws_Mask\<close>, \<open>Ws_Reader\<close>, \<open>Ws_Loop\<close>, \<open>Ws_Client\<close>: \<^verbatim>\<open>wisp/wsreader.go\<close>, from the
    unrolled \<^verbatim>\<open>maskXOR\<close> over the buffered reader to the loop with its reassembly. \<open>Ws_Loop\<close>
    proves the loop equal to \<open>decode_stream\<close>, a function of the bytes alone; \<open>Ws_Client\<close> states
    what a conforming client sends and that this is what is delivered.
  \<^item> \<open>Server_Config\<close>, \<open>Config_Json\<close>: \<^verbatim>\<open>wisp/config.go\<close> (and the check of a
    proxy in \<^verbatim>\<open>wisp/proxy.go\<close>): the record, its clone, defaults,
    validation, and reading from JSON.
  \<^item> \<open>Write_Queue\<close>, \<open>Writer\<close>: the outgoing queue, first its atomic parts, then every interleaving
    of submitters, closers and the writer (\<open>wstep\<close>).
  \<^item> \<open>Rate_Limits\<close> (\<^verbatim>\<open>limits.go\<close>), \<open>Bandwidth\<close> (\<^verbatim>\<open>bandwidth.go\<close>), \<open>Reputation\<close> and
    \<open>Reputation_Store\<close> (\<^verbatim>\<open>reputation.go\<close>), \<open>Signature\<close> (\<^verbatim>\<open>signature.go\<close>), \<open>Dns_Cache\<close>
    (\<^verbatim>\<open>dnscache.go\<close>), \<open>Egress\<close> (\<^verbatim>\<open>egress.go\<close>), \<open>Client_Ip\<close> (\<^verbatim>\<open>clientip.go\<close>),
    \<open>Proxy_Dial\<close> (\<^verbatim>\<open>proxy.go\<close>), \<open>Logger\<close> (\<^verbatim>\<open>logger.go\<close>), \<open>Server_Globals\<close>
    (\<^verbatim>\<open>runtime.go\<close>): one component each, with its state as a record and each method, which runs
    under the component's mutex, as one function.
  \<^item> \<open>Wisp_V2\<close>: the handshake of protocol version 2 (\<^verbatim>\<open>v2.go\<close>).
  \<^item> \<open>Streams\<close>, \<open>Connection\<close>, \<open>Terminals\<close>, \<open>Handler\<close>, \<open>Command\<close>:
    \<^verbatim>\<open>wisp-stream.go\<close>, \<^verbatim>\<open>wisp-connection.go\<close>, \<^verbatim>\<open>twisp.go\<close>, \<^verbatim>\<open>wisp.go\<close>,
    \<^verbatim>\<open>main.go\<close>. The state of a connection is the record \<open>wispConnection\<close>; streams and terminals
    live in heaps and are shared by reference, as the source's pointers are. An operation of a goroutine
    is cut where the goroutine can block.
  \<^item> \<open>Ingress\<close>: the queue of a stream towards its target and the pooled payload buffers
    (\<^verbatim>\<open>wsreader.go\<close>, \<^verbatim>\<open>wisp-stream.go\<close>) at the grain of the locks (\<open>istep\<close>),
    with payloads as slices of shared memory, and that \<open>Streams\<close>'s coarser operations are its parts
    run without interruption.
  \<^item> \<open>Stream_Life\<close>: the abstract machine of one stream object (\<open>stream_move\<close>), which the
    operations refine.
  \<^item> \<open>Conn_Invariants\<close>, \<open>Conn_Ops\<close>, \<open>Conn_Quiet\<close>, \<open>Conn_Steps\<close>, \<open>Conn_System\<close>,
    \<open>Conn_Packets\<close>: the invariant of a connection's streams; the locales \<open>goroutine_ops\<close>,
    \<open>goroutine_ops_open\<close>, \<open>packet_ops\<close> and \<open>connection_ops\<close>, which carry a relation from the
    primitive changes of the state to every operation of it; and \<open>conn_step\<close>, the steps of the
    connection and its goroutines in any order, with \<open>conn_reach\<close>, the states they reach.
  \<^item> \<open>Conn_Safety\<close>, \<open>Conn_Properties\<close>, \<open>Conn_Lives\<close>, \<open>Conn_Refs\<close>, \<open>Conn_Slots\<close>,
    \<open>Server_Slots\<close>, \<open>Conn_Credit\<close>, \<open>Conn_Dial\<close>: what holds in all those states, each contract
    an interpretation of the locales (\<open>quiet\<close>, \<open>lives\<close>, \<open>keeps_types\<close>, \<open>same_syn\<close>).
  \<^item> \<open>Client_Side\<close>, \<open>Conn_Frames\<close>: the other end of the wire, a client that reads frames
    (\<open>decode_frames\<close>) and what it may be sent (\<open>server_frame\<close>); that every operation queues such frames
    only (\<open>sends\<close>, one more interpretation), and that the client reads them back from the bytes.
  \<^item> \<open>Session\<close>: the read loop and the handlers together (\<open>session\<close>), as a run of the system.
  \<^item> \<open>Maintenance\<close>: the periodic evictions of \<^verbatim>\<open>runtime.go\<close> and \<^verbatim>\<open>dnscache.go\<close>, and
    whether a client can tell that they have run.
  \<^item> \<open>Platform\<close>: what the build chooses by platform, \<^verbatim>\<open>windows.go\<close>, \<^verbatim>\<open>sockopt.go\<close>,
    \<^verbatim>\<open>other.go\<close>.
  \<^item> \<open>Conn_Runs\<close>, \<open>Conn_Findings\<close>, \<open>Terminal_Findings\<close>: concrete runs, ordinary ones (for the witnesses) and those in
    which the program misbehaves.

  What is shown, by group.
  \<^item> The wire: unmasking by words equals unmasking by bytes; what the loop delivers depends on the bytes
    only, not on how the network cuts them; it ends on every finite input; it delivers exactly the
    messages of a conforming client; no message passes the limit; outgoing frames and the INFO packets
    can be read back; the bytes on the wire are a prefix of the accepted frames in their order, and so are
    those at a target of the queued payloads, whose buffers have one owner each. Every frame that is
    queued is complete and holds a well-formed packet, and a client reads exactly the accepted frames, in order.
  \<^item> The composition: the read loop with its handlers is a run of the interleaved system, so that the
    invariants hold after any bytes from a client; and what a client uploads to a stream, in any framing
    and any reads, is queued for the target exactly and in order, and what a target sends is queued for the
    client in frames that it decodes into exactly the bytes read.
  \<^item> The connection: the table of streams, its cache and its counter agree with the streams that are
    open; references never dangle; every stream object moves by the rules of \<open>Stream_Life\<close>; queues and
    stream counts stay within their bounds; slots of the semaphores balance; credit is renewed in time;
    nothing happens before authentication; nothing stays open at the end.
  \<^item> The policy: only targets that pass filters and egress policy are dialled; reserved addresses are
    recognised exactly; a client cannot choose its own address.
  \<^item> The limiters: what a window admits, what the semaphore allows under compare-and-swap, what the
    bandwidth limiter lets through in an interval, how scores add up, what a detector matches; that
    evicting idle entries of the windows changes no answer.
  \<^item> Configuration and start: what the filters read, what the saved scores are at every moment of a
    save, that the server never runs on an invalid configuration, that a proxy's connection is closed
    on every error, and that a shutdown stops everything once and for all.
  \<^item> Flaws, as theorems about reachable states: a panic, a leaked connection to a target, lost
    data, a caller that waits for ever, credit that is never renewed, a blacklist that can
    be bypassed, a terminal that outlives its connection, a debt of bandwidth that is forgotten.

  Bounds and fuel. Machine integers are words or, for Go's \<^verbatim>\<open>int\<close> and
  \<^verbatim>\<open>int64\<close>, integers wrapped by \<open>wrap64\<close> (\<open>wrap32\<close> for \<^verbatim>\<open>int32\<close>).
  The read loop and \<^verbatim>\<open>fill\<close> are \<open>partial_function (option)\<close>, and their termination is
  proved (\<open>readLoop_independent_of_chunking\<close>: the result is never \<open>None\<close>). The only fuel is that of
  \<open>parseIPv6_loop\<close>: each turn writes at least two of the sixteen bytes, and the caller gives eight. The recursions over bytes and strings terminate by their length.

  Not modelled.
  \<^item> Parameters, since they are not under \<^verbatim>\<open>src\<close> or are data: \<^verbatim>\<open>url.Parse\<close>, the scanner
    and reflection of \<^verbatim>\<open>encoding/json\<close> (text to value and back), bcrypt, the SOCKS5 dialler, the
    resolver, the WebSocket upgrade of \<^verbatim>\<open>gws\<close> and its options, \<^verbatim>\<open>exec\<close> and the
    pseudo-terminal, the Unicode case tables, the formatting of logged values, the clock.
  \<^item> Deadlines of sockets, the delivery of signals, listening and the graceful shutdown of
    \<^verbatim>\<open>net/http\<close>: no effect on the state modelled, or arguments (\<open>main_signal\<close>, \<open>main_end\<close>). A ticker's
    loop is a function of the events that its \<^verbatim>\<open>select\<close> receives. Socket options are the calls made.
  \<^item> In \<open>session\<close> the other goroutines rest while the read loop works; \<open>conn_step\<close> has no such limit.
  \<^item> \<open>strings.EqualFold\<close> is modelled for an ASCII word on one side, which is how it is used.
  \<^item> In \<open>conn_step\<close> a lookup in the stream cache and the store that follows it are one step, and memory
    is sequentially consistent.
  \<^item> The pool of read buffers (\<^verbatim>\<open>ReadBufPool\<close>); in \<open>Streams\<close> and above payloads are values.
  \<^item> The TypeScript wrapper around the binary.
\<close>

end
